(* ===== verification/Prelude.thy ===== *)
theory Prelude
  imports Complex_Main "HOL-Library.Multiset" "HOL-Library.Product_Lexorder"
begin

text \<open>
  Shared vocabulary of the development: the Python exceptions that the notebooks can
  raise, a bind for the error sum \<open>py_error + 'a\<close> (an exception propagates out of
  every enclosing call), Python's checked list indexing and the
  \<^verbatim>\<open>d.get(k, list())\<close> / append idiom that the simulator uses for its
  timestamp dictionaries, and the lemmas on them that the component theories share.
\<close>

section \<open>Python exceptions as values\<close>

datatype py_error =
    IndexError         \<comment> \<open>list index out of range, or \<^verbatim>\<open>random.choice([])\<close>\<close>
  | ZeroDivisionError  \<comment> \<open>float division by zero\<close>
  | ValueError         \<comment> \<open>math domain error (\<^verbatim>\<open>math.log\<close> of a value \<open>\<le> 0\<close>)\<close>
  | TypeError          \<comment> \<open>a call with the wrong number of arguments\<close>
  | EmptyQueue         \<comment> \<open>\<^verbatim>\<open>PriorityQueue.get()\<close> on an empty queue (it would block forever)\<close>

type_synonym 'a result = "py_error + 'a"

named_theorems sim_simps "evaluation rules of the simulator's operations"

definition bindE :: "'a result \<Rightarrow> ('a \<Rightarrow> 'b result) \<Rightarrow> 'b result" where
  "bindE m f = (case m of Inl e \<Rightarrow> Inl e | Inr x \<Rightarrow> f x)"

section \<open>Python lists indexed by a station number\<close>

text \<open>\<^verbatim>\<open>xs[i]\<close> for a non-negative \<open>i\<close>: \<open>IndexError\<close> out of range.\<close>

definition py_index :: "'a list \<Rightarrow> nat \<Rightarrow> 'a result" where
  "py_index xs i = (if i < length xs then Inr (xs ! i) else Inl IndexError)"

text \<open>\<^verbatim>\<open>xs[i] = f(xs[i])\<close>, the in-place update of the \<open>i\<close>-th element.\<close>

definition py_modify :: "'a list \<Rightarrow> nat \<Rightarrow> ('a \<Rightarrow> 'a) \<Rightarrow> 'a list result" where
  "py_modify xs i f = (if i < length xs then Inr (xs[i := f (xs ! i)]) else Inl IndexError)"

section \<open>Timestamp dictionaries\<close>

text \<open>
  One per station: a Python \<^verbatim>\<open>dict\<close> from a client number to the list of the
  times recorded for that client (one entry per visit). A key that was never written is
  absent, not an empty list.
\<close>

type_synonym trace = "nat \<rightharpoonup> real list"

text \<open>\<^verbatim>\<open>m.get(k, list())\<close>\<close>

definition dict_get_list :: "trace \<Rightarrow> nat \<Rightarrow> real list" where
  "dict_get_list m k = (case m k of None \<Rightarrow> [] | Some l \<Rightarrow> l)"

text \<open>\<^verbatim>\<open>l = m.get(k, list()); l.append(t); m[k] = l\<close>\<close>

definition dict_append :: "nat \<Rightarrow> real \<Rightarrow> trace \<Rightarrow> trace" where
  "dict_append k t m = m(k \<mapsto> dict_get_list m k @ [t])"

section \<open>Basic facts\<close>

lemma bindE_Inl [simp]: "bindE (Inl e) f = Inl e"
  by (simp add: bindE_def)

lemma bindE_Inr [simp]: "bindE (Inr x) f = f x"
  by (simp add: bindE_def)

lemma bindE_eq_Inr_iff [simp]:
  "bindE m f = Inr y \<longleftrightarrow> (\<exists>x. m = Inr x \<and> f x = Inr y)"
  by (cases m) auto

lemma bindE_eq_Inl_iff:
  "bindE m f = Inl e \<longleftrightarrow> m = Inl e \<or> (\<exists>x. m = Inr x \<and> f x = Inl e)"
  by (cases m) auto

lemma map_sum_eq_Inl [simp]: "map_sum f g z = Inl e \<longleftrightarrow> (\<exists>e'. z = Inl e' \<and> f e' = e)"
  by (cases z) auto

lemma py_index_Inr_iff [simp]: "py_index xs i = Inr x \<longleftrightarrow> i < length xs \<and> x = xs ! i"
  by (auto simp: py_index_def)

lemma py_index_in_range [simp]: "i < length xs \<Longrightarrow> py_index xs i = Inr (xs ! i)"
  by (simp add: py_index_def)

lemma py_index_out_of_range [simp]: "length xs \<le> i \<Longrightarrow> py_index xs i = Inl IndexError"
  by (simp add: py_index_def)

lemma py_modify_Inr_iff [simp]:
  "py_modify xs i f = Inr ys \<longleftrightarrow> i < length xs \<and> ys = xs[i := f (xs ! i)]"
  by (auto simp: py_modify_def)

lemma py_modify_in_range [simp]: "i < length xs \<Longrightarrow> py_modify xs i f = Inr (xs[i := f (xs ! i)])"
  by (simp add: py_modify_def)

lemma py_modify_out_of_range [simp]: "length xs \<le> i \<Longrightarrow> py_modify xs i f = Inl IndexError"
  by (simp add: py_modify_def)

lemma dict_get_list_empty [simp]: "dict_get_list Map.empty k = []"
  by (simp add: dict_get_list_def)

lemma dict_get_list_append [simp]:
  "dict_get_list (dict_append k t m) c = (if c = k then dict_get_list m k @ [t] else dict_get_list m c)"
  by (simp add: dict_append_def dict_get_list_def)

lemma length_dict_get_list_append [simp]:
  "length (dict_get_list (dict_append k t m) c) = length (dict_get_list m c) + (if c = k then 1 else 0)"
  by simp

lemma dom_dict_append [simp]: "dom (dict_append k t m) = insert k (dom m)"
  by (auto simp: dict_append_def)

lemma dict_get_list_None: "m k = None \<Longrightarrow> dict_get_list m k = []"
  by (simp add: dict_get_list_def)

subsection \<open>Lists of stations\<close>

text \<open>
  The simulator keeps one list entry per station (\<^verbatim>\<open>[{} for _ in range(n)]\<close>);
  the facts below read an updated entry back.
\<close>

lemma nth_list_update_if: "j < length xs \<Longrightarrow> xs[i := v] ! j = (if i = j then v else xs ! j)"
  by simp

lemma replicate_nth_all [simp]: "\<forall>j < n. replicate n x ! j = x"
  by simp

lemma sum_list_map_update:
  "i < length xs \<Longrightarrow>
   sum_list (map (f :: 'a \<Rightarrow> nat) (xs[i := v])) + f (xs ! i) = sum_list (map f xs) + f v"
proof (induction xs arbitrary: i)
  case Nil
  then show ?case by simp
next
  case (Cons x xs)
  then show ?case by (cases i) (simp_all add: algebra_simps)
qed

lemma count_list_tl_hd:
  "xs \<noteq> [] \<Longrightarrow> count_list (tl xs) c = count_list xs c - (if hd xs = c then 1 else 0)"
  by (cases xs) auto

lemma count_list_hd_pos: "xs \<noteq> [] \<Longrightarrow> 0 < count_list xs (hd xs)"
  by (cases xs) auto

lemma count_image_mset_size_filter:
  "count (image_mset f M) c = size (filter_mset (\<lambda>e. f e = c) M)"
  by (induction M) auto

lemma take_one_eq: "take (Suc 0) xs = (case xs of [] \<Rightarrow> [] | y # _ \<Rightarrow> [y])"
  by (cases xs) auto

end
