(* ===== verification/Random_Source.thy ===== *)
theory Random_Source
  imports Prelude
begin

text \<open>
  The random draws of the notebooks. \<^verbatim>\<open>sim.ipynb\<close> calls Python's
  \<^verbatim>\<open>random.expovariate\<close>, \<^verbatim>\<open>random.uniform\<close> and \<^verbatim>\<open>random.choice\<close>
  on the module's one global generator. The generator is modelled as an explicit state
  \<open>'g\<close>, threaded through every call, with its two primitive operations given by the
  record \<open>'g rng\<close>: \<^verbatim>\<open>random()\<close> (a float) and \<^verbatim>\<open>_randbelow(m)\<close> (an
  integer). The three library functions are then written as CPython 3.12 defines them
  in terms of these primitives; they are library code, modelled from its documented
  definition. \<open>rng_ok\<close> is the contract of a well-behaved generator;
  \<open>replay_rng\<close> is a generator that replays fixed draws, used to run the model on
  concrete inputs.
\<close>

record 'g rng =
  rand_float :: "'g \<Rightarrow> real \<times> 'g"      \<comment> \<open>\<^verbatim>\<open>random.random()\<close>\<close>
  rand_below :: "'g \<Rightarrow> nat \<Rightarrow> nat \<times> 'g"  \<comment> \<open>\<^verbatim>\<open>random._randbelow(m)\<close>\<close>

text \<open>\<^verbatim>\<open>expovariate(lambd) = -log(1.0 - random()) / lambd\<close>: the draw comes first, then
  \<^verbatim>\<open>math.log\<close> (a \<open>ValueError\<close> at \<open>\<le> 0\<close>), then the division.\<close>

definition expovariate :: "'g rng \<Rightarrow> 'g \<Rightarrow> real \<Rightarrow> (real \<times> 'g) result" where
  "expovariate R g lambd =
     (let (u, g') = rand_float R g in
      if 1 - u \<le> 0 then Inl ValueError
      else if lambd = 0 then Inl ZeroDivisionError
      else Inr (- ln (1 - u) / lambd, g'))"

text \<open>\<^verbatim>\<open>uniform(a, b) = a + (b - a) * random()\<close>\<close>

definition uniform :: "'g rng \<Rightarrow> 'g \<Rightarrow> real \<Rightarrow> real \<Rightarrow> real \<times> 'g" where
  "uniform R g lo hi = (let (u, g') = rand_float R g in (lo + (hi - lo) * u, g'))"

text \<open>\<^verbatim>\<open>choice(seq)\<close>: \<open>IndexError\<close> on an empty sequence, else
  \<^verbatim>\<open>seq[_randbelow(len(seq))]\<close>.\<close>

definition choice :: "'g rng \<Rightarrow> 'g \<Rightarrow> 'a list \<Rightarrow> ('a \<times> 'g) result" where
  "choice R g xs =
     (if xs = [] then Inl IndexError
      else let (k, g') = rand_below R g (length xs) in
           bindE (py_index xs k) (\<lambda>x. Inr (x, g')))"

text \<open>A generator keeps its contract when \<^verbatim>\<open>random()\<close> lies in \<open>[0, 1)\<close> and
  \<^verbatim>\<open>_randbelow(m)\<close> in \<open>[0, m)\<close>.\<close>

definition rng_ok :: "'g rng \<Rightarrow> bool" where
  "rng_ok R \<longleftrightarrow>
     (\<forall>g. 0 \<le> fst (rand_float R g) \<and> fst (rand_float R g) < 1) \<and>
     (\<forall>g m. 0 < m \<longrightarrow> fst (rand_below R g m) < m)"

subsection \<open>A generator that replays fixed draws\<close>

text \<open>
  The state is two streams, of floats and of integers. A float outside \<open>[0, 1)\<close> is
  read as 0 and an integer is reduced modulo the bound, so the contract holds for every
  stream; an exhausted stream yields 0.
\<close>

type_synonym replay = "real list \<times> nat list"

definition replay_rng :: "replay rng" where
  "replay_rng =
     \<lparr>rand_float = (\<lambda>(us, ks). case us of [] \<Rightarrow> (0, ([], ks))
                   | u # us' \<Rightarrow> (if 0 \<le> u \<and> u < 1 then u else 0, (us', ks))),
      rand_below = (\<lambda>(us, ks) m. case ks of [] \<Rightarrow> (0, (us, []))
                   | k # ks' \<Rightarrow> (k mod m, (us, ks')))\<rparr>"

subsection \<open>Properties of the draws\<close>

lemma rng_okD_float:
  "rng_ok R \<Longrightarrow> rand_float R g = (u, g') \<Longrightarrow> 0 \<le> u \<and> u < 1"
  unfolding rng_ok_def by (metis fst_conv)

lemma rng_okD_below:
  "rng_ok R \<Longrightarrow> 0 < m \<Longrightarrow> rand_below R g m = (k, g') \<Longrightarrow> k < m"
  unfolding rng_ok_def by (metis fst_conv)

lemma replay_rng_ok: "rng_ok replay_rng"
  by (auto simp: rng_ok_def replay_rng_def split: list.splits prod.splits)

lemma replay_float_Cons [simp]:
  "rand_float replay_rng (u # us, ks) = (if 0 \<le> u \<and> u < 1 then u else 0, (us, ks))"
  by (simp add: replay_rng_def)

lemma replay_float_Nil [simp]: "rand_float replay_rng ([], ks) = (0, ([], ks))"
  by (simp add: replay_rng_def)

lemma replay_below_Nil [simp]: "rand_below replay_rng (us, []) m = (0, (us, []))"
  by (simp add: replay_rng_def)

lemma replay_below_Cons [simp]:
  "rand_below replay_rng (us, k # ks) m = (k mod m, (us, ks))"
  by (simp add: replay_rng_def)

text \<open>For a positive rate and a generator that keeps its contract, an exponential draw
  succeeds and is non-negative; for a negative rate it is non-positive.\<close>

lemma expovariate_ok:
  assumes "rng_ok R" and "lambd \<noteq> 0"
  shows "\<exists>x g'. expovariate R g lambd = Inr (x, g') \<and> (0 < lambd \<longrightarrow> 0 \<le> x)"
proof -
  obtain u g' where r: "rand_float R g = (u, g')" by fastforce
  with assms(1) have u: "0 \<le> u" "u < 1" by (auto dest: rng_okD_float)
  then have "ln (1 - u) \<le> 0" by simp
  then have "0 < lambd \<longrightarrow> 0 \<le> - ln (1 - u) / lambd" by (simp add: divide_nonpos_pos)
  with r u assms(2) show ?thesis by (auto simp: expovariate_def)
qed

lemma expovariate_nonneg:
  "expovariate R g lambd = Inr (x, g') \<Longrightarrow> rng_ok R \<Longrightarrow> 0 < lambd \<Longrightarrow> 0 \<le> x"
  using expovariate_ok [of R lambd g] by auto

lemma expovariate_zero_rate:
  "rng_ok R \<Longrightarrow> expovariate R g 0 = Inl ZeroDivisionError"
  by (auto simp: expovariate_def dest: rng_okD_float split: prod.splits)

lemma choice_Inr_mem:
  "choice R g xs = Inr (x, g') \<Longrightarrow> x \<in> set xs"
  by (auto simp: choice_def split: prod.splits if_splits)

lemma choice_ok:
  assumes "rng_ok R" and "xs \<noteq> []"
  shows "\<exists>x g'. choice R g xs = Inr (x, g')"
proof -
  obtain k g' where r: "rand_below R g (length xs) = (k, g')" by fastforce
  with assms have "k < length xs" by (auto dest: rng_okD_below)
  with r assms(2) show ?thesis by (simp add: choice_def)
qed

lemma uniform01_range:
  "rng_ok R \<Longrightarrow> uniform R g 0 1 = (u, g') \<Longrightarrow> 0 \<le> u \<and> u < 1"
  by (auto simp: uniform_def dest: rng_okD_float split: prod.splits)


text \<open>The replayed draw \<open>1 - e\<^sup>-\<^sup>1\<close> makes \<^verbatim>\<open>expovariate(1)\<close> return
  exactly 1; it exceeds a threshold of one half.\<close>

lemma exp_minus_one_lt_half: "exp (- 1) * 2 < (1::real)"
proof -
  have h: "3 / 2 \<le> exp (1 / 2 :: real)" using exp_ge_add_one_self [of "1/2::real"] by simp
  have "exp (1::real) = exp (1/2) * exp (1/2)" by (simp flip: exp_add)
  also have "\<dots> \<ge> 3/2 * (3/2)" using h by (intro mult_mono) auto
  finally have "2 < exp (1::real)" by simp
  then show ?thesis by (simp add: exp_minus field_simps)
qed

end
