(* ===== verification/Event_Queue.thy ===== *)
theory Event_Queue
  imports Prelude
begin

text \<open>
  The event clock of \<^verbatim>\<open>servers_simulation\<close> (\<^verbatim>\<open>src/sim.ipynb\<close>): the enum
  \<^verbatim>\<open>EventType\<close> with its \<^verbatim>\<open>__lt__\<close>, the event tuples
  \<^verbatim>\<open>(t, (e, c, i))\<close> and the \<^verbatim>\<open>queue.PriorityQueue\<close> that holds them.
  Python compares the tuples lexicographically, using \<^verbatim>\<open>__lt__\<close> on the kinds;
  the model is the lexicographic order of \<open>HOL-Library.Product_Lexorder\<close> over a
  \<open>linorder\<close> instance of the kind type. Since that order is total and equal keys are
  equal tuples, the observable behaviour of the heap is that of a sorted list: \<open>put\<close> is
  \<open>insort\<close> and \<open>get\<close> takes the head. The lemmas show that the queue refines the
  multiset specification of a priority queue (\<open>get\<close> removes the minimum), and that its
  order is a function of the pending events alone.
\<close>

section \<open>Event kinds\<close>

datatype event_type = ASIGNED | ARRIVAL | FINISH

text \<open>\<^verbatim>\<open>auto()\<close> numbers the members from 1 in declaration order.\<close>

primrec event_value :: "event_type \<Rightarrow> nat" where
  "event_value ASIGNED = 1"
| "event_value ARRIVAL = 2"
| "event_value FINISH = 3"

text \<open>\<^verbatim>\<open>__lt__(self, other) = self.value < other.value\<close>\<close>

definition event_lt :: "event_type \<Rightarrow> event_type \<Rightarrow> bool" where
  "event_lt x y \<longleftrightarrow> event_value x < event_value y"

text \<open>The order of the instance: \<open><\<close> is \<^verbatim>\<open>__lt__\<close>, and \<open>\<le>\<close> is \<^verbatim>\<open>__lt__\<close> or
  equality, the only other comparison a tuple comparison uses.\<close>

instantiation event_type :: linorder
begin

definition less_event_type :: "event_type \<Rightarrow> event_type \<Rightarrow> bool" where
  "less_event_type x y \<longleftrightarrow> event_lt x y"

definition less_eq_event_type :: "event_type \<Rightarrow> event_type \<Rightarrow> bool" where
  "less_eq_event_type x y \<longleftrightarrow> event_lt x y \<or> x = y"

instance
  proof
  fix x y :: event_type
  show "x \<le> y \<Longrightarrow> y \<le> x \<Longrightarrow> x = y"
    by (cases x; cases y) (simp_all add: less_eq_event_type_def event_lt_def)
  show "x \<le> y \<or> y \<le> x"
    by (cases x; cases y) (simp_all add: less_eq_event_type_def event_lt_def)
  show "x < y \<longleftrightarrow> x \<le> y \<and> \<not> y \<le> x"
    by (cases x; cases y) (simp_all add: less_event_type_def less_eq_event_type_def event_lt_def)
qed (auto simp: less_eq_event_type_def event_lt_def)

end

section \<open>Events\<close>

text \<open>\<^verbatim>\<open>(t, (e, c, i))\<close>: time, kind, client number, station number.\<close>

type_synonym event = "real \<times> event_type \<times> nat \<times> nat"

definition ev_time :: "event \<Rightarrow> real" where "ev_time ev = fst ev"
definition ev_kind :: "event \<Rightarrow> event_type" where "ev_kind ev = fst (snd ev)"
definition ev_client :: "event \<Rightarrow> nat" where "ev_client ev = fst (snd (snd ev))"
definition ev_station :: "event \<Rightarrow> nat" where "ev_station ev = snd (snd (snd ev))"

section \<open>The priority queue\<close>

type_synonym event_queue = "event list"

text \<open>\<^verbatim>\<open>events.put(x)\<close>, for entries of any ordered type (the tuples of
  \<^verbatim>\<open>src/sim.ipynb\<close>, the flat integer tuples of the regression notebook).\<close>

definition pq_put :: "'a::linorder \<Rightarrow> 'a list \<Rightarrow> 'a list" where
  "pq_put x es = insort x es"

text \<open>\<^verbatim>\<open>events.get()\<close>: the least event and the rest. On an empty queue
  \<^verbatim>\<open>get()\<close> blocks for ever; the model reports it as \<open>EmptyQueue\<close>.\<close>

definition pq_get :: "'a list \<Rightarrow> ('a \<times> 'a list) result" where
  "pq_get es = (case es of [] \<Rightarrow> Inl EmptyQueue | x # xs \<Rightarrow> Inr (x, xs))"

text \<open>\<^verbatim>\<open>events.empty()\<close>\<close>

definition pq_empty :: "'a list \<Rightarrow> bool" where
  "pq_empty es \<longleftrightarrow> es = []"

section \<open>Basic facts\<close>

lemma event_value_inj: "event_value x = event_value y \<longleftrightarrow> x = y"
  by (cases x; cases y) simp_all

lemma event_type_order [simp]:
  "ASIGNED < ARRIVAL" "ARRIVAL < FINISH" "ASIGNED < FINISH"
  by (simp_all add: less_event_type_def event_lt_def)

lemma event_type_le_iff [simp]:
  "(x :: event_type) \<le> y \<longleftrightarrow> event_value x \<le> event_value y"
  by (cases x; cases y) (simp_all add: less_eq_event_type_def event_lt_def)

lemma event_type_less_iff [simp]:
  "(x :: event_type) < y \<longleftrightarrow> event_value x < event_value y"
  by (simp add: less_event_type_def event_lt_def)

lemma ev_sel [simp]:
  "ev_time (t, e, c, i) = t" "ev_kind (t, e, c, i) = e"
  "ev_client (t, e, c, i) = c" "ev_station (t, e, c, i) = i"
  by (simp_all add: ev_time_def ev_kind_def ev_client_def ev_station_def)

lemma pq_get_Cons [simp]: "pq_get (x # xs) = Inr (x, xs)"
  by (simp add: pq_get_def)

lemma pq_get_Nil [simp]: "pq_get [] = Inl EmptyQueue"
  by (simp add: pq_get_def)

lemma pq_get_Inr_iff: "pq_get es = Inr (x, xs) \<longleftrightarrow> es = x # xs"
  by (cases es) auto

lemma mset_pq_put [simp]: "mset (pq_put x es) = add_mset x (mset es)"
  by (simp add: pq_put_def)

lemma set_pq_put [simp]: "set (pq_put x es) = insert x (set es)"
  by (simp add: pq_put_def set_insort_key)

lemma sorted_pq_put [simp]: "sorted (pq_put x es) = sorted es"
  by (simp add: pq_put_def sorted_insort)

lemma insort_least: "\<forall>e\<in>set xs. x \<le> e \<Longrightarrow> insort x xs = x # xs"
  by (cases xs) auto

lemma pq_put_not_empty [simp]: "pq_put x es \<noteq> []"
  by (simp add: pq_put_def)

text \<open>A sorted list is determined by its multiset: the queue's contents, hence every
  later \<open>get\<close>, do not depend on the order of the \<open>put\<close>s.\<close>

lemma sorted_mset_unique:
  "sorted xs \<Longrightarrow> sorted ys \<Longrightarrow> mset xs = mset ys \<Longrightarrow> xs = ys"
  by (metis properties_for_sort sorted_sort_id)

section \<open>Functional correctness against the multiset specification\<close>

theorem pq_put_refines:
  "sorted es \<Longrightarrow> sorted (pq_put x es) \<and> mset (pq_put x es) = add_mset x (mset es)"
  by simp

lemma pq_get_least:
  "sorted es \<Longrightarrow> pq_get es = Inr (x, xs) \<Longrightarrow> y \<in> set xs \<Longrightarrow> x \<le> y"
  by (auto simp: pq_get_Inr_iff)

lemma sorted_fold_pq_put:
  "sorted es \<Longrightarrow> sorted (fold pq_put evs es) \<and> mset (fold pq_put evs es) = mset evs + mset es"
  by (induction evs arbitrary: es) simp_all

text \<open>C10: events that fall due at the same time are dispatched by kind, the
  \<^verbatim>\<open>ASIGNED\<close> event first, then the \<^verbatim>\<open>ARRIVAL\<close>, then the \<^verbatim>\<open>FINISH\<close>, whatever
  their clients and stations and in whatever order they were put, and before every
  event due later.\<close>

theorem pq_dispatch_order:
  assumes "sorted es" and "\<forall>ev\<in>set es. t < ev_time ev"
    and "mset evs = {#(t, ASIGNED, c1, i1), (t, ARRIVAL, c2, i2), (t, FINISH, c3, i3)#}"
  shows "fold pq_put evs es = (t, ASIGNED, c1, i1) # (t, ARRIVAL, c2, i2) # (t, FINISH, c3, i3) # es"
proof (rule sorted_mset_unique)
  show "sorted (fold pq_put evs es)" using sorted_fold_pq_put [OF assms(1)] by simp
  have later: "\<forall>ev\<in>set es. (t, k, c, i) \<le> ev" for k c i
    using assms(2) by (auto simp: ev_time_def less_imp_le)
  show "sorted ((t, ASIGNED, c1, i1) # (t, ARRIVAL, c2, i2) # (t, FINISH, c3, i3) # es)"
    using assms(1) later by simp
  show "mset (fold pq_put evs es) =
        mset ((t, ASIGNED, c1, i1) # (t, ARRIVAL, c2, i2) # (t, FINISH, c3, i3) # es)"
    using sorted_fold_pq_put [OF assms(1)] assms(3) by simp
qed

end
