(* ===== verification/Simulation.thy ===== *)
theory Simulation
  imports Random_Source Event_Queue
begin

text \<open>
  \<^verbatim>\<open>servers_simulation\<close> of \<^verbatim>\<open>src/sim.ipynb\<close>: the discrete-event engine. Its
  arguments are the record \<open>sim_config\<close>; its local variables (\<^verbatim>\<open>t\<close>,
  \<^verbatim>\<open>events\<close>, \<^verbatim>\<open>n_a\<close>, \<^verbatim>\<open>n_d\<close>, the per-station lists \<^verbatim>\<open>a\<close>,
  \<^verbatim>\<open>q\<close>, \<^verbatim>\<open>d\<close> of timestamp dictionaries and the per-station FIFO lists
  \<^verbatim>\<open>queue\<close>) together with the state of Python's random generator are the
  record \<open>'g sim_state\<close>. Each branch of the \<^verbatim>\<open>if e == ...\<close> chain is one
  handler; \<open>sim_step\<close> is one iteration of the \<^verbatim>\<open>while\<close> loop and \<open>sim_loop\<close>
  the loop itself, with fuel: \<open>None\<close> means the fuel ran out while the loop guard still
  held. Every \<^verbatim>\<open>IndexError\<close>, \<^verbatim>\<open>ZeroDivisionError\<close> or \<^verbatim>\<open>ValueError\<close>
  the code can raise is an \<open>Inl\<close> result.
\<close>

section \<open>Parameters and state\<close>

text \<open>The arguments \<^verbatim>\<open>(time, n, lambda_arrival_time, mu_wait_time, p, finish)\<close>.\<close>

record sim_config =
  time :: real
  n_srv :: nat
  lambda_arrival_time :: real
  mu_wait_time :: "real list"
  p_back :: "real list"
  finish :: bool

record 'g sim_state =
  sim_t :: real
  events :: event_queue
  n_a :: nat
  n_d :: nat
  sim_a :: "trace list"
  sim_q :: "trace list"
  sim_d :: "trace list"
  queue :: "nat list list"
  gen :: 'g

text \<open>Initialisation, up to the first \<^verbatim>\<open>events.put\<close> of an arrival at station 0.\<close>

definition sim_init :: "'g rng \<Rightarrow> sim_config \<Rightarrow> 'g \<Rightarrow> 'g sim_state result" where
  "sim_init R cfg g =
     bindE (expovariate R g (lambda_arrival_time cfg)) (\<lambda>(x, g').
       Inr \<lparr>sim_t = 0, events = pq_put (0 + x, ASIGNED, 0, 0) [], n_a = 0, n_d = 0,
            sim_a = replicate (n_srv cfg) Map.empty, sim_q = replicate (n_srv cfg) Map.empty,
            sim_d = replicate (n_srv cfg) Map.empty, queue = replicate (n_srv cfg) [],
            gen = g'\<rparr>)"

section \<open>The three handlers\<close>

text \<open>
  \<^verbatim>\<open>ASIGNED\<close>: the client joins the FIFO of station \<open>i\<close>; a client arriving from
  outside (station 0) is numbered \<^verbatim>\<open>n_a\<close>, whatever \<open>c\<close> the event carries. If the
  FIFO was empty its service starts at once (an \<^verbatim>\<open>ARRIVAL\<close> at the same time). At
  station 0 the arrival counter grows and the next external arrival is scheduled if it
  falls before the horizon.
\<close>

definition handle_asigned ::
  "'g rng \<Rightarrow> sim_config \<Rightarrow> real \<Rightarrow> nat \<Rightarrow> nat \<Rightarrow> 'g sim_state \<Rightarrow> 'g sim_state result" where
  "handle_asigned R cfg t c i s =
     (let index = (if i \<noteq> 0 then c else n_a s) in
      bindE (py_modify (sim_q s) i (dict_append index t)) (\<lambda>q'.
      bindE (py_index (queue s) i) (\<lambda>qi.
      let es1 = (if length qi = 0 then pq_put (t, ARRIVAL, index, i) (events s) else events s);
          s1 = s\<lparr>sim_q := q', events := es1, queue := (queue s)[i := qi @ [index]]\<rparr>
      in if i = 0 then
           bindE (expovariate R (gen s1) (lambda_arrival_time cfg)) (\<lambda>(x, g').
             Inr (s1\<lparr>n_a := Suc (n_a s1), gen := g',
                     events := (if t + x < time cfg then pq_put (t + x, ASIGNED, 0, 0) es1
                                else es1)\<rparr>))
         else Inr s1)))"

text \<open>\<^verbatim>\<open>ARRIVAL\<close>: service of \<open>c\<close> starts at station \<open>i\<close>; its duration is drawn
  from the station's exponential distribution and its \<^verbatim>\<open>FINISH\<close> scheduled.\<close>

definition handle_arrival ::
  "'g rng \<Rightarrow> sim_config \<Rightarrow> real \<Rightarrow> nat \<Rightarrow> nat \<Rightarrow> 'g sim_state \<Rightarrow> 'g sim_state result" where
  "handle_arrival R cfg t c i s =
     bindE (py_modify (sim_a s) i (dict_append c t)) (\<lambda>a'.
     bindE (py_index (mu_wait_time cfg) i) (\<lambda>mu.
     bindE (expovariate R (gen s) mu) (\<lambda>(duration, g').
       Inr (s\<lparr>sim_a := a', gen := g',
               events := pq_put (t + duration, FINISH, c, i) (events s)\<rparr>))))"

text \<open>
  The routing rule of a client leaving station \<open>i\<close> (not the last one):
  \<^verbatim>\<open>i+1 if i == 0 or random.uniform(0,1) > p[i] else random.choice([j for j in range(i)])\<close>.
  The uniform draw is made before \<^verbatim>\<open>p[i]\<close> is read; \<^verbatim>\<open>choice\<close> draws only when
  the client goes back.
\<close>

definition next_server :: "'g rng \<Rightarrow> sim_config \<Rightarrow> nat \<Rightarrow> 'g \<Rightarrow> (nat \<times> 'g) result" where
  "next_server R cfg i g =
     (if i = 0 then Inr (i + 1, g)
      else let (u, g1) = uniform R g 0 1 in
           bindE (py_index (p_back cfg) i) (\<lambda>p_i.
             if u > p_i then Inr (i + 1, g1) else choice R g1 [0..<i]))"

text \<open>
  \<^verbatim>\<open>FINISH\<close>: the head of the FIFO of station \<open>i\<close> leaves it (the code does not
  check that it is \<open>c\<close>); the new head, if any, starts service at once. The departure
  time of \<open>c\<close> is recorded; at the last station (\<^verbatim>\<open>i == n-1\<close>, compared as Python
  integers) the departure counter grows and the client leaves, otherwise it is assigned to
  the station the routing rule picks, at the same time.
\<close>

definition handle_finish ::
  "'g rng \<Rightarrow> sim_config \<Rightarrow> real \<Rightarrow> nat \<Rightarrow> nat \<Rightarrow> 'g sim_state \<Rightarrow> 'g sim_state result" where
  "handle_finish R cfg t c i s =
     bindE (py_index (queue s) i) (\<lambda>qi0.
     let qi = (if 0 < length qi0 then tl qi0 else qi0);
         es1 = (if 0 < length qi then pq_put (t, ARRIVAL, hd qi, i) (events s) else events s)
     in bindE (py_modify (sim_d s) i (dict_append c t)) (\<lambda>d'.
        let s1 = s\<lparr>queue := (queue s)[i := qi], events := es1, sim_d := d'\<rparr> in
        if int i = int (n_srv cfg) - 1 then Inr (s1\<lparr>n_d := Suc (n_d s1)\<rparr>)
        else bindE (next_server R cfg i (gen s1)) (\<lambda>(j, g').
               Inr (s1\<lparr>gen := g', events := pq_put (t, ASIGNED, c, j) es1\<rparr>))))"

section \<open>The event loop\<close>

text \<open>\<^verbatim>\<open>(t, (e, c, i)) = events.get()\<close>, then the handler of \<open>e\<close>.\<close>

definition sim_step :: "'g rng \<Rightarrow> sim_config \<Rightarrow> 'g sim_state \<Rightarrow> 'g sim_state result" where
  "sim_step R cfg s =
     bindE (pq_get (events s)) (\<lambda>((t, e, c, i), es).
       let s1 = s\<lparr>sim_t := t, events := es\<rparr> in
       (case e of
          ASIGNED \<Rightarrow> handle_asigned R cfg t c i s1
        | ARRIVAL \<Rightarrow> handle_arrival R cfg t c i s1
        | FINISH \<Rightarrow> handle_finish R cfg t c i s1))"

text \<open>\<^verbatim>\<open>while((finish or t < time) and not events.empty())\<close>\<close>

definition loop_guard :: "sim_config \<Rightarrow> 'g sim_state \<Rightarrow> bool" where
  "loop_guard cfg s \<longleftrightarrow> (finish cfg \<or> sim_t s < time cfg) \<and> \<not> pq_empty (events s)"

fun sim_loop :: "'g rng \<Rightarrow> sim_config \<Rightarrow> nat \<Rightarrow> 'g sim_state \<Rightarrow> 'g sim_state result option" where
  "sim_loop R cfg 0 s = (if loop_guard cfg s then None else Some (Inr s))"
| "sim_loop R cfg (Suc k) s =
     (if loop_guard cfg s then
        (case sim_step R cfg s of Inl e \<Rightarrow> Some (Inl e) | Inr s' \<Rightarrow> sim_loop R cfg k s')
      else Some (Inr s))"

text \<open>The whole function, returning \<^verbatim>\<open>(t, n, n_a, n_d, q, a, d)\<close> and the final
  state of the generator.\<close>

definition run_servers :: "'g rng \<Rightarrow> sim_config \<Rightarrow> nat \<Rightarrow> 'g \<Rightarrow> 'g sim_state result option" where
  "run_servers R cfg k g =
     (case sim_init R cfg g of Inl e \<Rightarrow> Some (Inl e) | Inr s \<Rightarrow> sim_loop R cfg k s)"

type_synonym sim_output = "real \<times> nat \<times> nat \<times> nat \<times> trace list \<times> trace list \<times> trace list"

definition sim_output :: "sim_config \<Rightarrow> 'g sim_state \<Rightarrow> sim_output" where
  "sim_output cfg s = (sim_t s, n_srv cfg, n_a s, n_d s, sim_q s, sim_a s, sim_d s)"

definition servers_simulation ::
  "'g rng \<Rightarrow> sim_config \<Rightarrow> nat \<Rightarrow> 'g \<Rightarrow> (sim_output \<times> 'g) result option" where
  "servers_simulation R cfg k g =
     map_option (map_sum id (\<lambda>s. (sim_output cfg s, gen s))) (run_servers R cfg k g)"

text \<open>The equations that run the model on concrete inputs.\<close>

lemmas sim_eval_simps =
  servers_simulation_def run_servers_def sim_output_def sim_init_def sim_step_def loop_guard_def
  pq_empty_def handle_asigned_def handle_arrival_def handle_finish_def next_server_def
  pq_put_def expovariate_def uniform_def choice_def

section \<open>Generic facts about the loop\<close>

text \<open>Whatever every step keeps holds of the state the loop returns, and the loop
  returns only once its guard fails.\<close>

lemma sim_loop_invariant:
  assumes step: "\<And>s s'. P s \<Longrightarrow> loop_guard cfg s \<Longrightarrow> sim_step R cfg s = Inr s' \<Longrightarrow> P s'"
    and "P s" and "sim_loop R cfg k s = Some (Inr s')"
  shows "P s' \<and> \<not> loop_guard cfg s'"
  using assms(2,3)
proof (induction k arbitrary: s)
  case 0
  then show ?case by (simp split: if_splits)
next
  case (Suc k)
  show ?case
  proof (cases "loop_guard cfg s")
    case True
    with Suc.prems(2) obtain s1 where s1: "sim_step R cfg s = Inr s1"
      and rest: "sim_loop R cfg k s1 = Some (Inr s')"
      by (auto split: sum.splits)
    from step [OF Suc.prems(1) True s1] rest show ?thesis by (rule Suc.IH)
  next
    case False
    with Suc.prems show ?thesis by simp
  qed
qed

text \<open>If every step from a state of an invariant succeeds and keeps it, the loop never
  ends in an exception.\<close>

lemma sim_loop_no_error:
  assumes step: "\<And>s. P s \<Longrightarrow> loop_guard cfg s \<Longrightarrow> \<exists>s'. sim_step R cfg s = Inr s' \<and> P s'"
    and "P s"
  shows "sim_loop R cfg k s \<noteq> Some (Inl e)"
  using assms(2)
proof (induction k arbitrary: s)
  case 0
  then show ?case by simp
next
  case (Suc k)
  show ?case
  proof (cases "loop_guard cfg s")
    case True
    with step [OF Suc.prems] obtain s1 where "sim_step R cfg s = Inr s1" and "P s1" by blast
    with True Suc.IH show ?thesis by simp
  next
    case False
    then show ?thesis by simp
  qed
qed

text \<open>More fuel never changes a returned result.\<close>

lemma sim_loop_more_fuel:
  "sim_loop R cfg k s = Some r \<Longrightarrow> sim_loop R cfg (k + j) s = Some r"
proof (induction k arbitrary: s)
  case 0
  then show ?case by (cases j) (simp_all split: if_splits)
next
  case (Suc k)
  show ?case
  proof (cases "loop_guard cfg s")
    case True
    show ?thesis
    proof (cases "sim_step R cfg s")
      case (Inl e)
      with True Suc.prems show ?thesis by auto
    next
      case (Inr s1)
      with True Suc.prems Suc.IH [of s1] show ?thesis by simp
    qed
  next
    case False
    with Suc.prems show ?thesis by simp
  qed
qed

end
