(* ===== verification/Sim_Invariants.thy ===== *)
theory Sim_Invariants
  imports Simulation
begin

text \<open>
  The invariant of \<^verbatim>\<open>servers_simulation\<close>'s state and its preservation by each
  handler. Over the multiset \<open>M\<close> of pending events it states: the per-station lists
  have \<open>n\<close> entries; every pending event names a station below \<open>n\<close>; at every
  station the pending \<^verbatim>\<open>ARRIVAL\<close>/\<^verbatim>\<open>FINISH\<close> events are exactly one, for the
  head of the FIFO, when the FIFO is not empty, and none otherwise (one client in service,
  the head); for every station and client, the queue-entry list is as long as the
  departure list plus the client's places in the FIFO, and the service-start list as long
  as the departure list plus its pending \<^verbatim>\<open>FINISH\<close> events; and departures, clients
  waiting or in service and clients in transit between stations together never exceed
  the arrival counter.
\<close>

section \<open>Counting pending events\<close>

definition svc :: "event multiset \<Rightarrow> nat \<Rightarrow> nat multiset" where
  "svc M i = image_mset ev_client (filter_mset (\<lambda>e. ev_station e = i \<and> ev_kind e \<noteq> ASIGNED) M)"

definition fin_count :: "event multiset \<Rightarrow> nat \<Rightarrow> nat \<Rightarrow> nat" where
  "fin_count M i c =
     size (filter_mset (\<lambda>e. ev_kind e = FINISH \<and> ev_station e = i \<and> ev_client e = c) M)"

definition in_transit :: "event multiset \<Rightarrow> nat" where
  "in_transit M = size (filter_mset (\<lambda>e. ev_kind e = ASIGNED \<and> ev_station e \<noteq> 0) M)"

definition queued :: "nat list list \<Rightarrow> nat" where
  "queued qs = sum_list (map length qs)"

section \<open>The invariant\<close>

definition shape_ok :: "sim_config \<Rightarrow> 'g sim_state \<Rightarrow> bool" where
  "shape_ok cfg s \<longleftrightarrow>
     length (sim_q s) = n_srv cfg \<and> length (sim_a s) = n_srv cfg \<and>
     length (sim_d s) = n_srv cfg \<and> length (queue s) = n_srv cfg"

definition stations_ok :: "sim_config \<Rightarrow> event multiset \<Rightarrow> bool" where
  "stations_ok cfg M \<longleftrightarrow> (\<forall>e \<in># M. ev_station e < n_srv cfg)"

definition service_ok :: "sim_config \<Rightarrow> 'g sim_state \<Rightarrow> event multiset \<Rightarrow> bool" where
  "service_ok cfg s M \<longleftrightarrow> (\<forall>i < n_srv cfg. svc M i = mset (take 1 (queue s ! i)))"

definition trace_ok :: "sim_config \<Rightarrow> 'g sim_state \<Rightarrow> event multiset \<Rightarrow> bool" where
  "trace_ok cfg s M \<longleftrightarrow>
     (\<forall>i < n_srv cfg. \<forall>c.
        length (dict_get_list (sim_q s ! i) c) =
          length (dict_get_list (sim_d s ! i) c) + count_list (queue s ! i) c \<and>
        length (dict_get_list (sim_a s ! i) c) =
          length (dict_get_list (sim_d s ! i) c) + fin_count M i c)"

definition count_ok :: "'g sim_state \<Rightarrow> event multiset \<Rightarrow> bool" where
  "count_ok s M \<longleftrightarrow> n_d s + queued (queue s) + in_transit M \<le> n_a s"

definition inv_parts :: "sim_config \<Rightarrow> 'g sim_state \<Rightarrow> event multiset \<Rightarrow> bool" where
  "inv_parts cfg s M \<longleftrightarrow>
     shape_ok cfg s \<and> stations_ok cfg M \<and> service_ok cfg s M \<and> trace_ok cfg s M \<and> count_ok s M"

definition sim_inv :: "sim_config \<Rightarrow> 'g sim_state \<Rightarrow> bool" where
  "sim_inv cfg s \<longleftrightarrow> sorted (events s) \<and> inv_parts cfg s (mset (events s))"

text \<open>The checks the code relies on without making them: at least one station, positive
  rates, and one rate and one feedback probability per station.\<close>

definition cfg_ok :: "sim_config \<Rightarrow> bool" where
  "cfg_ok cfg \<longleftrightarrow>
     0 < n_srv cfg \<and> 0 < lambda_arrival_time cfg \<and>
     length (mu_wait_time cfg) = n_srv cfg \<and> length (p_back cfg) = n_srv cfg \<and>
     (\<forall>m \<in> set (mu_wait_time cfg). 0 < m)"

text \<open>Dispatch times never go back: no pending event is earlier than the clock.\<close>

definition clock_ok :: "'g sim_state \<Rightarrow> bool" where
  "clock_ok s \<longleftrightarrow> (\<forall>e \<in> set (events s). sim_t s \<le> ev_time e)"

text \<open>The states the loop passes through: the state after initialisation, and every
  state one iteration of the loop (taken while its guard holds) leads to.\<close>

inductive reachable :: "'g rng \<Rightarrow> sim_config \<Rightarrow> 'g \<Rightarrow> 'g sim_state \<Rightarrow> bool"
  for R cfg g where
  init: "sim_init R cfg g = Inr s \<Longrightarrow> reachable R cfg g s"
| step: "reachable R cfg g s \<Longrightarrow> loop_guard cfg s \<Longrightarrow> sim_step R cfg s = Inr s' \<Longrightarrow>
         reachable R cfg g s'"

lemmas inv_defs = inv_parts_def shape_ok_def stations_ok_def service_ok_def trace_ok_def count_ok_def

section \<open>Counting lemmas\<close>

lemma svc_add [simp]:
  "svc (add_mset (t, e, c, i) M) j =
     (if i = j \<and> e \<noteq> ASIGNED then add_mset c (svc M j) else svc M j)"
  by (simp add: svc_def)

lemma fin_count_add [simp]:
  "fin_count (add_mset (t, e, c, i) M) j c' =
     fin_count M j c' + (if e = FINISH \<and> i = j \<and> c = c' then 1 else 0)"
  by (simp add: fin_count_def)

lemma in_transit_add [simp]:
  "in_transit (add_mset (t, e, c, i) M) = in_transit M + (if e = ASIGNED \<and> i \<noteq> 0 then 1 else 0)"
  by (simp add: in_transit_def)

lemma queued_update:
  "i < length qs \<Longrightarrow> queued (qs[i := v]) + length (qs ! i) = queued qs + length v"
  unfolding queued_def by (rule sum_list_map_update)

lemma queued_replicate [simp]: "queued (replicate n []) = 0"
  by (simp add: queued_def)

section \<open>The handlers keep it\<close>

lemma handle_asigned_inv:
  assumes inv: "inv_parts cfg s (add_mset (t, ASIGNED, c, i) (mset (events s)))"
    and h: "handle_asigned R cfg t c i s = Inr s'"
  shows "inv_parts cfg s' (mset (events s'))"
proof -
  let ?idx = "if i \<noteq> 0 then c else n_a s"
  let ?qi = "queue s ! i"
  let ?es1 = "if ?qi = [] then pq_put (t, ARRIVAL, ?idx, i) (events s) else events s"
  let ?s1 = "s\<lparr>sim_q := (sim_q s)[i := dict_append ?idx t (sim_q s ! i)], events := ?es1,
               queue := (queue s)[i := ?qi @ [?idx]]\<rparr>"
  from inv have i: "i < n_srv cfg" by (simp add: inv_defs)
  from inv i have len: "length (sim_q s) = n_srv cfg" "length (queue s) = n_srv cfg"
    by (simp_all add: inv_defs)
  have q: "queued ((queue s)[i := ?qi @ [?idx]]) = Suc (queued (queue s))"
    using queued_update [of i "queue s" "?qi @ [?idx]"] i len by simp
  show ?thesis
  proof (cases "i = 0")
    case True
    obtain x g' where e: "expovariate R (gen s) (lambda_arrival_time cfg) = Inr (x, g')"
      using h True i len
      by (cases "expovariate R (gen s) (lambda_arrival_time cfg)")
         (auto simp: handle_asigned_def Let_def)
    with h True i len have
      s': "s' = ?s1\<lparr>n_a := Suc (n_a s), gen := g',
              events := (if t + x < time cfg then pq_put (t + x, ASIGNED, 0, 0) ?es1 else ?es1)\<rparr>"
      by (auto simp: handle_asigned_def Let_def)
    show ?thesis using inv i len q True
      unfolding s' by (auto simp: inv_defs nth_list_update take_one_eq split: list.splits)
  next
    case False
    with h i len have s': "s' = ?s1"
      by (auto simp: handle_asigned_def Let_def split: if_splits prod.splits)
    show ?thesis using inv i len q False
      unfolding s' by (auto simp: inv_defs nth_list_update take_one_eq split: list.splits)
  qed
qed

text \<open>A pending \<^verbatim>\<open>ARRIVAL\<close> or \<^verbatim>\<open>FINISH\<close> names the head of its station's FIFO,
  and it is the only such event of the station.\<close>

lemma service_head:
  assumes "service_ok cfg s (add_mset (t, e, c, i) M)" and "e \<noteq> ASIGNED" and "i < n_srv cfg"
  shows "\<exists>rest. queue s ! i = c # rest \<and> svc M i = {#}"
proof -
  from assms have "add_mset c (svc M i) = mset (take 1 (queue s ! i))"
    unfolding service_ok_def by (metis svc_add)
  then show ?thesis by (cases "queue s ! i") auto
qed

lemma handle_arrival_inv:
  assumes inv: "inv_parts cfg s (add_mset (t, ARRIVAL, c, i) (mset (events s)))"
    and h: "handle_arrival R cfg t c i s = Inr s'"
  shows "inv_parts cfg s' (mset (events s'))"
proof -
  from inv have i: "i < n_srv cfg" by (simp add: inv_defs)
  from inv i have len: "length (sim_a s) = n_srv cfg" by (simp add: inv_defs)
  from inv i obtain rest where hd: "queue s ! i = c # rest" and none: "svc (mset (events s)) i = {#}"
    using service_head [of cfg s t ARRIVAL c i] by (auto simp: inv_parts_def)
  from h i len obtain dur g' where
    s': "s' = s\<lparr>sim_a := (sim_a s)[i := dict_append c t (sim_a s ! i)], gen := g',
                events := pq_put (t + dur, FINISH, c, i) (events s)\<rparr>"
    by (auto simp: handle_arrival_def split: prod.splits)
  show ?thesis using inv i len hd none
    unfolding s' by (auto simp: inv_defs nth_list_update)
qed

lemma next_server_range:
  "next_server R cfg i g = Inr (j, g') \<Longrightarrow> j = Suc i \<or> j < i"
  by (auto simp: next_server_def choice_def split: prod.splits if_splits)

lemma handle_finish_inv:
  assumes inv: "inv_parts cfg s (add_mset (t, FINISH, c, i) (mset (events s)))"
    and h: "handle_finish R cfg t c i s = Inr s'"
  shows "inv_parts cfg s' (mset (events s'))"
proof -
  from inv have i: "i < n_srv cfg" by (simp add: inv_defs)
  from inv i have len: "length (sim_d s) = n_srv cfg" "length (queue s) = n_srv cfg"
    by (simp_all add: inv_defs)
  from inv i obtain rest where hd: "queue s ! i = c # rest" and none: "svc (mset (events s)) i = {#}"
    using service_head [of cfg s t FINISH c i] by (auto simp: inv_parts_def)
  let ?es1 = "if rest \<noteq> [] then pq_put (t, ARRIVAL, hd rest, i) (events s) else events s"
  let ?s1 = "s\<lparr>queue := (queue s)[i := rest], events := ?es1,
               sim_d := (sim_d s)[i := dict_append c t (sim_d s ! i)]\<rparr>"
  have q: "Suc (queued ((queue s)[i := rest])) = queued (queue s)"
    using queued_update [of i "queue s" rest] i len hd by simp
  show ?thesis
  proof (cases "int i = int (n_srv cfg) - 1")
    case True
    with h i len hd have s': "s' = ?s1\<lparr>n_d := Suc (n_d s)\<rparr>"
      by (auto simp: handle_finish_def Let_def)
    show ?thesis using inv i len hd none q
      unfolding s' by (auto simp: inv_defs nth_list_update take_one_eq split: list.splits)
  next
    case False
    obtain j g' where ns: "next_server R cfg i (gen s) = Inr (j, g')"
      using h False i len hd
      by (cases "next_server R cfg i (gen s)") (auto simp: handle_finish_def Let_def)
    with h False i len hd have s': "s' = ?s1\<lparr>gen := g', events := pq_put (t, ASIGNED, c, j) ?es1\<rparr>"
      by (auto simp: handle_finish_def Let_def)
    from ns have "j = Suc i \<or> j < i" by (rule next_server_range)
    with False i have j: "j < n_srv cfg" by auto
    show ?thesis using inv i len hd none q j
      unfolding s' by (auto simp: inv_defs nth_list_update take_one_eq split: list.splits)
  qed
qed

section \<open>One iteration of the loop\<close>

lemma handlers_sorted:
  assumes "sorted (events s)"
  shows "handle_asigned R cfg t c i s = Inr s' \<Longrightarrow> sorted (events s')"
    and "handle_arrival R cfg t c i s = Inr s' \<Longrightarrow> sorted (events s')"
    and "handle_finish R cfg t c i s = Inr s' \<Longrightarrow> sorted (events s')"
  using assms
  by (auto simp: handle_asigned_def handle_arrival_def handle_finish_def Let_def
           split: if_splits prod.splits)

lemma inv_parts_clock_events [simp]:
  "inv_parts cfg (s\<lparr>sim_t := t, events := es\<rparr>) M = inv_parts cfg s M"
  by (simp add: inv_defs)

lemma sim_step_cases:
  assumes "sim_step R cfg s = Inr s'"
  obtains t e c i es where "events s = (t, e, c, i) # es"
    and "(case e of
            ASIGNED \<Rightarrow> handle_asigned R cfg t c i (s\<lparr>sim_t := t, events := es\<rparr>)
          | ARRIVAL \<Rightarrow> handle_arrival R cfg t c i (s\<lparr>sim_t := t, events := es\<rparr>)
          | FINISH \<Rightarrow> handle_finish R cfg t c i (s\<lparr>sim_t := t, events := es\<rparr>)) = Inr s'"
  using assms by (auto simp: sim_step_def pq_get_def Let_def split: list.splits)

lemma sim_step_inv:
  assumes inv: "sim_inv cfg s" and st: "sim_step R cfg s = Inr s'"
  shows "sim_inv cfg s'"
proof -
  from st obtain t e c i es where ev: "events s = (t, e, c, i) # es"
    and h: "(case e of
            ASIGNED \<Rightarrow> handle_asigned R cfg t c i (s\<lparr>sim_t := t, events := es\<rparr>)
          | ARRIVAL \<Rightarrow> handle_arrival R cfg t c i (s\<lparr>sim_t := t, events := es\<rparr>)
          | FINISH \<Rightarrow> handle_finish R cfg t c i (s\<lparr>sim_t := t, events := es\<rparr>)) = Inr s'"
    by (rule sim_step_cases)
  let ?s1 = "s\<lparr>sim_t := t, events := es\<rparr>"
  from inv ev have srt: "sorted (events ?s1)" by (simp add: sim_inv_def)
  from inv ev have pre: "inv_parts cfg ?s1 (add_mset (t, e, c, i) (mset (events ?s1)))"
    by (simp add: sim_inv_def)
  show ?thesis
  proof (cases e)
    case ASIGNED
    with h have h': "handle_asigned R cfg t c i ?s1 = Inr s'" by simp
    show ?thesis
      using handle_asigned_inv [OF pre [unfolded ASIGNED] h'] handlers_sorted(1) [OF srt h'] by (simp add: sim_inv_def)
  next
    case ARRIVAL
    with h have h': "handle_arrival R cfg t c i ?s1 = Inr s'" by simp
    show ?thesis
      using handle_arrival_inv [OF pre [unfolded ARRIVAL] h'] handlers_sorted(2) [OF srt h'] by (simp add: sim_inv_def)
  next
    case FINISH
    with h have h': "handle_finish R cfg t c i ?s1 = Inr s'" by simp
    show ?thesis
      using handle_finish_inv [OF pre [unfolded FINISH] h'] handlers_sorted(3) [OF srt h'] by (simp add: sim_inv_def)
  qed
qed

section \<open>The whole run\<close>

lemma sim_init_inv:
  "0 < n_srv cfg \<Longrightarrow> sim_init R cfg g = Inr s \<Longrightarrow> sim_inv cfg s"
  by (auto simp: sim_init_def sim_inv_def inv_defs svc_def fin_count_def in_transit_def
           split: prod.splits)

lemma reachable_inv: "reachable R cfg g s \<Longrightarrow> 0 < n_srv cfg \<Longrightarrow> sim_inv cfg s"
proof (induction rule: reachable.induct)
  case (init s)
  from init.prems init.hyps show ?case by (rule sim_init_inv)
next
  case (step s s')
  then show ?case by (blast intro: sim_step_inv)
qed

lemma run_servers_reachable:
  assumes "run_servers R cfg k g = Some (Inr s)"
  shows "reachable R cfg g s \<and> \<not> loop_guard cfg s"
proof -
  from assms obtain s0 where init: "sim_init R cfg g = Inr s0"
    and loop: "sim_loop R cfg k s0 = Some (Inr s)"
    by (auto simp: run_servers_def split: sum.splits)
  from init have "reachable R cfg g s0" by (rule reachable.init)
  then show ?thesis using loop
    by (rule sim_loop_invariant [where P = "reachable R cfg g", rotated])
       (blast intro: reachable.step)
qed

lemma run_servers_inv:
  assumes "0 < n_srv cfg" and "run_servers R cfg k g = Some (Inr s)"
  shows "sim_inv cfg s \<and> \<not> loop_guard cfg s"
proof -
  from assms(2) have r: "reachable R cfg g s" and "\<not> loop_guard cfg s"
    by (simp_all add: run_servers_reachable)
  moreover from r assms(1) have "sim_inv cfg s" by (rule reachable_inv)
  ultimately show ?thesis by simp
qed

lemma servers_simulation_Inr:
  "servers_simulation R cfg k g = Some (Inr (out, g')) \<longleftrightarrow>
   (\<exists>s. run_servers R cfg k g = Some (Inr s) \<and> out = sim_output cfg s \<and> g' = gen s)"
proof (cases "run_servers R cfg k g")
  case (Some z)
  then show ?thesis by (cases z) (auto simp: servers_simulation_def)
qed (simp add: servers_simulation_def)

section \<open>Dispatch times\<close>

lemma event_le_time: "(x :: event) \<le> y \<Longrightarrow> ev_time x \<le> ev_time y"
  by (cases x; cases y) (auto simp: ev_time_def)

lemma later_pq_put [simp]:
  "(\<forall>e \<in> set (pq_put x es). t \<le> ev_time e) \<longleftrightarrow> t \<le> ev_time x \<and> (\<forall>e \<in> set es. t \<le> ev_time e)"
  by simp

lemma handlers_clock:
  assumes later: "\<forall>e \<in> set (events s). t \<le> ev_time e" and R: "rng_ok R"
    and ok: "cfg_ok cfg" and i: "i < n_srv cfg"
  shows "handle_asigned R cfg t c i s = Inr s' \<Longrightarrow>
           sim_t s' = sim_t s \<and> (\<forall>e \<in> set (events s'). t \<le> ev_time e)"
    and "handle_arrival R cfg t c i s = Inr s' \<Longrightarrow>
           sim_t s' = sim_t s \<and> (\<forall>e \<in> set (events s'). t \<le> ev_time e)"
    and "handle_finish R cfg t c i s = Inr s' \<Longrightarrow>
           sim_t s' = sim_t s \<and> (\<forall>e \<in> set (events s'). t \<le> ev_time e)"
proof -
  from ok have lam: "0 < lambda_arrival_time cfg" by (simp add: cfg_ok_def)
  from ok i have mu: "0 < mu_wait_time cfg ! i"
    unfolding cfg_ok_def by (metis nth_mem)
  show "handle_asigned R cfg t c i s = Inr s' \<Longrightarrow>
          sim_t s' = sim_t s \<and> (\<forall>e \<in> set (events s'). t \<le> ev_time e)"
  proof -
    assume h: "handle_asigned R cfg t c i s = Inr s'"
    show ?thesis
    proof (cases "i = 0")
      case True
      obtain x g' where e: "expovariate R (gen s) (lambda_arrival_time cfg) = Inr (x, g')"
        using h True
        by (cases "expovariate R (gen s) (lambda_arrival_time cfg)")
           (auto simp: handle_asigned_def Let_def split: if_splits)
      have "0 \<le> x" using expovariate_nonneg [OF e R lam] .
      with e h True show ?thesis
        by (auto simp: handle_asigned_def Let_def split: if_splits dest!: bspec [OF later])
    next
      case False
      with h later show ?thesis by (auto simp: handle_asigned_def Let_def split: if_splits)
    qed
  qed
  show "handle_arrival R cfg t c i s = Inr s' \<Longrightarrow>
          sim_t s' = sim_t s \<and> (\<forall>e \<in> set (events s'). t \<le> ev_time e)"
  proof -
    assume h: "handle_arrival R cfg t c i s = Inr s'"
    obtain x g' where e: "expovariate R (gen s) (mu_wait_time cfg ! i) = Inr (x, g')"
      using h by (cases "expovariate R (gen s) (mu_wait_time cfg ! i)") (auto simp: handle_arrival_def)
    have "0 \<le> x" using expovariate_nonneg [OF e R mu] .
    with e h later show ?thesis by (auto simp: handle_arrival_def)
  qed
  show "handle_finish R cfg t c i s = Inr s' \<Longrightarrow>
          sim_t s' = sim_t s \<and> (\<forall>e \<in> set (events s'). t \<le> ev_time e)"
    using later by (auto simp: handle_finish_def Let_def split: if_splits prod.splits)
qed

lemma sim_step_clock:
  assumes inv: "sim_inv cfg s" and clk: "clock_ok s" and R: "rng_ok R" and ok: "cfg_ok cfg"
    and st: "sim_step R cfg s = Inr s'"
  shows "clock_ok s' \<and> sim_t s \<le> sim_t s'"
proof -
  from st obtain t e c i es where ev: "events s = (t, e, c, i) # es"
    and h: "(case e of
            ASIGNED \<Rightarrow> handle_asigned R cfg t c i (s\<lparr>sim_t := t, events := es\<rparr>)
          | ARRIVAL \<Rightarrow> handle_arrival R cfg t c i (s\<lparr>sim_t := t, events := es\<rparr>)
          | FINISH \<Rightarrow> handle_finish R cfg t c i (s\<lparr>sim_t := t, events := es\<rparr>)) = Inr s'"
    by (rule sim_step_cases)
  from inv ev have i: "i < n_srv cfg" by (simp add: sim_inv_def inv_defs)
  from inv ev have "\<forall>x \<in> set es. (t, e, c, i) \<le> x" by (simp add: sim_inv_def)
  then have later: "\<forall>x \<in> set (events (s\<lparr>sim_t := t, events := es\<rparr>)). t \<le> ev_time x"
    using event_le_time by fastforce
  from clk ev have le: "sim_t s \<le> t" by (simp add: clock_ok_def)
  have "sim_t s' = t \<and> (\<forall>x \<in> set (events s'). t \<le> ev_time x)"
    using h handlers_clock [OF later R ok i] by (cases e) auto
  with le show ?thesis by (simp add: clock_ok_def)
qed

lemma sim_init_clock:
  "rng_ok R \<Longrightarrow> 0 < lambda_arrival_time cfg \<Longrightarrow> sim_init R cfg g = Inr s \<Longrightarrow> clock_ok s"
  by (auto simp: sim_init_def clock_ok_def split: prod.splits dest: expovariate_nonneg)

lemma reachable_clock:
  "reachable R cfg g s \<Longrightarrow> rng_ok R \<Longrightarrow> cfg_ok cfg \<Longrightarrow> clock_ok s"
proof (induction rule: reachable.induct)
  case (init s)
  then show ?case by (auto simp: cfg_ok_def intro: sim_init_clock)
next
  case (step s s')
  moreover have "sim_inv cfg s" using step.hyps(1) step.prems by (auto simp: cfg_ok_def intro: reachable_inv)
  ultimately show ?case using sim_step_clock by blast
qed

section \<open>Consequences of the invariant\<close>

lemma fin_count_le_svc: "fin_count M i c \<le> count (svc M i) c"
proof -
  have "fin_count M i c =
        size (filter_mset (\<lambda>e. ev_client e = c)
          (filter_mset (\<lambda>e. ev_kind e = FINISH \<and> ev_station e = i) M))"
    by (simp add: fin_count_def filter_filter_mset conj_commute conj_left_commute)
  also have "\<dots> \<le> size (filter_mset (\<lambda>e. ev_client e = c)
          (filter_mset (\<lambda>e. ev_station e = i \<and> ev_kind e \<noteq> ASIGNED) M))"
    by (intro size_mset_mono multiset_filter_mono filter_mset_mono_strong) auto
  also have "\<dots> = count (svc M i) c"
    by (simp add: svc_def count_image_mset_size_filter)
  finally show ?thesis .
qed

lemma count_take_le: "count (mset (take k xs)) c \<le> count_list xs c"
  by (metis append_take_drop_id count_list_append count_mset le_add1)

lemma sim_inv_trace_lengths:
  assumes "sim_inv cfg s" and "i < n_srv cfg"
  shows "length (dict_get_list (sim_d s ! i) c) \<le> length (dict_get_list (sim_a s ! i) c) \<and>
         length (dict_get_list (sim_a s ! i) c) \<le> length (dict_get_list (sim_q s ! i) c)"
proof -
  let ?M = "mset (events s)"
  from assms have eqs:
    "length (dict_get_list (sim_q s ! i) c) =
       length (dict_get_list (sim_d s ! i) c) + count_list (queue s ! i) c"
    "length (dict_get_list (sim_a s ! i) c) =
       length (dict_get_list (sim_d s ! i) c) + fin_count ?M i c"
    and svc: "svc ?M i = mset (take 1 (queue s ! i))"
    by (simp_all add: sim_inv_def inv_defs)
  have "fin_count ?M i c \<le> count_list (queue s ! i) c"
    using fin_count_le_svc [of ?M i c] count_take_le [of 1 "queue s ! i" c] svc by simp
  with eqs show ?thesis by simp
qed

lemma sim_inv_counts: "sim_inv cfg s \<Longrightarrow> n_d s \<le> n_a s"
  by (simp add: sim_inv_def inv_defs)

text \<open>Once the event queue is empty every FIFO is empty, so every recorded queue entry
  has its service start and its departure.\<close>

lemma sim_inv_drained:
  assumes "sim_inv cfg s" and "events s = []" and "i < n_srv cfg"
  shows "queue s ! i = [] \<and>
         length (dict_get_list (sim_q s ! i) c) = length (dict_get_list (sim_d s ! i) c) \<and>
         length (dict_get_list (sim_a s ! i) c) = length (dict_get_list (sim_d s ! i) c)"
proof -
  from assms have "mset (take 1 (queue s ! i)) = {#}"
    by (simp add: sim_inv_def inv_defs svc_def)
  then have q: "queue s ! i = []" by (cases "queue s ! i") auto
  with assms show ?thesis by (simp add: sim_inv_def inv_defs fin_count_def)
qed

section \<open>No exception on a valid configuration\<close>

lemma next_server_ok:
  assumes "rng_ok R" and "i < length (p_back cfg)"
  shows "\<exists>j g'. next_server R cfg i g = Inr (j, g')"
proof (cases "i = 0")
  case True
  then show ?thesis by (simp add: next_server_def)
next
  case False
  obtain u g1 where u: "uniform R g 0 1 = (u, g1)" by fastforce
  from assms(1) False obtain j g' where "choice R g1 [0..<i] = Inr (j, g')"
    using choice_ok [of R "[0..<i]" g1] by auto
  with u False assms(2) show ?thesis by (auto simp: next_server_def)
qed

lemma sim_step_progress:
  assumes inv: "sim_inv cfg s" and ok: "cfg_ok cfg" and R: "rng_ok R" and ne: "events s \<noteq> []"
  shows "\<exists>s'. sim_step R cfg s = Inr s'"
proof -
  obtain t e c i es where ev: "events s = (t, e, c, i) # es"
    using ne by (cases "events s") auto
  from inv ev have i: "i < n_srv cfg" by (simp add: sim_inv_def inv_defs)
  from inv have len: "length (sim_q s) = n_srv cfg" "length (sim_a s) = n_srv cfg"
    "length (sim_d s) = n_srv cfg" "length (queue s) = n_srv cfg"
    by (simp_all add: sim_inv_def inv_defs)
  from ok i have mu1: "i < length (mu_wait_time cfg)"
    and p: "i < length (p_back cfg)" and lam: "lambda_arrival_time cfg \<noteq> 0"
    by (auto simp: cfg_ok_def)
  from ok mu1 have "0 < mu_wait_time cfg ! i"
    unfolding cfg_ok_def using nth_mem by blast
  with mu1 have mu: "i < length (mu_wait_time cfg)" "mu_wait_time cfg ! i \<noteq> 0" by simp_all
  show ?thesis
  proof (cases e)
    case ASIGNED
    obtain x g' where "expovariate R (gen s) (lambda_arrival_time cfg) = Inr (x, g')"
      using expovariate_ok [OF R lam] by blast
    with ASIGNED ev i len show ?thesis
      by (simp add: sim_step_def handle_asigned_def Let_def)
  next
    case ARRIVAL
    obtain x g' where "expovariate R (gen s) (mu_wait_time cfg ! i) = Inr (x, g')"
      using expovariate_ok [OF R mu(2)] by blast
    with ARRIVAL ev i len mu(1) show ?thesis
      by (simp add: sim_step_def handle_arrival_def Let_def)
  next
    case FINISH
    obtain j g' where "next_server R cfg i (gen s) = Inr (j, g')"
      using next_server_ok [OF R p] by blast
    with FINISH ev i len show ?thesis
      by (simp add: sim_step_def handle_finish_def Let_def)
  qed
qed

lemma run_servers_no_error:
  assumes R: "rng_ok (R :: 'g rng)" and ok: "cfg_ok cfg"
  shows "run_servers R cfg k g \<noteq> Some (Inl e)"
proof -
  from ok have lam: "lambda_arrival_time cfg \<noteq> 0" and n: "0 < n_srv cfg"
    by (auto simp: cfg_ok_def)
  obtain x g' where "expovariate R g (lambda_arrival_time cfg) = Inr (x, g')"
    using expovariate_ok [OF R lam] by blast
  then obtain s0 where init: "sim_init R cfg g = Inr s0" by (simp add: sim_init_def)
  from n init have "sim_inv cfg s0" by (rule sim_init_inv)
  then have "sim_loop R cfg k s0 \<noteq> Some (Inl e)"
  proof (rule sim_loop_no_error [where P = "sim_inv cfg", rotated])
    fix s :: "'g sim_state"
    assume "sim_inv cfg s" and "loop_guard cfg s"
    then show "\<exists>s'. sim_step R cfg s = Inr s' \<and> sim_inv cfg s'"
      using sim_step_progress [OF _ ok R] sim_step_inv
      by (metis loop_guard_def pq_empty_def)
  qed
  with init show ?thesis by (simp add: run_servers_def)
qed

section \<open>Properties of the simulator\<close>

text \<open>C1: in every trace the simulator returns, for every station and client, the
  departure list is no longer than the service-start list, which is no longer than the
  queue-entry list.\<close>

theorem servers_simulation_trace_lengths:
  assumes "0 < n_srv cfg"
    and "servers_simulation R cfg k g = Some (Inr ((t, n, na, nd, q, a, d), g'))"
    and "i < n"
  shows "length (dict_get_list (d ! i) c) \<le> length (dict_get_list (a ! i) c) \<and>
         length (dict_get_list (a ! i) c) \<le> length (dict_get_list (q ! i) c)"
proof -
  from assms(2) obtain s where r: "run_servers R cfg k g = Some (Inr s)"
    and out: "(t, n, na, nd, q, a, d) = sim_output cfg s"
    by (auto simp: servers_simulation_Inr)
  from assms(1) r have "sim_inv cfg s" by (simp add: run_servers_inv)
  with out assms(3) show ?thesis
    by (auto simp: sim_output_def dest: sim_inv_trace_lengths)
qed

text \<open>C2: on a valid configuration (at least one station, positive rates, one rate and
  one feedback probability per station) and a well-behaved generator, the simulator
  never raises an exception, whatever the fuel.\<close>

theorem servers_simulation_no_error:
  assumes "rng_ok R" and "cfg_ok cfg"
  shows "servers_simulation R cfg k g \<noteq> Some (Inl e)"
proof
  assume "servers_simulation R cfg k g = Some (Inl e)"
  then obtain z where r: "run_servers R cfg k g = Some z"
    and z: "map_sum id (\<lambda>s. (sim_output cfg s, gen s)) z = Inl e"
    by (auto simp: servers_simulation_def)
  from r z have "run_servers R cfg k g = Some (Inl e)" by (cases z) auto
  with run_servers_no_error [OF assms] show False by blast
qed

text \<open>C3: the number of departures the simulator returns never exceeds the number of
  arrivals.\<close>

theorem servers_simulation_departures_le_arrivals:
  assumes "0 < n_srv cfg"
    and "servers_simulation R cfg k g = Some (Inr ((t, n, na, nd, q, a, d), g'))"
  shows "nd \<le> na"
proof -
  from assms(2) obtain s where r: "run_servers R cfg k g = Some (Inr s)"
    and out: "(t, n, na, nd, q, a, d) = sim_output cfg s"
    by (auto simp: servers_simulation_Inr)
  from assms(1) r have "sim_inv cfg s" by (simp add: run_servers_inv)
  with out show ?thesis by (auto simp: sim_output_def dest: sim_inv_counts)
qed

text \<open>C4: in drain-to-completion mode (\<^verbatim>\<open>finish=True\<close>) every visit the
  returned trace records is complete: for every station and client the queue-entry,
  service-start and departure lists have the same length.\<close>

theorem servers_simulation_drained:
  assumes "finish cfg" and "0 < n_srv cfg"
    and "servers_simulation R cfg k g = Some (Inr ((t, n, na, nd, q, a, d), g'))"
    and "i < n"
  shows "length (dict_get_list (q ! i) c) = length (dict_get_list (d ! i) c) \<and>
         length (dict_get_list (a ! i) c) = length (dict_get_list (d ! i) c)"
proof -
  from assms(3) obtain s where r: "run_servers R cfg k g = Some (Inr s)"
    and out: "(t, n, na, nd, q, a, d) = sim_output cfg s"
    by (auto simp: servers_simulation_Inr)
  from assms(2) r have inv: "sim_inv cfg s" and "\<not> loop_guard cfg s"
    by (simp_all add: run_servers_inv)
  with assms(1) have "events s = []" by (simp add: loop_guard_def pq_empty_def)
  with inv out assms(4) show ?thesis
    by (auto simp: sim_output_def dest: sim_inv_drained)
qed

text \<open>C5: in every state the loop reaches, each station has at most one pending
  \<^verbatim>\<open>ARRIVAL\<close> or \<^verbatim>\<open>FINISH\<close> event, and such an event is for the client at
  the head of the station's FIFO: one client in service per station, served in order.\<close>

theorem reachable_single_service:
  assumes "reachable R cfg g s" and "0 < n_srv cfg" and "i < n_srv cfg"
  shows "size (filter_mset (\<lambda>e. ev_station e = i \<and> ev_kind e \<noteq> ASIGNED) (mset (events s))) \<le> 1 \<and>
         (\<forall>e \<in> set (events s). ev_station e = i \<and> ev_kind e \<noteq> ASIGNED \<longrightarrow>
             queue s ! i \<noteq> [] \<and> ev_client e = hd (queue s ! i))"
proof -
  from assms(1,2) have "sim_inv cfg s" by (rule reachable_inv)
  with assms(3) have svc: "svc (mset (events s)) i = mset (take 1 (queue s ! i))"
    by (simp add: sim_inv_def inv_defs)
  then have "size (svc (mset (events s)) i) \<le> 1" by simp
  then have size: "size (filter_mset (\<lambda>e. ev_station e = i \<and> ev_kind e \<noteq> ASIGNED) (mset (events s))) \<le> 1"
    by (simp add: svc_def)
  have head: "queue s ! i \<noteq> [] \<and> ev_client e = hd (queue s ! i)"
    if "e \<in> set (events s)" "ev_station e = i" "ev_kind e \<noteq> ASIGNED" for e
  proof -
    from that have "ev_client e \<in># svc (mset (events s)) i" by (auto simp: svc_def)
    with svc have "ev_client e \<in> set (take 1 (queue s ! i))" by simp
    then show ?thesis by (cases "queue s ! i") auto
  qed
  from size head show ?thesis by blast
qed

text \<open>C6: with a valid configuration and a well-behaved generator, the clock never goes
  back: from every reachable state one iteration leads to a state whose clock is no
  earlier, and no pending event is earlier than the clock.\<close>

theorem reachable_clock_monotone:
  assumes "reachable R cfg g s" and "rng_ok R" and "cfg_ok cfg"
    and "sim_step R cfg s = Inr s'"
  shows "sim_t s \<le> sim_t s' \<and> (\<forall>e \<in> set (events s'). sim_t s' \<le> ev_time e)"
proof -
  from assms(1,3) have "sim_inv cfg s" by (auto simp: cfg_ok_def intro: reachable_inv)
  moreover from assms(1-3) have "clock_ok s" by (rule reachable_clock)
  ultimately have "clock_ok s' \<and> sim_t s \<le> sim_t s'"
    using assms(2-4) by (rule sim_step_clock)
  then show ?thesis by (simp add: clock_ok_def)
qed

text \<open>C7: the routing rule sends a client leaving station 0 to station 1 without a
  random draw; from any other station it sends the client one station forward exactly
  when the uniform draw exceeds the station's feedback probability, and otherwise to a
  station strictly before it, never to itself.\<close>

theorem next_server_destination:
  assumes "next_server R cfg i g = Inr (j, g')"
  shows "(i = 0 \<longrightarrow> j = 1 \<and> g' = g) \<and>
         (0 < i \<longrightarrow> (if p_back cfg ! i < fst (uniform R g 0 1) then j = Suc i else j < i))"
  using assms
  by (auto simp: next_server_def choice_def split: prod.splits if_splits)

text \<open>C8: with no stations the first external arrival raises \<open>IndexError\<close> as soon as
  the loop runs (the code does not reject \<open>n = 0\<close> up front).\<close>

theorem servers_simulation_no_station:
  assumes "n_srv cfg = 0" and "rng_ok R" and "lambda_arrival_time cfg \<noteq> 0"
    and "finish cfg \<or> 0 < time cfg"
  shows "servers_simulation R cfg (Suc k) g = Some (Inl IndexError)"
proof -
  obtain x g1 where e: "expovariate R g (lambda_arrival_time cfg) = Inr (x, g1)"
    using expovariate_ok [OF assms(2,3)] by blast
  with assms(1,4) show ?thesis
    by (simp add: servers_simulation_def run_servers_def sim_init_def loop_guard_def
                  pq_empty_def sim_step_def handle_asigned_def pq_put_def)
qed

text \<open>C9: with a horizon of 0 and \<^verbatim>\<open>finish=False\<close> the loop never runs: the simulator
  returns clock 0, no arrivals, no departures and empty traces, for any fuel.\<close>

theorem servers_simulation_zero_horizon:
  assumes "\<not> finish cfg" and "time cfg \<le> 0" and "rng_ok R"
    and "lambda_arrival_time cfg \<noteq> 0"
  shows "\<exists>g'. servers_simulation R cfg k g =
           Some (Inr ((0, n_srv cfg, 0, 0, replicate (n_srv cfg) Map.empty,
                       replicate (n_srv cfg) Map.empty, replicate (n_srv cfg) Map.empty), g'))"
proof -
  obtain x g1 where e: "expovariate R g (lambda_arrival_time cfg) = Inr (x, g1)"
    using expovariate_ok [OF assms(3,4)] by blast
  with assms(1,2) show ?thesis
    by (cases k) (simp_all add: servers_simulation_def run_servers_def sim_init_def
                                loop_guard_def sim_output_def)
qed

end
