(* ===== verification/Metrics.thy ===== *)
theory Metrics
  imports Sim_Invariants
begin

text \<open>
  The metrics reducer of \<^verbatim>\<open>src/sim.ipynb\<close>: the class \<^verbatim>\<open>Metrics\<close> and
  \<^verbatim>\<open>metrics_by_simulation\<close>, which runs \<^verbatim>\<open>servers_simulation\<close> once and reduces
  its trace to per-station mean waiting and service times and per-client system times.
  numpy's \<^verbatim>\<open>np.mean\<close> returns \<^verbatim>\<open>nan\<close> on an empty list and propagates it; a
  float that may be \<^verbatim>\<open>nan\<close> is a \<open>real option\<close> (\<open>None\<close> for \<^verbatim>\<open>nan\<close>).
  The two nested \<^verbatim>\<open>for\<close> loops are folds over \<open>[0..<n]\<close> and \<open>[0..<n_a]\<close>; the
  body of the inner loop, with its three \<^verbatim>\<open>continue\<close>s, is \<open>client_update\<close>.
\<close>

section \<open>numpy reductions\<close>

text \<open>\<^verbatim>\<open>np.mean\<close> of a list of numbers.\<close>

definition np_mean :: "real list \<Rightarrow> real option" where
  "np_mean xs = (if xs = [] then None else Some (sum_list xs / real (length xs)))"

text \<open>\<^verbatim>\<open>np.mean\<close> of a list whose entries may be \<^verbatim>\<open>nan\<close>.\<close>

definition np_mean_nan :: "real option list \<Rightarrow> real option" where
  "np_mean_nan xs = (if None \<in> set xs then None else np_mean (map the xs))"

section \<open>The record and the reducer\<close>

record metrics =
  m_time :: real
  m_n_d :: nat
  wait_time :: "real option list"
  use_time :: "real option list"
  system_time :: "real list"

text \<open>The state of the inner loop: the per-client lists of the current station, the
  \<^verbatim>\<open>system_time\<close> list and the \<^verbatim>\<open>on_queue\<close> counters. (\<^verbatim>\<open>processing\<close> is
  never changed: its only update, \<^verbatim>\<open>processing[s] + 1\<close>, discards its value.)\<close>

record reducer =
  wait_pc :: "real list"
  use_pc :: "real list"
  sys_acc :: "real list"
  on_queue :: "nat list"

text \<open>\<^verbatim>\<open>sum(a - q for q, a in zip(q_t, a_t)) / len(a_t)\<close> and its counterpart for
  service times.\<close>

definition mean_wait :: "real list \<Rightarrow> real list \<Rightarrow> real" where
  "mean_wait q_t a_t = sum_list (map2 (\<lambda>q a. a - q) q_t a_t) / real (length a_t)"

definition mean_use :: "real list \<Rightarrow> real list \<Rightarrow> real" where
  "mean_use a_t d_t = sum_list (map2 (\<lambda>a d. d - a) a_t d_t) / real (length a_t)"

text \<open>One iteration of \<^verbatim>\<open>for c in range(n_a)\<close> at station \<open>s\<close>.\<close>

definition client_update ::
  "sim_output \<Rightarrow> nat \<Rightarrow> nat \<Rightarrow> reducer \<Rightarrow> reducer" where
  "client_update out s c st =
     (case out of (t, n, na, nd, q, a, d) \<Rightarrow>
      let q_t = dict_get_list (q ! s) c; a_t = dict_get_list (a ! s) c;
          d_t = dict_get_list (d ! s) c
      in if length q_t = 0 then st
      else if length a_t = 0 then
        st\<lparr>wait_pc := wait_pc st @ [t - hd q_t],
           on_queue := (on_queue st)[s := on_queue st ! s + 1]\<rparr>
      else if length d_t = 0 then
        st\<lparr>wait_pc := wait_pc st @ [mean_wait q_t a_t]\<rparr>
      else
        let st1 = st\<lparr>wait_pc := wait_pc st @ [mean_wait q_t a_t],
                     use_pc := use_pc st @ [mean_use a_t d_t]\<rparr>;
            st2 = (if s = 0 \<and> c < nd
                   then st1\<lparr>sys_acc := (sys_acc st1)[c := sys_acc st1 ! c - hd q_t]\<rparr> else st1)
        in if int s = int n - 1 \<and> c < nd
           then st2\<lparr>sys_acc := (sys_acc st2)[c := sys_acc st2 ! c + last d_t]\<rparr> else st2)"

text \<open>One iteration of \<^verbatim>\<open>for s in range(n)\<close>: the inner loop from empty per-client
  lists, then the two \<^verbatim>\<open>np.mean\<close>s appended.\<close>

definition station_update ::
  "sim_output \<Rightarrow> nat \<Rightarrow> real option list \<times> real option list \<times> real list \<times> nat list \<Rightarrow>
   real option list \<times> real option list \<times> real list \<times> nat list" where
  "station_update out s acc =
     (case acc of (wt, ut, sys, oq) \<Rightarrow>
      let st = fold (client_update out s) [0..<fst (snd (snd out))]
                 \<lparr>wait_pc = [], use_pc = [], sys_acc = sys, on_queue = oq\<rparr>
      in (wt @ [np_mean (wait_pc st)], ut @ [np_mean (use_pc st)], sys_acc st, on_queue st))"

text \<open>The reduction of one run's output \<^verbatim>\<open>(t, n, n_a, n_d, q, a, d)\<close>.\<close>

definition metrics_of_output :: "sim_output \<Rightarrow> metrics" where
  "metrics_of_output out =
     (case out of (t, n, na, nd, q, a, d) \<Rightarrow>
      let (wt, ut, sys, oq) = fold (station_update out) [0..<n]
                                ([], [], replicate na 0, replicate n 0)
      in \<lparr>m_time = t, m_n_d = nd, wait_time = wt, use_time = ut, system_time = sys\<rparr>)"

definition metrics_by_simulation ::
  "'g rng \<Rightarrow> sim_config \<Rightarrow> nat \<Rightarrow> 'g \<Rightarrow> (metrics \<times> 'g) result option" where
  "metrics_by_simulation R cfg k g =
     map_option (map_sum id (\<lambda>(out, g'). (metrics_of_output out, g')))
       (servers_simulation R cfg k g)"

section \<open>What the reduction computes\<close>

text \<open>Client \<open>c\<close> has a queue entry, a service start and a departure recorded at
  station \<open>s\<close>: the case of the inner loop that reaches the \<^verbatim>\<open>system_time\<close>
  updates.\<close>

definition served :: "trace list \<Rightarrow> trace list \<Rightarrow> trace list \<Rightarrow> nat \<Rightarrow> nat \<Rightarrow> bool" where
  "served q a d s c = (dict_get_list (q ! s) c \<noteq> [] \<and> dict_get_list (a ! s) c \<noteq> [] \<and>
                       dict_get_list (d ! s) c \<noteq> [])"

text \<open>What the iteration of client \<open>c\<close> at station \<open>s\<close> adds to \<^verbatim>\<open>system_time[c]\<close>.\<close>

definition sys_delta :: "sim_output \<Rightarrow> nat \<Rightarrow> nat \<Rightarrow> real" where
  "sys_delta out s c =
     (case out of (t, n, na, nd, q, a, d) \<Rightarrow>
      if c < nd \<and> served q a d s c
      then (if s = 0 then - hd (dict_get_list (q ! s) c) else 0) +
           (if int s = int n - 1 then last (dict_get_list (d ! s) c) else 0)
      else 0)"

section \<open>Shape of the reduction\<close>

lemma client_update_lengths:
  "length (sys_acc (client_update out s c st)) = length (sys_acc st) \<and>
   length (on_queue (client_update out s c st)) = length (on_queue st)"
  by (auto simp: client_update_def Let_def split: prod.splits)

lemma fold_client_update_lengths:
  "length (sys_acc (fold (client_update out s) cs st)) = length (sys_acc st) \<and>
   length (on_queue (fold (client_update out s) cs st)) = length (on_queue st)"
  by (induction cs arbitrary: st) (simp_all add: client_update_lengths)

lemma fold_station_update_lengths:
  "fold (station_update out) ss (wt, ut, sys, oq) = (wt', ut', sys', oq') \<Longrightarrow>
   length wt' = length wt + length ss \<and> length ut' = length ut + length ss \<and>
   length sys' = length sys \<and> length oq' = length oq"
proof (induction ss arbitrary: wt ut sys oq)
  case Nil
  then show ?case by simp
next
  case (Cons s ss)
  then show ?case
    by (auto simp: station_update_def Let_def fold_client_update_lengths)
qed

lemma client_update_sys_acc:
  "sys_acc (client_update out s c st) = (sys_acc st)[c := sys_acc st ! c + sys_delta out s c]"
proof (cases "c < length (sys_acc st)")
  case True
  then show ?thesis
    by (auto simp: client_update_def sys_delta_def served_def Let_def algebra_simps
             split: prod.splits)
next
  case False
  then show ?thesis
    by (auto simp: client_update_def Let_def list_update_beyond not_less split: prod.splits)
qed

lemma fold_client_update_sys_acc:
  "distinct cs \<Longrightarrow> c < length (sys_acc st) \<Longrightarrow>
   sys_acc (fold (client_update out s) cs st) ! c =
     sys_acc st ! c + (if c \<in> set cs then sys_delta out s c else 0)"
proof (induction cs arbitrary: st)
  case Nil
  then show ?case by simp
next
  case (Cons c' cs)
  have "c < length (sys_acc (client_update out s c' st))"
    using Cons.prems by (simp add: client_update_sys_acc)
  with Cons show ?case by (auto simp: client_update_sys_acc nth_list_update_if)
qed

lemma fold_station_update_sys:
  "fold (station_update out) ss (wt, ut, sys, oq) = (wt', ut', sys', oq') \<Longrightarrow>
   c < length sys \<Longrightarrow> c < fst (snd (snd out)) \<Longrightarrow>
   sys' ! c = sys ! c + sum_list (map (\<lambda>s. sys_delta out s c) ss)"
proof (induction ss arbitrary: wt ut sys oq)
  case Nil
  then show ?case by simp
next
  case (Cons s ss)
  let ?st = "fold (client_update out s) [0..<fst (snd (snd out))]
               \<lparr>wait_pc = [], use_pc = [], sys_acc = sys, on_queue = oq\<rparr>"
  have len: "c < length (sys_acc ?st)"
    using Cons.prems by (simp add: fold_client_update_lengths)
  have "sys' ! c = sys_acc ?st ! c + sum_list (map (\<lambda>s. sys_delta out s c) ss)"
    using Cons.IH [of _ _ "sys_acc ?st"] Cons.prems len
    by (simp add: station_update_def Let_def)
  then show ?case
    using Cons.prems by (simp add: fold_client_update_sys_acc)
qed

lemma sum_sys_delta:
  assumes n: "0 < n"
  shows "sum_list (map (\<lambda>s. sys_delta (t, n, na, nd, q, a, d) s c) [0..<n]) =
   (if c < nd \<and> served q a d 0 c then - hd (dict_get_list (q ! 0) c) else 0) +
   (if c < nd \<and> served q a d (n - 1) c then last (dict_get_list (d ! (n - 1)) c) else 0)"
    (is "_ = ?A + ?B")
proof -
  have "\<And>s. (int s = int n - 1) = (s = n - 1)" using n by auto
  then have pt: "\<And>s. sys_delta (t, n, na, nd, q, a, d) s c =
      (if s = 0 then ?A else 0) + (if s = n - 1 then ?B else 0)"
    by (auto simp: sys_delta_def)
  have "sum_list (map (\<lambda>s. sys_delta (t, n, na, nd, q, a, d) s c) [0..<n]) =
      (\<Sum>s\<in>{0..<n}. (if s = 0 then ?A else 0) + (if s = n - 1 then ?B else 0))"
    by (simp add: pt sum_set_upt_conv_sum_list_nat [symmetric] del: sum_set_upt_conv_sum_list_nat)
  also have "\<dots> = ?A + ?B"
    using n by (simp add: sum.distrib)
  finally show ?thesis .
qed

lemma metrics_of_output_fields:
  "length (wait_time (metrics_of_output (t, n, na, nd, q, a, d))) = n \<and>
   length (use_time (metrics_of_output (t, n, na, nd, q, a, d))) = n \<and>
   length (system_time (metrics_of_output (t, n, na, nd, q, a, d))) = na \<and>
   m_time (metrics_of_output (t, n, na, nd, q, a, d)) = t \<and>
   m_n_d (metrics_of_output (t, n, na, nd, q, a, d)) = nd"
proof -
  obtain wt ut sys oq where f: "fold (station_update (t, n, na, nd, q, a, d)) [0..<n]
      ([], [], replicate na 0, replicate n 0) = (wt, ut, sys, oq)"
    by (metis prod_cases4)
  from fold_station_update_lengths [OF f] f show ?thesis
    by (simp add: metrics_of_output_def)
qed

lemma system_time_sum:
  assumes "c < na"
  shows "system_time (metrics_of_output (t, n, na, nd, q, a, d)) ! c =
    sum_list (map (\<lambda>s. sys_delta (t, n, na, nd, q, a, d) s c) [0..<n])"
proof -
  obtain wt ut sys oq where f: "fold (station_update (t, n, na, nd, q, a, d)) [0..<n]
      ([], [], replicate na 0, replicate n 0) = (wt, ut, sys, oq)"
    by (metis prod_cases4)
  from fold_station_update_sys [OF f, of c] assms f show ?thesis
    by (simp add: metrics_of_output_def)
qed

lemma metrics_by_simulation_Inr:
  "metrics_by_simulation R cfg k g = Some (Inr (m, g')) \<longleftrightarrow>
   (\<exists>out. servers_simulation R cfg k g = Some (Inr (out, g')) \<and> m = metrics_of_output out)"
proof (cases "servers_simulation R cfg k g")
  case (Some z)
  then show ?thesis by (cases z) (auto simp: metrics_by_simulation_def)
qed (simp add: metrics_by_simulation_def)

lemma client_update_wait_length:
  "length (wait_pc (client_update (t, n, na, nd, q, a, d) s c st)) =
   length (wait_pc st) + (if dict_get_list (q ! s) c = [] then 0 else 1)"
  by (simp add: client_update_def Let_def)

lemma fold_client_update_wait_length:
  "length (wait_pc (fold (client_update (t, n, na, nd, q, a, d) s) cs st)) =
   length (wait_pc st) + length (filter (\<lambda>c. dict_get_list (q ! s) c \<noteq> []) cs)"
  by (induction cs arbitrary: st) (simp_all add: client_update_wait_length)

lemma fold_station_update_prefix:
  "fold (station_update out) ss (wt, ut, sys, oq) = (wt', ut', sys', oq') \<Longrightarrow> \<exists>ys. wt' = wt @ ys"
proof (induction ss arbitrary: wt ut sys oq)
  case Nil
  then show ?case by simp
next
  case (Cons s ss)
  have "\<exists>x ut1 sys1 oq1. station_update out s (wt, ut, sys, oq) = (wt @ [x], ut1, sys1, oq1)"
    by (simp add: station_update_def Let_def split: prod.split)
  then obtain x ut1 sys1 oq1 where h: "station_update out s (wt, ut, sys, oq) = (wt @ [x], ut1, sys1, oq1)"
    by blast
  with Cons.prems have "fold (station_update out) ss (wt @ [x], ut1, sys1, oq1) = (wt', ut', sys', oq')"
    by simp
  from Cons.IH [OF this] show ?case by auto
qed

lemma fold_station_update_wait_nan:
  "fold (station_update (t, n, na, nd, q, a, d)) ss (wt, ut, sys, oq) = (wt', ut', sys', oq') \<Longrightarrow>
   j < length ss \<Longrightarrow>
   (wt' ! (length wt + j) = None \<longleftrightarrow> (\<forall>c < na. dict_get_list (q ! (ss ! j)) c = []))"
proof (induction ss arbitrary: wt ut sys oq j)
  case Nil
  then show ?case by simp
next
  case (Cons s ss)
  let ?st = "fold (client_update (t, n, na, nd, q, a, d) s) [0..<na]
               \<lparr>wait_pc = [], use_pc = [], sys_acc = sys, on_queue = oq\<rparr>"
  have step: "fold (station_update (t, n, na, nd, q, a, d)) ss
      (wt @ [np_mean (wait_pc ?st)], ut @ [np_mean (use_pc ?st)], sys_acc ?st, on_queue ?st) =
      (wt', ut', sys', oq')"
  proof -
    have "station_update (t, n, na, nd, q, a, d) s (wt, ut, sys, oq) =
        (wt @ [np_mean (wait_pc ?st)], ut @ [np_mean (use_pc ?st)], sys_acc ?st, on_queue ?st)"
      by (simp add: station_update_def Let_def)
    with Cons.prems(1) show ?thesis by (simp only: fold_Cons comp_apply)
  qed
  show ?case
  proof (cases j)
    case 0
    obtain ys where "wt' = (wt @ [np_mean (wait_pc ?st)]) @ ys"
      using fold_station_update_prefix [OF step] by blast
    then have "wt' ! length wt = np_mean (wait_pc ?st)" by (simp add: nth_append)
    moreover have "wait_pc ?st = [] \<longleftrightarrow> (\<forall>c < na. dict_get_list (q ! s) c = [])"
      using fold_client_update_wait_length [of t n na nd q a d s "[0..<na]"
              "\<lparr>wait_pc = [], use_pc = [], sys_acc = sys, on_queue = oq\<rparr>"]
      by (auto simp: filter_empty_conv)
    ultimately show ?thesis using 0 by (simp add: np_mean_def)
  next
    case (Suc j')
    from Cons.IH [OF step, of j'] Cons.prems(2) Suc show ?thesis by simp
  qed
qed

section \<open>Properties of the reduction\<close>

text \<open>C13: the metrics of a completed run have one mean waiting time and one mean
  service time per station, one system-time entry per arrival counted by the run, and
  a departure count that does not exceed that number.\<close>

theorem metrics_by_simulation_shape:
  assumes "0 < n_srv cfg"
    and "metrics_by_simulation R cfg k g = Some (Inr (m, g'))"
  shows "length (wait_time m) = n_srv cfg \<and> length (use_time m) = n_srv cfg \<and>
         m_n_d m \<le> length (system_time m)"
proof -
  obtain t n na nd q a d where r: "servers_simulation R cfg k g = Some (Inr ((t, n, na, nd, q, a, d), g'))"
    and m: "m = metrics_of_output (t, n, na, nd, q, a, d)"
    using assms(2) by (auto simp: metrics_by_simulation_Inr)
  from r obtain s where "run_servers R cfg k g = Some (Inr s)"
    and out: "(t, n, na, nd, q, a, d) = sim_output cfg s"
    by (auto simp: servers_simulation_Inr)
  with assms(1) have "sim_inv cfg s" by (simp add: run_servers_inv)
  with out have "n = n_srv cfg" "nd \<le> na" by (auto simp: sim_output_def dest: sim_inv_counts)
  with m show ?thesis by (simp add: metrics_of_output_fields)
qed

text \<open>C14: the system time reported for client number \<open>c\<close> is its departure from
  the last station minus its first queue entry at station 0, each counted only when
  \<open>c < n_d\<close> and the client has a queue entry, a service start and a departure at
  that station; otherwise the term is 0.\<close>

theorem metrics_system_time:
  assumes "c < na" and "0 < n"
  shows "system_time (metrics_of_output (t, n, na, nd, q, a, d)) ! c =
    (if c < nd \<and> served q a d 0 c then - hd (dict_get_list (q ! 0) c) else 0) +
    (if c < nd \<and> served q a d (n - 1) c then last (dict_get_list (d ! (n - 1)) c) else 0)"
  using system_time_sum [OF assms(1)] sum_sys_delta [OF assms(2)] by simp


text \<open>C27: the mean waiting time of station \<open>s\<close> is \<^verbatim>\<open>nan\<close> exactly when no client
  numbered below \<^verbatim>\<open>n_a\<close> has a queue entry there: \<^verbatim>\<open>np.mean\<close> of the empty
  per-client list (the specification excludes such stations instead).\<close>

theorem metrics_station_wait_nan:
  assumes "s < n"
  shows "wait_time (metrics_of_output (t, n, na, nd, q, a, d)) ! s = None \<longleftrightarrow>
         (\<forall>c < na. dict_get_list (q ! s) c = [])"
proof -
  obtain wt ut sys oq where f: "fold (station_update (t, n, na, nd, q, a, d)) [0..<n]
      ([], [], replicate na 0, replicate n 0) = (wt, ut, sys, oq)"
    by (metis prod_cases4)
  from fold_station_update_wait_nan [OF f, of s] assms f show ?thesis
    by (simp add: metrics_of_output_def)
qed

end
