(* ===== verification/Replication.thy ===== *)
theory Replication
  imports Metrics
begin

text \<open>
  The replication controller \<^verbatim>\<open>run_simulation\<close> of \<^verbatim>\<open>src/sim.ipynb\<close>: it runs
  \<^verbatim>\<open>metrics_by_simulation\<close> repeatedly, threading the generator state through the
  runs, appends each run's mean system, waiting and service time to three lists, and
  stops at \<^verbatim>\<open>max_iterations\<close>, or from \<^verbatim>\<open>min_iterations\<close> on once
  \<^verbatim>\<open>np.std(system_time) / len(system_time) < convergence_threshold\<close>. Its answer is
  \<^verbatim>\<open>(np.var, np.mean)\<close> of each list.
  The \<^verbatim>\<open>while True\<close> loop is \<open>conv_loop\<close>, over an arbitrary run function so that
  its properties do not depend on the simulator; it terminates because the counter
  grows towards \<^verbatim>\<open>max_iterations\<close>. A \<^verbatim>\<open>nan\<close> is \<open>None\<close>, and a comparison with
  \<^verbatim>\<open>nan\<close> is false.
\<close>

section \<open>numpy statistics\<close>

text \<open>\<^verbatim>\<open>np.var\<close> (population variance, \<^verbatim>\<open>ddof=0\<close>) and \<^verbatim>\<open>np.std\<close> of a list whose
  entries may be \<^verbatim>\<open>nan\<close>.\<close>

definition np_var :: "real option list \<Rightarrow> real option" where
  "np_var xs = (case np_mean_nan xs of None \<Rightarrow> None
                | Some m \<Rightarrow> Some (sum_list (map (\<lambda>x. (the x - m)\<^sup>2) xs) / real (length xs)))"

definition np_std :: "real option list \<Rightarrow> real option" where
  "np_std xs = map_option sqrt (np_var xs)"

text \<open>\<^verbatim>\<open>standard_deviation/len(system_time) < convergence_threshold\<close>\<close>

definition converged :: "real \<Rightarrow> real option list \<Rightarrow> bool" where
  "converged thr xs = (case np_std xs of None \<Rightarrow> False | Some sd \<Rightarrow> sd / real (length xs) < thr)"

section \<open>The convergence loop\<close>

type_synonym samples = "real option list \<times> real option list \<times> real option list"

text \<open>One pass of the \<^verbatim>\<open>while True\<close> body: one run, three appends, the counter,
  the unconditional stop at \<open>mx\<close>, the convergence stop from \<open>mn\<close> on. The lists are
  (system, wait, use) times.\<close>

function conv_loop ::
  "('g \<Rightarrow> (metrics \<times> 'g) result option) \<Rightarrow> nat \<Rightarrow> nat \<Rightarrow> real \<Rightarrow> nat \<Rightarrow> samples \<Rightarrow> 'g \<Rightarrow>
   (samples \<times> 'g) result option" where
  "conv_loop sim mn mx thr it (st, wt, ut) g =
     (case sim g of
        None \<Rightarrow> None
      | Some (Inl e) \<Rightarrow> Some (Inl e)
      | Some (Inr (m, g')) \<Rightarrow>
          (let st' = st @ [np_mean (system_time m)];
               wt' = wt @ [np_mean_nan (wait_time m)];
               ut' = ut @ [np_mean_nan (use_time m)];
               it' = it + 1
           in if mx \<le> it' then Some (Inr ((st', wt', ut'), g'))
              else if mn \<le> it' \<and> converged thr st' then Some (Inr ((st', wt', ut'), g'))
              else conv_loop sim mn mx thr it' (st', wt', ut') g'))"
  by pat_completeness auto

termination
  by (relation "measure (\<lambda>(sim, mn, mx, thr, it, acc, g). mx - it)") auto

declare conv_loop.simps [simp del]

text \<open>The answer: \<^verbatim>\<open>(np.var(l), np.mean(l))\<close> for each list.\<close>

record summary =
  wait_stat :: "real option \<times> real option"
  use_stat :: "real option \<times> real option"
  system_stat :: "real option \<times> real option"

definition summarise :: "samples \<Rightarrow> summary" where
  "summarise acc = (case acc of (st, wt, ut) \<Rightarrow>
     \<lparr>wait_stat = (np_var wt, np_mean_nan wt), use_stat = (np_var ut, np_mean_nan ut),
      system_stat = (np_var st, np_mean_nan st)\<rparr>)"

text \<open>\<^verbatim>\<open>run_simulation\<close> with its constants \<^verbatim>\<open>min_iterations = 1000\<close>,
  \<^verbatim>\<open>max_iterations = 5000\<close>, \<^verbatim>\<open>convergence_threshold = 0.001\<close>; \<open>k\<close> is the fuel of
  each run.\<close>

definition run_simulation ::
  "'g rng \<Rightarrow> sim_config \<Rightarrow> nat \<Rightarrow> 'g \<Rightarrow> (summary \<times> 'g) result option" where
  "run_simulation R cfg k g =
     map_option (map_sum id (\<lambda>(acc, g'). (summarise acc, g')))
       (conv_loop (metrics_by_simulation R cfg k) 1000 5000 (1 / 1000) 0 ([], [], []) g)"

section \<open>Facts on the statistics\<close>

lemma np_mean_nan_None_iff: "np_mean_nan xs = None \<longleftrightarrow> None \<in> set xs \<or> xs = []"
  by (auto simp: np_mean_nan_def np_mean_def)

lemma np_mean_nan_Some: "np_mean_nan xs = Some m \<Longrightarrow> None \<notin> set xs \<and> xs \<noteq> []"
  by (auto simp: np_mean_nan_def np_mean_def split: if_splits)

lemma converged_no_nan: "converged thr xs \<Longrightarrow> None \<notin> set xs \<and> xs \<noteq> []"
  by (auto simp: converged_def np_std_def np_var_def dest: np_mean_nan_Some split: option.splits)


lemma np_mean_bounds:
  assumes "xs \<noteq> []" and "\<forall>x\<in>set xs. lo \<le> x \<and> x \<le> hi"
  shows "lo \<le> sum_list xs / real (length xs) \<and> sum_list xs / real (length xs) \<le> hi"
proof -
  have "real (length xs) * lo \<le> sum_list xs" "sum_list xs \<le> real (length xs) * hi"
    using sum_list_mono [of xs "\<lambda>_. lo" id] sum_list_mono [of xs id "\<lambda>_. hi"] assms(2)
    by (auto simp: sum_list_triv)
  with assms(1) show ?thesis by (simp add: field_simps)
qed

text \<open>On samples in \<open>[lo, hi]\<close> the mean lies in \<open>[lo, hi]\<close>, the variance in
  \<open>[0, (hi - lo)\<^sup>2]\<close> and the standard deviation is at most \<open>hi - lo\<close>.\<close>

lemma np_var_bound:
  assumes "xs \<noteq> []" and "\<forall>x\<in>set xs. \<exists>v. x = Some v \<and> lo \<le> v \<and> v \<le> hi"
  shows "\<exists>m v. np_mean_nan xs = Some m \<and> np_var xs = Some v \<and> lo \<le> m \<and> m \<le> hi \<and>
           0 \<le> v \<and> v \<le> (hi - lo)\<^sup>2"
proof -
  let ?vs = "map the xs"
  have nn: "None \<notin> set xs" using assms(2) by auto
  have vs: "\<forall>v\<in>set ?vs. lo \<le> v \<and> v \<le> hi" using assms(2) by auto
  define m where "m = sum_list ?vs / real (length ?vs)"
  have m: "lo \<le> m \<and> m \<le> hi" using np_mean_bounds [OF _ vs] assms(1) by (simp add: m_def)
  have mean: "np_mean_nan xs = Some m" using nn assms(1) by (simp add: np_mean_nan_def np_mean_def m_def)
  have sq: "\<forall>x\<in>set xs. (the x - m)\<^sup>2 \<le> (hi - lo)\<^sup>2"
  proof
    fix x assume "x \<in> set xs"
    then have "lo \<le> the x \<and> the x \<le> hi" using vs by auto
    then have "\<bar>the x - m\<bar> \<le> hi - lo" using m by arith
    then show "(the x - m)\<^sup>2 \<le> (hi - lo)\<^sup>2" by (metis abs_ge_zero power2_abs power_mono)
  qed
  have "sum_list (map (\<lambda>x. (the x - m)\<^sup>2) xs) \<le> real (length xs) * (hi - lo)\<^sup>2"
    using sum_list_mono [of xs "\<lambda>x. (the x - m)\<^sup>2" "\<lambda>_. (hi - lo)\<^sup>2"] sq
    by (simp add: sum_list_triv)
  then have var: "sum_list (map (\<lambda>x. (the x - m)\<^sup>2) xs) / real (length xs) \<le> (hi - lo)\<^sup>2"
    using assms(1) by (simp add: field_simps)
  have "0 \<le> sum_list (map (\<lambda>x. (the x - m)\<^sup>2) xs)" by (rule sum_list_nonneg) auto
  then have pos: "0 \<le> sum_list (map (\<lambda>x. (the x - m)\<^sup>2) xs) / real (length xs)" by simp
  from mean m var pos show ?thesis by (simp add: np_var_def)
qed

lemma np_std_bound:
  assumes "xs \<noteq> []" and "\<forall>x\<in>set xs. \<exists>v. x = Some v \<and> lo \<le> v \<and> v \<le> hi"
  shows "\<exists>sd. np_std xs = Some sd \<and> sd \<le> hi - lo"
proof -
  obtain m v where v: "np_var xs = Some v" "v \<le> (hi - lo)\<^sup>2" and "lo \<le> m" "m \<le> hi"
    using np_var_bound [OF assms] by blast
  then have "sqrt ((hi - lo)\<^sup>2) = hi - lo" by simp
  with real_sqrt_le_mono [OF v(2)] have "sqrt v \<le> hi - lo" by (simp only:)
  with v(1) show ?thesis by (simp add: np_std_def)
qed

section \<open>One pass of the loop\<close>

lemma conv_loop_None: "sim g = None \<Longrightarrow> conv_loop sim mn mx thr it (st, wt, ut) g = None"
  by (simp add: conv_loop.simps)

lemma conv_loop_Inl: "sim g = Some (Inl e) \<Longrightarrow> conv_loop sim mn mx thr it (st, wt, ut) g = Some (Inl e)"
  by (simp add: conv_loop.simps)

lemma conv_loop_stop:
  "sim g = Some (Inr (m, g1)) \<Longrightarrow> mx \<le> it + 1 \<or> mn \<le> it + 1 \<and> converged thr (st @ [np_mean (system_time m)]) \<Longrightarrow>
   conv_loop sim mn mx thr it (st, wt, ut) g =
     Some (Inr ((st @ [np_mean (system_time m)], wt @ [np_mean_nan (wait_time m)],
                 ut @ [np_mean_nan (use_time m)]), g1))"
  by (auto simp: conv_loop.simps Let_def)

lemma conv_loop_continue:
  "sim g = Some (Inr (m, g1)) \<Longrightarrow> \<not> mx \<le> it + 1 \<Longrightarrow>
   \<not> (mn \<le> it + 1 \<and> converged thr (st @ [np_mean (system_time m)])) \<Longrightarrow>
   conv_loop sim mn mx thr it (st, wt, ut) g =
     conv_loop sim mn mx thr (it + 1) (st @ [np_mean (system_time m)], wt @ [np_mean_nan (wait_time m)],
                 ut @ [np_mean_nan (use_time m)]) g1"
  by (subst conv_loop.simps) (auto simp: Let_def)

lemmas conv_loop_pass = conv_loop_None conv_loop_Inl conv_loop_stop conv_loop_continue

section \<open>The stopping rule\<close>

text \<open>What one call of the loop returns, from a counter equal to the length of the
  lists: the lists extended by at least one sample each, no further than the larger of
  the next count and \<open>mx\<close>, ending on a stop condition, and no earlier count from
  \<open>mn\<close> on at which the convergence test held.\<close>

lemma conv_loop_spec:
  "conv_loop sim mn mx thr it (st, wt, ut) g = Some (Inr ((st', wt', ut'), g')) \<Longrightarrow>
   length st = it \<Longrightarrow> length wt = it \<Longrightarrow> length ut = it \<Longrightarrow>
   it < length st' \<and> length wt' = length st' \<and> length ut' = length st' \<and> take it st' = st \<and>
   length st' \<le> max (Suc it) mx \<and>
   (mx \<le> length st' \<or> mn \<le> length st' \<and> converged thr st') \<and>
   (\<forall>j. it < j \<and> j < length st' \<longrightarrow> \<not> (mn \<le> j \<and> converged thr (take j st')))"
proof (induction sim mn mx thr it "(st, wt, ut)" g arbitrary: st wt ut rule: conv_loop.induct)
  case (1 sim mn mx thr it st wt ut g)
  show ?case
  proof (cases "sim g")
    case None
    with "1.prems" show ?thesis by (simp add: conv_loop_None)
  next
    case (Some r)
    show ?thesis
    proof (cases r)
      case (Inl e)
      with Some "1.prems" show ?thesis by (simp add: conv_loop_Inl)
    next
      case (Inr p)
      obtain m g1 where p: "p = (m, g1)" by fastforce
      let ?st = "st @ [np_mean (system_time m)]"
      let ?wt = "wt @ [np_mean_nan (wait_time m)]"
      let ?ut = "ut @ [np_mean_nan (use_time m)]"
      have sim: "sim g = Some (Inr (m, g1))" using Some Inr p by simp
      show ?thesis
      proof (cases "mx \<le> it + 1 \<or> mn \<le> it + 1 \<and> converged thr ?st")
        case True
        then have "conv_loop sim mn mx thr it (st, wt, ut) g = Some (Inr ((?st, ?wt, ?ut), g1))"
          using sim by (simp add: conv_loop_stop)
        with True "1.prems" show ?thesis by auto
      next
        case False
        then have nmx: "\<not> mx \<le> it + 1" and nconv: "\<not> (mn \<le> it + 1 \<and> converged thr ?st)"
          by simp_all
        have rec: "conv_loop sim mn mx thr (it + 1) (?st, ?wt, ?ut) g1 = Some (Inr ((st', wt', ut'), g'))"
          using sim nmx nconv "1.prems"(1) by (simp add: conv_loop_continue)
        have l: "length ?st = it + 1" "length ?wt = it + 1" "length ?ut = it + 1"
          using "1.prems"(2-4) by simp_all
        note ih = "1.hyps" [OF sim refl refl refl refl refl refl nmx nconv rec l]
        have tk: "take it st' = st"
        proof -
          have "take it st' = take it (take (it + 1) st')" by simp
          also have "\<dots> = st" using ih "1.prems"(2) by simp
          finally show ?thesis .
        qed
        have "\<forall>j. it < j \<and> j < length st' \<longrightarrow> \<not> (mn \<le> j \<and> converged thr (take j st'))"
        proof (intro allI impI)
          fix j assume j: "it < j \<and> j < length st'"
          show "\<not> (mn \<le> j \<and> converged thr (take j st'))"
          proof (cases "j = it + 1")
            case True
            with ih nconv show ?thesis by simp
          next
            case False
            with j ih show ?thesis by simp
          qed
        qed
        with ih tk nmx show ?thesis by auto
      qed
    qed
  qed
qed

text \<open>Every sample the loop adds is a run's mean system time.\<close>

lemma conv_loop_samples:
  "conv_loop sim mn mx thr it (st, wt, ut) g = Some (Inr ((st', wt', ut'), g')) \<Longrightarrow>
   \<forall>g m g'. sim g = Some (Inr (m, g')) \<longrightarrow> P (np_mean (system_time m)) \<Longrightarrow>
   \<forall>x\<in>set st. P x \<Longrightarrow> \<forall>x\<in>set st'. P x"
proof (induction sim mn mx thr it "(st, wt, ut)" g arbitrary: st wt ut rule: conv_loop.induct)
  case (1 sim mn mx thr it st wt ut g)
  show ?case
  proof (cases "sim g")
    case None
    with "1.prems" show ?thesis by (simp add: conv_loop_None)
  next
    case (Some r)
    show ?thesis
    proof (cases r)
      case (Inl e)
      with Some "1.prems" show ?thesis by (simp add: conv_loop_Inl)
    next
      case (Inr p)
      obtain m g1 where sim: "sim g = Some (Inr (m, g1))" using Some Inr by (cases p) simp
      let ?st = "st @ [np_mean (system_time m)]"
      let ?wt = "wt @ [np_mean_nan (wait_time m)]"
      let ?ut = "ut @ [np_mean_nan (use_time m)]"
      have new: "\<forall>x\<in>set ?st. P x" using "1.prems"(2,3) sim by auto
      show ?thesis
      proof (cases "mx \<le> it + 1 \<or> mn \<le> it + 1 \<and> converged thr ?st")
        case True
        then have "conv_loop sim mn mx thr it (st, wt, ut) g = Some (Inr ((?st, ?wt, ?ut), g1))"
          using sim by (simp add: conv_loop_stop)
        with new "1.prems"(1) show ?thesis by auto
      next
        case False
        then have nmx: "\<not> mx \<le> it + 1" and nconv: "\<not> (mn \<le> it + 1 \<and> converged thr ?st)"
          by simp_all
        have rec: "conv_loop sim mn mx thr (it + 1) (?st, ?wt, ?ut) g1 = Some (Inr ((st', wt', ut'), g'))"
          using sim nmx nconv "1.prems"(1) by (simp add: conv_loop_continue)
        from "1.hyps" [OF sim refl refl refl refl refl refl nmx nconv rec "1.prems"(2) new]
        show ?thesis .
      qed
    qed
  qed
qed

text \<open>When every run returns, the loop returns.\<close>

lemma conv_loop_total:
  "\<forall>g. \<exists>m g'. sim g = Some (Inr (m, g')) \<Longrightarrow>
   \<exists>r g'. conv_loop sim mn mx thr it acc g = Some (Inr (r, g'))"
proof (induction sim mn mx thr it acc g rule: conv_loop.induct)
  case (1 sim mn mx thr it st wt ut g)
  obtain m g1 where sim: "sim g = Some (Inr (m, g1))" using "1.prems" by blast
  show ?case
  proof (cases "mx \<le> it + 1 \<or> mn \<le> it + 1 \<and> converged thr (st @ [np_mean (system_time m)])")
    case True
    with sim show ?thesis by (simp add: conv_loop_stop)
  next
    case False
    then have nmx: "\<not> mx \<le> it + 1"
      and nconv: "\<not> (mn \<le> it + 1 \<and> converged thr (st @ [np_mean (system_time m)]))" by simp_all
    from "1.IH" [OF sim refl refl refl refl refl refl nmx nconv "1.prems"] sim nmx nconv
    show ?thesis by (simp add: conv_loop_continue)
  qed
qed


lemma converged_of_bounds:
  assumes "xs \<noteq> []" and "\<forall>x\<in>set xs. \<exists>v. x = Some v \<and> lo \<le> v \<and> v \<le> hi"
    and "(hi - lo) / real (length xs) < thr"
  shows "converged thr xs"
proof -
  obtain sd where sd: "np_std xs = Some sd" "sd \<le> hi - lo" using np_std_bound [OF assms(1,2)] by blast
  have "sd / real (length xs) \<le> (hi - lo) / real (length xs)"
    using sd(2) by (simp add: divide_right_mono)
  with assms(3) sd(1) show ?thesis by (simp add: converged_def)
qed

lemma metrics_by_simulation_total:
  assumes "\<forall>g. \<exists>out g'. servers_simulation R cfg k g = Some (Inr (out, g'))"
  shows "\<forall>g. \<exists>m g'. metrics_by_simulation R cfg k g = Some (Inr (m, g'))"
proof
  fix g
  from assms obtain out g' where "servers_simulation R cfg k g = Some (Inr (out, g'))" by blast
  then have "metrics_by_simulation R cfg k g = Some (Inr (metrics_of_output out, g'))"
    by (simp add: metrics_by_simulation_def)
  then show "\<exists>m g'. metrics_by_simulation R cfg k g = Some (Inr (m, g'))" by blast
qed

lemma conv_loop_no_error:
  "\<forall>g. \<forall>e. sim g \<noteq> Some (Inl e) \<Longrightarrow> conv_loop sim mn mx thr it acc g \<noteq> Some (Inl e)"
proof (induction sim mn mx thr it acc g rule: conv_loop.induct)
  case (1 sim mn mx thr it st wt ut g)
  show ?case
  proof (cases "sim g")
    case None
    then show ?thesis by (simp add: conv_loop_None)
  next
    case (Some r)
    show ?thesis
    proof (cases r)
      case (Inl e')
      with Some "1.prems" show ?thesis by blast
    next
      case (Inr p)
      obtain m g1 where sim: "sim g = Some (Inr (m, g1))" using Some Inr by (cases p) simp
      show ?thesis
      proof (cases "mx \<le> it + 1 \<or> mn \<le> it + 1 \<and> converged thr (st @ [np_mean (system_time m)])")
        case True
        with sim show ?thesis by (simp add: conv_loop_stop)
      next
        case False
        then have nmx: "\<not> mx \<le> it + 1"
          and nconv: "\<not> (mn \<le> it + 1 \<and> converged thr (st @ [np_mean (system_time m)]))" by simp_all
        from "1.IH" [OF sim refl refl refl refl refl refl nmx nconv "1.prems"] sim nmx nconv
        show ?thesis by (simp add: conv_loop_continue)
      qed
    qed
  qed
qed

lemma metrics_by_simulation_no_error:
  "rng_ok R \<Longrightarrow> cfg_ok cfg \<Longrightarrow> metrics_by_simulation R cfg k g \<noteq> Some (Inl e)"
  using run_servers_no_error [of R cfg k g e]
  by (auto simp: metrics_by_simulation_def servers_simulation_def split: sum.splits)

section \<open>Properties of the controller\<close>

text \<open>C15: the controller returns whenever each replication returns: if the simulator
  finishes from every generator state, \<^verbatim>\<open>run_simulation\<close> returns a summary (its loop
  is bounded by \<^verbatim>\<open>max_iterations\<close>, whatever the samples).\<close>

theorem run_simulation_returns:
  assumes "\<forall>g. \<exists>out g'. servers_simulation R cfg k g = Some (Inr (out, g'))"
  shows "\<exists>res g'. run_simulation R cfg k g = Some (Inr (res, g'))"
proof -
  from conv_loop_total [OF metrics_by_simulation_total [OF assms],
      of 1000 5000 "1 / 1000" 0 "([], [], [])" g]
  obtain r g' where "conv_loop (metrics_by_simulation R cfg k) 1000 5000 (1 / 1000) 0 ([], [], []) g =
      Some (Inr (r, g'))"
    by blast
  then show ?thesis by (simp add: run_simulation_def)
qed

text \<open>C16: the stopping rule. The loop makes at least one and at most
  \<open>max 1 mx\<close> replications, records one sample of each metric per replication, and
  stops at \<open>mx\<close> or at the first count from \<open>mn\<close> on whose samples pass the
  convergence test.\<close>

theorem conv_loop_stopping_rule:
  assumes "conv_loop sim mn mx thr 0 ([], [], []) g = Some (Inr ((st, wt, ut), g'))"
  shows "1 \<le> length st \<and> length st \<le> max 1 mx \<and> length wt = length st \<and> length ut = length st \<and>
         (mx \<le> length st \<or> mn \<le> length st \<and> converged thr st) \<and>
         (\<forall>j. 0 < j \<and> j < length st \<longrightarrow> \<not> (mn \<le> j \<and> converged thr (take j st)))"
  using conv_loop_spec [OF assms] by (simp add: Suc_le_eq)

text \<open>C17: the specification's test of the loop: when every replication's mean system
  time is a number in \<open>[lo, hi]\<close> and \<open>(hi - lo) / mn\<close> is below the threshold, so
  that the first check after \<open>mn\<close> replications passes, the loop stops after exactly
  \<open>mn\<close> replications (for \<open>1 \<le> mn < mx\<close>).\<close>

theorem conv_loop_stops_at_min:
  assumes "1 \<le> mn" and "mn < mx"
    and "\<forall>g m g'. sim g = Some (Inr (m, g')) \<longrightarrow>
           (\<exists>v. np_mean (system_time m) = Some v \<and> lo \<le> v \<and> v \<le> hi)"
    and "(hi - lo) / real mn < thr"
    and "conv_loop sim mn mx thr 0 ([], [], []) g = Some (Inr ((st, wt, ut), g'))"
  shows "length st = mn"
proof -
  note spec = conv_loop_spec [OF assms(5)]
  have vals: "\<forall>x\<in>set st. \<exists>v. x = Some v \<and> lo \<le> v \<and> v \<le> hi"
    using conv_loop_samples [OF assms(5) assms(3)] by simp
  have "\<not> mn < length st"
  proof
    assume lt: "mn < length st"
    have "take mn st \<noteq> []" using assms(1) lt by (cases st) auto
    moreover have "\<forall>x\<in>set (take mn st). \<exists>v. x = Some v \<and> lo \<le> v \<and> v \<le> hi"
      using vals by (auto dest: in_set_takeD)
    moreover have "(hi - lo) / real (length (take mn st)) < thr" using lt assms(4) by simp
    ultimately have "converged thr (take mn st)" by (rule converged_of_bounds)
    moreover have "\<not> (mn \<le> mn \<and> converged thr (take mn st))"
      using spec lt assms(1) by simp
    ultimately show False by simp
  qed
  moreover have "mx \<le> length st \<or> mn \<le> length st" using spec by blast
  ultimately show ?thesis using assms(2) by linarith
qed

text \<open>C18: one \<^verbatim>\<open>nan\<close> sample disables convergence: once some replication has no
  system time to average (no client in the run, so \<^verbatim>\<open>np.mean([])\<close> is \<^verbatim>\<open>nan\<close>),
  \<^verbatim>\<open>np.std\<close> of the samples is \<^verbatim>\<open>nan\<close> from then on, the test is false, and the loop
  runs the full \<open>max 1 mx\<close> replications, whatever the threshold.\<close>

theorem conv_loop_nan_runs_to_max:
  assumes "conv_loop sim mn mx thr 0 ([], [], []) g = Some (Inr ((st, wt, ut), g'))"
    and "None \<in> set st"
  shows "length st = max 1 mx"
proof -
  note spec = conv_loop_spec [OF assms(1)]
  have a: "length st \<le> max 1 mx" and b: "Suc 0 \<le> length st"
    using spec by (simp_all add: Suc_le_eq)
  have "mx \<le> length st" using spec converged_no_nan [of thr st] assms(2) by auto
  with a b show ?thesis by (simp add: max_def split: if_splits)
qed


text \<open>The controller composed with the simulator raises nothing on a valid
  configuration: with a generator that keeps its contract, at least one station, a
  positive arrival rate and one positive service rate and one feedback probability per
  station, \<^verbatim>\<open>run_simulation\<close> never returns an exception (it returns a summary,
  or runs out of the fuel given to each replication).\<close>

theorem run_simulation_no_error:
  assumes "rng_ok R" and "cfg_ok cfg"
  shows "run_simulation R cfg k g \<noteq> Some (Inl e)"
proof -
  have "\<forall>g. \<forall>e. metrics_by_simulation R cfg k g \<noteq> Some (Inl e)"
    using metrics_by_simulation_no_error [OF assms] by blast
  from conv_loop_no_error [OF this, of 1000 5000 "1 / 1000" 0 "([], [], [])" g]
  show ?thesis by (auto simp: run_simulation_def split: sum.splits)
qed

text \<open>C30: when every run's mean system time lies in \<open>[lo, hi]\<close>, the summary
  the controller reports for the system time is a number, not \<^verbatim>\<open>nan\<close>: its
  \<^verbatim>\<open>np.mean\<close> lies in \<open>[lo, hi]\<close> and its \<^verbatim>\<open>np.var\<close> in \<open>[0, (hi - lo)\<^sup>2]\<close>.\<close>

theorem conv_loop_summary_bounds:
  assumes "\<forall>g m g'. sim g = Some (Inr (m, g')) \<longrightarrow>
           (\<exists>v. np_mean (system_time m) = Some v \<and> lo \<le> v \<and> v \<le> hi)"
    and "conv_loop sim mn mx thr 0 ([], [], []) g = Some (Inr (acc, g'))"
  shows "\<exists>v m. system_stat (summarise acc) = (Some v, Some m) \<and> lo \<le> m \<and> m \<le> hi \<and>
           0 \<le> v \<and> v \<le> (hi - lo)\<^sup>2"
proof -
  obtain st wt ut where acc: "acc = (st, wt, ut)" by (cases acc) auto
  have run: "conv_loop sim mn mx thr 0 ([], [], []) g = Some (Inr ((st, wt, ut), g'))"
    using assms(2) acc by simp
  have "0 < length st" using conv_loop_spec [OF run] by simp
  moreover have "\<forall>x\<in>set st. \<exists>v. x = Some v \<and> lo \<le> v \<and> v \<le> hi"
    using conv_loop_samples [OF run assms(1)] by simp
  ultimately obtain m v where "np_mean_nan st = Some m" "np_var st = Some v"
    "lo \<le> m" "m \<le> hi" "0 \<le> v" "v \<le> (hi - lo)\<^sup>2"
    using np_var_bound [of st lo hi] by auto
  with acc show ?thesis by (simp add: summarise_def)
qed

end
