(* ===== verification/Experiments.thy ===== *)
theory Experiments
  imports Replication
begin

text \<open>
  The experiment cells of \<^verbatim>\<open>src/sim.ipynb\<close>: six calls
  \<^verbatim>\<open>results = run_simulation(5000, n, 1/7, mu, p, True)\<close>, each followed by the rows
  \<^verbatim>\<open>[key, results[key][0], results[key][1]]\<close> handed to \<^verbatim>\<open>tabulate\<close> (the
  printing itself is output only). Each call is a configuration; \<open>experiment_run\<close>
  is the call with the fuel of each replication as a parameter.
\<close>

section \<open>The six configurations\<close>

definition experiment1 :: sim_config where
  "experiment1 = \<lparr>time = 5000, n_srv = 1, lambda_arrival_time = 1/7, mu_wait_time = [1/4],
                  p_back = [0], finish = True\<rparr>"

definition experiment2 :: sim_config where
  "experiment2 = \<lparr>time = 5000, n_srv = 1, lambda_arrival_time = 1/7, mu_wait_time = [1/2],
                  p_back = [0], finish = True\<rparr>"

definition experiment3 :: sim_config where
  "experiment3 = \<lparr>time = 5000, n_srv = 1, lambda_arrival_time = 1/7, mu_wait_time = [1],
                  p_back = [0], finish = True\<rparr>"

definition experiment4 :: sim_config where
  "experiment4 = \<lparr>time = 5000, n_srv = 3, lambda_arrival_time = 1/7, mu_wait_time = [1/4, 1/2, 1],
                  p_back = [0, 0, 0], finish = True\<rparr>"

definition experiment5 :: sim_config where
  "experiment5 = \<lparr>time = 5000, n_srv = 3, lambda_arrival_time = 1/7, mu_wait_time = [1, 1/2, 1/4],
                  p_back = [0, 0, 0], finish = True\<rparr>"

definition experiment6 :: sim_config where
  "experiment6 = \<lparr>time = 5000, n_srv = 3, lambda_arrival_time = 1/7, mu_wait_time = [1/4, 1/2, 1],
                  p_back = [0, 1/10, 1/10], finish = True\<rparr>"

definition experiments :: "sim_config list" where
  "experiments = [experiment1, experiment2, experiment3, experiment4, experiment5, experiment6]"

text \<open>\<^verbatim>\<open>rows = [[key, results[key][0], results[key][1]] for key in results.keys()]\<close>,
  in the insertion order of the returned dict.\<close>

definition result_rows :: "summary \<Rightarrow> (string \<times> real option \<times> real option) list" where
  "result_rows r =
     [(''Wait Time'', fst (wait_stat r), snd (wait_stat r)),
      (''Use Time'', fst (use_stat r), snd (use_stat r)),
      (''System Time'', fst (system_stat r), snd (system_stat r))]"

text \<open>One cell: the call and its rows.\<close>

definition experiment_run ::
  "'g rng \<Rightarrow> sim_config \<Rightarrow> nat \<Rightarrow> 'g \<Rightarrow> ((string \<times> real option \<times> real option) list \<times> 'g) result option" where
  "experiment_run R cfg k g =
     map_option (map_sum id (\<lambda>(r, g'). (result_rows r, g'))) (run_simulation R cfg k g)"

text \<open>The six cells, in the order of the notebook.\<close>

definition cell1 ::
  "'g rng \<Rightarrow> nat \<Rightarrow> 'g \<Rightarrow> ((string \<times> real option \<times> real option) list \<times> 'g) result option" where
  "cell1 R k g = experiment_run R experiment1 k g"

definition cell2 ::
  "'g rng \<Rightarrow> nat \<Rightarrow> 'g \<Rightarrow> ((string \<times> real option \<times> real option) list \<times> 'g) result option" where
  "cell2 R k g = experiment_run R experiment2 k g"

definition cell3 ::
  "'g rng \<Rightarrow> nat \<Rightarrow> 'g \<Rightarrow> ((string \<times> real option \<times> real option) list \<times> 'g) result option" where
  "cell3 R k g = experiment_run R experiment3 k g"

definition cell4 ::
  "'g rng \<Rightarrow> nat \<Rightarrow> 'g \<Rightarrow> ((string \<times> real option \<times> real option) list \<times> 'g) result option" where
  "cell4 R k g = experiment_run R experiment4 k g"

definition cell5 ::
  "'g rng \<Rightarrow> nat \<Rightarrow> 'g \<Rightarrow> ((string \<times> real option \<times> real option) list \<times> 'g) result option" where
  "cell5 R k g = experiment_run R experiment5 k g"

definition cell6 ::
  "'g rng \<Rightarrow> nat \<Rightarrow> 'g \<Rightarrow> ((string \<times> real option \<times> real option) list \<times> 'g) result option" where
  "cell6 R k g = experiment_run R experiment6 k g"

section \<open>Properties of the experiments\<close>

lemma experiments_cfg_ok: "list_all cfg_ok experiments"
  by (simp add: experiments_def cfg_ok_def experiment1_def experiment2_def experiment3_def
                experiment4_def experiment5_def experiment6_def)

text \<open>None of the six experiment cells raises: every configuration is valid (one
  service rate, all positive, and one feedback probability per station, a positive
  arrival rate), so with a generator keeping its contract each cell returns its three
  rows, or runs out of the fuel given to a replication.\<close>

theorem experiment_run_no_error:
  assumes "rng_ok R" and "cfg \<in> set experiments"
  shows "experiment_run R cfg k g \<noteq> Some (Inl e)"
proof -
  have "cfg_ok cfg" using experiments_cfg_ok assms(2) by (simp add: list_all_iff)
  with assms(1) have "run_simulation R cfg k g \<noteq> Some (Inl e)"
    using conv_loop_no_error [of "metrics_by_simulation R cfg k" 1000 5000 "1 / 1000" 0 "([], [], [])" g e]
          metrics_by_simulation_no_error [of R cfg k]
    by (auto simp: run_simulation_def)
  then show ?thesis by (auto simp: experiment_run_def)
qed

end
