(* ===== verification/Trace_Recorder.thy ===== *)
theory Trace_Recorder
  imports Sim_Invariants
begin

text \<open>
  The trace recorder of \<^verbatim>\<open>servers_simulation\<close>: the three per-station dictionaries
  \<^verbatim>\<open>q\<close>, \<^verbatim>\<open>a\<close> and \<^verbatim>\<open>d\<close>, written by the idiom
  \<^verbatim>\<open>l = x[i].get(k, list()); l.append(t); x[i][k] = l\<close> (\<open>dict_append\<close> of
  \<open>Prelude\<close>). Each handler writes exactly one entry of exactly one dictionary; the
  lemmas here read it back.
\<close>

section \<open>What each handler writes\<close>

lemma handle_asigned_trace:
  "handle_asigned R cfg t c i s = Inr s' \<Longrightarrow>
   i < length (sim_q s) \<and>
   sim_q s' = (sim_q s)[i := dict_append (if i \<noteq> 0 then c else n_a s) t (sim_q s ! i)] \<and>
   sim_a s' = sim_a s \<and> sim_d s' = sim_d s"
  by (auto simp: handle_asigned_def Let_def split: if_splits prod.splits)

lemma handle_arrival_trace:
  "handle_arrival R cfg t c i s = Inr s' \<Longrightarrow>
   i < length (sim_a s) \<and> sim_a s' = (sim_a s)[i := dict_append c t (sim_a s ! i)] \<and>
   sim_q s' = sim_q s \<and> sim_d s' = sim_d s"
  by (auto simp: handle_arrival_def split: prod.splits)

lemma handle_finish_trace:
  "handle_finish R cfg t c i s = Inr s' \<Longrightarrow>
   i < length (sim_d s) \<and> sim_d s' = (sim_d s)[i := dict_append c t (sim_d s ! i)] \<and>
   sim_q s' = sim_q s \<and> sim_a s' = sim_a s"
  by (auto simp: handle_finish_def Let_def split: if_splits prod.splits)

text \<open>Reading one entry of a dictionary list after one \<open>dict_append\<close>.\<close>

lemma dict_get_list_update:
  "i < length ms \<Longrightarrow>
   dict_get_list (ms[i := dict_append k t (ms ! i)] ! j) k' =
     dict_get_list (ms ! j) k' @ (if j = i \<and> k' = k then [t] else [])"
  by (cases "j = i") auto

section \<open>Record and read back\<close>

text \<open>C24: one loop iteration records its clock time in exactly one place: an
  \<^verbatim>\<open>ASIGNED\<close> event appends it to \<^verbatim>\<open>q[i][index]\<close> (\<open>index\<close> being the client
  number, or \<^verbatim>\<open>n_a\<close> at station 0), an \<^verbatim>\<open>ARRIVAL\<close> to \<^verbatim>\<open>a[i][c]\<close>, a
  \<^verbatim>\<open>FINISH\<close> to \<^verbatim>\<open>d[i][c]\<close>; reading any entry of the three dictionaries back
  gives its old list, extended by that time at that one entry.\<close>

theorem sim_step_records_roundtrip:
  assumes "sim_step R cfg s = Inr s'" and "events s = (t, e, c, i) # es"
  shows "\<forall>j k.
     dict_get_list (sim_q s' ! j) k = dict_get_list (sim_q s ! j) k @
       (if e = ASIGNED \<and> j = i \<and> k = (if i \<noteq> 0 then c else n_a s) then [t] else []) \<and>
     dict_get_list (sim_a s' ! j) k = dict_get_list (sim_a s ! j) k @
       (if e = ARRIVAL \<and> j = i \<and> k = c then [t] else []) \<and>
     dict_get_list (sim_d s' ! j) k = dict_get_list (sim_d s ! j) k @
       (if e = FINISH \<and> j = i \<and> k = c then [t] else [])"
proof -
  let ?s0 = "s\<lparr>sim_t := t, events := es\<rparr>"
  from assms(1) obtain t' e' c' i' es' where ev: "events s = (t', e', c', i') # es'"
    and h: "(case e' of ASIGNED \<Rightarrow> handle_asigned R cfg t' c' i' (s\<lparr>sim_t := t', events := es'\<rparr>)
              | ARRIVAL \<Rightarrow> handle_arrival R cfg t' c' i' (s\<lparr>sim_t := t', events := es'\<rparr>)
              | FINISH \<Rightarrow> handle_finish R cfg t' c' i' (s\<lparr>sim_t := t', events := es'\<rparr>)) = Inr s'"
    by (rule sim_step_cases)
  from ev assms(2) have eq: "t' = t" "e' = e" "c' = c" "i' = i" "es' = es" by simp_all
  show ?thesis
  proof (cases e)
    case ASIGNED
    with h eq have "handle_asigned R cfg t c i ?s0 = Inr s'" by simp
    from handle_asigned_trace [OF this] ASIGNED show ?thesis by (simp add: dict_get_list_update)
  next
    case ARRIVAL
    with h eq have "handle_arrival R cfg t c i ?s0 = Inr s'" by simp
    from handle_arrival_trace [OF this] ARRIVAL show ?thesis by (simp add: dict_get_list_update)
  next
    case FINISH
    with h eq have "handle_finish R cfg t c i ?s0 = Inr s'" by simp
    from handle_finish_trace [OF this] FINISH show ?thesis by (simp add: dict_get_list_update)
  qed
qed

end
