(* ===== verification/Regression.thy ===== *)
theory Regression
  imports Event_Queue Random_Source
begin

text \<open>
  The earlier notebook \<^verbatim>\<open>src/servers_regression.ipynb\<close>: its three random-variate
  generators \<^verbatim>\<open>generate_exponential\<close>, \<^verbatim>\<open>generate_bernoulli\<close> and
  \<^verbatim>\<open>generate_poisson\<close>, and its \<^verbatim>\<open>simulation\<close> of a tandem network without
  feedback. Events are flat tuples \<^verbatim>\<open>(t, e, c, i)\<close> with the kinds written as the
  integers 1, 2, 3 (the notebook's \<^verbatim>\<open>EventType\<close> enum is declared but not used), in
  the same \<^verbatim>\<open>PriorityQueue\<close> as the main notebook (\<open>pq_put\<close>, \<open>pq_get\<close>).
  \<^verbatim>\<open>random.uniform\<close> is a call whose arity is checked: with no argument it raises
  \<^verbatim>\<open>TypeError\<close>. Knuth's Poisson loop \<^verbatim>\<open>while True\<close> need not end for every
  stream of draws, so it is a \<open>partial_function (option)\<close>; the
  \<^verbatim>\<open>while(t < 864)\<close> loop of the simulation is bounded by fuel.
\<close>

section \<open>Random variates\<close>

text \<open>\<^verbatim>\<open>random.uniform(*args)\<close>: exactly two positional arguments, else
  \<^verbatim>\<open>TypeError\<close> (missing required arguments).\<close>

definition py_uniform_call :: "'g rng \<Rightarrow> 'g \<Rightarrow> real list \<Rightarrow> (real \<times> 'g) result" where
  "py_uniform_call R g args =
     (if length args = 2 then Inr (uniform R g (args ! 0) (args ! 1)) else Inl TypeError)"

text \<open>\<^verbatim>\<open>math.log(1 - random.uniform(), math.e) / -lambd\<close>: the call comes first;
  then \<^verbatim>\<open>math.log\<close> (domain error at \<open>\<le> 0\<close>), then the division.\<close>

definition generate_exponential :: "'g rng \<Rightarrow> 'g \<Rightarrow> real \<Rightarrow> (real \<times> 'g) result" where
  "generate_exponential R g lambd =
     bindE (py_uniform_call R g [])
       (\<lambda>(u, g'). if 1 - u \<le> 0 then Inl ValueError
                 else if lambd = 0 then Inl ZeroDivisionError
                 else Inr (ln (1 - u) / - lambd, g'))"

text \<open>\<^verbatim>\<open>1 if random.uniform() < p else 0\<close>\<close>

definition generate_bernoulli :: "'g rng \<Rightarrow> 'g \<Rightarrow> real \<Rightarrow> (nat \<times> 'g) result" where
  "generate_bernoulli R g p =
     bindE (py_uniform_call R g []) (\<lambda>(u, g'). Inr (if u < p then 1 else 0, g'))"

text \<open>The \<^verbatim>\<open>while True\<close> loop of \<^verbatim>\<open>generate_poisson\<close>, from \<^verbatim>\<open>k\<close> and
  \<^verbatim>\<open>p\<close>: \<^verbatim>\<open>k += 1; p *= random.uniform(0, 1); if p <= L: return k - 1\<close>.\<close>

partial_function (option) poisson_loop ::
  "'g rng \<Rightarrow> real \<Rightarrow> nat \<Rightarrow> real \<Rightarrow> 'g \<Rightarrow> (nat \<times> 'g) result option" where
  "poisson_loop R L k p g =
     (case py_uniform_call R g [0, 1] of
        Inl e \<Rightarrow> Some (Inl e)
      | Inr (u, g') \<Rightarrow>
          (let k' = k + 1; p' = p * u
           in if p' \<le> L then Some (Inr (k' - 1, g')) else poisson_loop R L k' p' g'))"

definition generate_poisson :: "'g rng \<Rightarrow> 'g \<Rightarrow> real \<Rightarrow> (nat \<times> 'g) result option" where
  "generate_poisson R g lambd = poisson_loop R (exp (- lambd)) 0 1 g"

text \<open>Reference for Knuth's method: the first \<open>n\<close> draws of \<^verbatim>\<open>uniform(0, 1)\<close>.\<close>

primrec draws :: "'g rng \<Rightarrow> nat \<Rightarrow> 'g \<Rightarrow> real list \<times> 'g" where
  "draws R 0 g = ([], g)"
| "draws R (Suc n) g =
     (case uniform R g 0 1 of (u, g') \<Rightarrow> (case draws R n g' of (us, g'') \<Rightarrow> (u # us, g'')))"

text \<open>Knuth's count: \<open>m\<close> is returned, ending in state \<open>g'\<close>, when the running product
  of the first \<open>m + 1\<close> draws, started at \<open>p\<close>, is the first to reach \<open>L\<close> or below.\<close>

definition knuth_count :: "'g rng \<Rightarrow> real \<Rightarrow> real \<Rightarrow> 'g \<Rightarrow> nat \<Rightarrow> 'g \<Rightarrow> bool" where
  "knuth_count R L p g m g' =
     (case draws R (Suc m) g of (us, g'') \<Rightarrow>
        p * prod_list us \<le> L \<and> list_all (\<lambda>j. L < p * prod_list (take j us)) [1..<Suc m] \<and> g' = g'')"

section \<open>The simulation\<close>

text \<open>\<^verbatim>\<open>class EventType(Enum): ASIGNED = 1; ARRIVAL = 2; FINISH = 3\<close>: the values
  the simulation writes as literals.\<close>

primrec reg_event_value :: "event_type \<Rightarrow> nat" where
  "reg_event_value ASIGNED = 1"
| "reg_event_value ARRIVAL = 2"
| "reg_event_value FINISH = 3"

type_synonym reg_event = "real \<times> nat \<times> nat \<times> nat"

text \<open>The local state of \<^verbatim>\<open>simulation(n, lambda_arrival_time, lambda_wait_time)\<close>:
  \<^verbatim>\<open>a[i][c]\<close> and \<^verbatim>\<open>d[i][c]\<close> hold one time per client (the last one written).\<close>

record 'g reg_state =
  reg_t :: real
  reg_events :: "reg_event list"
  reg_n_a :: nat
  reg_n_d :: nat
  reg_a :: "(nat \<rightharpoonup> real) list"
  reg_d :: "(nat \<rightharpoonup> real) list"
  reg_queue :: "nat list list"
  reg_gen :: 'g

definition reg_init :: "nat \<Rightarrow> 'g \<Rightarrow> 'g reg_state" where
  "reg_init n g = \<lparr>reg_t = 0, reg_events = [], reg_n_a = 0, reg_n_d = 0,
                   reg_a = replicate n Map.empty, reg_d = replicate n Map.empty,
                   reg_queue = replicate n [], reg_gen = g\<rparr>"

text \<open>The \<^verbatim>\<open>e == 1\<close> branch (a client joins the FIFO of station \<open>i\<close>).\<close>

definition reg_assigned :: "real \<Rightarrow> nat \<Rightarrow> nat \<Rightarrow> 'g reg_state \<Rightarrow> 'g reg_state result" where
  "reg_assigned t c i s =
     bindE (py_index (reg_queue s) i) (\<lambda>qi.
       let idx = (if i \<noteq> 0 then c else reg_n_a s);
           s1 = (if qi = [] then s\<lparr>reg_events := pq_put (t, 2, idx, i) (reg_events s)\<rparr> else s)
       in bindE (py_modify (reg_queue s1) i (\<lambda>q. q @ [idx])) (\<lambda>qs.
            Inr (s1\<lparr>reg_queue := qs, reg_n_a := (if i = 0 then reg_n_a s1 + 1 else reg_n_a s1)\<rparr>)))"

text \<open>The \<^verbatim>\<open>e == 2\<close> branch (service starts); \<open>E\<close> draws the duration.\<close>

definition reg_arrival ::
  "('g \<Rightarrow> real \<Rightarrow> (real \<times> 'g) result) \<Rightarrow> real \<Rightarrow> real \<Rightarrow> nat \<Rightarrow> nat \<Rightarrow> 'g reg_state \<Rightarrow>
   'g reg_state result" where
  "reg_arrival E lw t c i s =
     bindE (py_modify (reg_a s) i (\<lambda>m. m(c \<mapsto> t))) (\<lambda>as.
       bindE (E (reg_gen s) lw) (\<lambda>(dur, g').
         Inr (s\<lparr>reg_a := as, reg_gen := g', reg_events := pq_put (t + dur, 3, c, i) (reg_events s)\<rparr>)))"

text \<open>The \<^verbatim>\<open>e == 3\<close> branch (service ends): pop the FIFO, start the next client,
  record the departure, count it at the last station or pass the client on.\<close>

definition reg_finish :: "nat \<Rightarrow> real \<Rightarrow> nat \<Rightarrow> nat \<Rightarrow> 'g reg_state \<Rightarrow> 'g reg_state result" where
  "reg_finish n t c i s =
     bindE (py_index (reg_queue s) i) (\<lambda>qi.
       let qi' = (if qi \<noteq> [] then tl qi else qi);
           s1 = s\<lparr>reg_queue := (reg_queue s)[i := qi']\<rparr>;
           s2 = (if qi' \<noteq> [] then s1\<lparr>reg_events := pq_put (t, 2, hd qi', i) (reg_events s1)\<rparr> else s1)
       in bindE (py_modify (reg_d s2) i (\<lambda>m. m(c \<mapsto> t))) (\<lambda>ds.
            let s3 = s2\<lparr>reg_d := ds\<rparr>
            in if int i = int n - 1 then Inr (s3\<lparr>reg_n_d := reg_n_d s3 + 1\<rparr>)
               else Inr (s3\<lparr>reg_events := pq_put (t, 1, c, i + 1) (reg_events s3)\<rparr>)))"

text \<open>One iteration of \<^verbatim>\<open>while(t < 864)\<close>: an external arrival is drawn and queued
  on every iteration, then the least event is taken and dispatched on its kind.\<close>

definition reg_step ::
  "('g \<Rightarrow> real \<Rightarrow> (real \<times> 'g) result) \<Rightarrow> nat \<Rightarrow> real \<Rightarrow> real \<Rightarrow> 'g reg_state \<Rightarrow>
   'g reg_state result" where
  "reg_step E n la lw s =
     bindE (E (reg_gen s) la) (\<lambda>(x, g1).
       bindE (pq_get (pq_put (reg_t s + x, 1, 0, 0) (reg_events s))) (\<lambda>((t, e, c, i), es).
         let s1 = s\<lparr>reg_t := t, reg_events := es, reg_gen := g1\<rparr>
         in if e = 1 then reg_assigned t c i s1
            else if e = 2 then reg_arrival E lw t c i s1
            else if e = 3 then reg_finish n t c i s1
            else Inr s1))"

fun reg_loop ::
  "('g \<Rightarrow> real \<Rightarrow> (real \<times> 'g) result) \<Rightarrow> nat \<Rightarrow> real \<Rightarrow> real \<Rightarrow> nat \<Rightarrow> 'g reg_state \<Rightarrow>
   'g reg_state result option" where
  "reg_loop E n la lw 0 s = (if reg_t s < 864 then None else Some (Inr s))"
| "reg_loop E n la lw (Suc k) s =
     (if reg_t s < 864
      then (case reg_step E n la lw s of Inl e \<Rightarrow> Some (Inl e) | Inr s' \<Rightarrow> reg_loop E n la lw k s')
      else Some (Inr s))"

text \<open>The pending external arrivals \<^verbatim>\<open>(t, 1, 0, 0)\<close> (kind 1 at station 0).\<close>

definition ext_arrival :: "reg_event \<Rightarrow> bool" where
  "ext_arrival ev = (case ev of (t, e, c, i) \<Rightarrow> e = 1 \<and> i = 0)"

definition ext_arrivals :: "reg_event list \<Rightarrow> nat" where
  "ext_arrivals es = length (filter ext_arrival es)"

text \<open>\<^verbatim>\<open>simulation(n, lambda_arrival_time, lambda_wait_time)\<close> returns
  \<^verbatim>\<open>None\<close>; \<open>k\<close> is the fuel of its loop.\<close>

definition simulation :: "'g rng \<Rightarrow> nat \<Rightarrow> real \<Rightarrow> real \<Rightarrow> nat \<Rightarrow> 'g \<Rightarrow> unit result option" where
  "simulation R n la lw k g =
     map_option (map_sum id (\<lambda>_. ())) (reg_loop (generate_exponential R) n la lw k (reg_init n g))"


section \<open>The generators\<close>

lemma py_uniform_call_no_args [simp]: "py_uniform_call R g [] = Inl TypeError"
  by (simp add: py_uniform_call_def)

lemma py_uniform_call_01 [simp]: "py_uniform_call R g [0, 1] = Inr (uniform R g 0 1)"
  by (simp add: py_uniform_call_def)

lemma poisson_loop_step:
  "poisson_loop R L k p g =
     (case uniform R g 0 1 of (u, g') \<Rightarrow>
        if p * u \<le> L then Some (Inr (k, g')) else poisson_loop R L (k + 1) (p * u) g')"
  by (subst poisson_loop.simps) (simp add: Let_def split: prod.split)

lemma knuth_count_0:
  "knuth_count R L p g 0 g' \<longleftrightarrow> (case uniform R g 0 1 of (u, g1) \<Rightarrow> p * u \<le> L \<and> g' = g1)"
  by (simp add: knuth_count_def split: prod.split)

lemma list_all_upt_Suc:
  "list_all P [1..<Suc (Suc m)] \<longleftrightarrow> P 1 \<and> list_all (\<lambda>j. P (Suc j)) [1..<Suc m]"
proof -
  have "[1..<Suc (Suc m)] = 1 # map Suc [1..<Suc m]"
    by (simp add: upt_conv_Cons map_Suc_upt)
  then show ?thesis by (simp add: list.pred_map comp_def)
qed

lemma knuth_count_Suc:
  "knuth_count R L p g (Suc m) g' \<longleftrightarrow>
     (case uniform R g 0 1 of (u, g1) \<Rightarrow> L < p * u \<and> knuth_count R L (p * u) g1 m g')"
proof -
  obtain u g1 where u: "uniform R g 0 1 = (u, g1)" by fastforce
  obtain us g'' where d: "draws R (Suc m) g1 = (us, g'')" by fastforce
  have dd: "draws R (Suc (Suc m)) g = (u # us, g'')"
    using u d by (simp only: draws.simps(2) prod.case)
  have "list_all (\<lambda>j. L < p * prod_list (take j (u # us))) [1..<Suc (Suc m)] \<longleftrightarrow>
        L < p * u \<and> list_all (\<lambda>j. L < p * u * prod_list (take j us)) [1..<Suc m]"
    by (simp only: list_all_upt_Suc) (simp add: mult.assoc)
  moreover have "knuth_count R L p g (Suc m) g' \<longleftrightarrow>
      p * prod_list (u # us) \<le> L \<and> list_all (\<lambda>j. L < p * prod_list (take j (u # us))) [1..<Suc (Suc m)] \<and> g' = g''"
    by (simp only: knuth_count_def dd prod.case)
  moreover have "knuth_count R L (p * u) g1 m g' \<longleftrightarrow>
      p * u * prod_list us \<le> L \<and> list_all (\<lambda>j. L < p * u * prod_list (take j us)) [1..<Suc m] \<and> g' = g''"
    by (simp only: knuth_count_def d prod.case)
  ultimately show ?thesis using u by (auto simp: mult.assoc)
qed

lemma knuth_count_poisson_loop:
  "knuth_count R L p g m g' \<Longrightarrow> poisson_loop R L k p g = Some (Inr (k + m, g'))"
proof (induction m arbitrary: k p g)
  case 0
  then show ?case by (subst poisson_loop_step) (simp add: knuth_count_0 split: prod.splits)
next
  case (Suc m)
  obtain u g1 where u: "uniform R g 0 1 = (u, g1)" by fastforce
  with Suc.prems have "L < p * u" and kc: "knuth_count R L (p * u) g1 m g'"
    by (simp_all add: knuth_count_Suc)
  with Suc.IH [OF kc, of "k + 1"] u show ?case by (subst poisson_loop_step) simp
qed

lemma poisson_loop_knuth_count:
  assumes "poisson_loop R L k p g = Some y"
  shows "\<forall>r g'. y = Inr (r, g') \<longrightarrow> k \<le> r \<and> knuth_count R L p g (r - k) g'"
  using assms
proof (induction R L k p g y rule: poisson_loop.raw_induct)
  case (1 f R L k p g y)
  obtain u g1 where u: "uniform R g 0 1 = (u, g1)" by fastforce
  show ?case
  proof (cases "p * u \<le> L")
    case True
    with "1"(2) u show ?thesis by (auto simp: Let_def knuth_count_0)
  next
    case False
    with "1"(2) u have rec: "f R L (k + 1) (p * u) g1 = Some y" by (simp add: Let_def)
    show ?thesis
    proof (intro allI impI)
      fix r g' assume y: "y = Inr (r, g')"
      have rec': "poisson_loop R L (k + 1) (p * u) g1 = Some y"
        using "1.prems" False u by (subst (asm) poisson_loop_step) simp
      from "1"(1) [OF rec rec'] y have "k + 1 \<le> r" and kc: "knuth_count R L (p * u) g1 (r - (k + 1)) g'"
        by auto
      then have "r - k = Suc (r - (k + 1))" by simp
      with kc False u show "k \<le> r \<and> knuth_count R L p g (r - k) g'"
        by (simp add: knuth_count_Suc)
    qed
  qed
qed (fact assms)

text \<open>Termination of Knuth's loop: if every draw lies in \<open>[0, q]\<close> with \<open>q < 1\<close>,
  the running product falls by a factor \<open>q\<close> at least per draw, so it reaches \<open>L\<close>
  after at most \<open>N\<close> more draws once \<open>p q\<^sup>N \<le> L\<close>.\<close>

lemma poisson_loop_returns:
  assumes u: "\<forall>g. 0 \<le> fst (rand_float R g) \<and> fst (rand_float R g) \<le> q" and q: "q < 1"
  shows "0 \<le> p \<Longrightarrow> p * q ^ N \<le> L \<Longrightarrow> \<exists>m g'. poisson_loop R L k p g = Some (Inr (m, g'))"
proof (induction N arbitrary: k p g)
  case 0
  obtain v g1 where r: "rand_float R g = (v, g1)" by fastforce
  with u have v: "0 \<le> v" "v \<le> q" by (metis fst_conv)+
  have "p * v \<le> p * 1" using 0 v q by (intro mult_left_mono) simp_all
  with 0 have "p * v \<le> L" by simp
  with r show ?case by (subst poisson_loop_step) (simp add: uniform_def)
next
  case (Suc N)
  obtain v g1 where r: "rand_float R g = (v, g1)" by fastforce
  with u have v: "0 \<le> v" "v \<le> q" by (metis fst_conv)+
  show ?case
  proof (cases "p * v \<le> L")
    case True
    with r show ?thesis by (subst poisson_loop_step) (simp add: uniform_def)
  next
    case False
    have "p * v * q ^ N \<le> p * q * q ^ N"
      using v Suc.prems(1) by (intro mult_right_mono mult_left_mono) simp_all
    also have "\<dots> \<le> L" using Suc.prems(2) by (simp add: mult.assoc)
    finally have "\<exists>m g'. poisson_loop R L (k + 1) (p * v) g1 = Some (Inr (m, g'))"
      using Suc.IH [of "p * v"] v Suc.prems(1) by simp
    with r False show ?thesis by (subst poisson_loop_step) (simp add: uniform_def)
  qed
qed

section \<open>Facts on the simulation\<close>

text \<open>The explicit values of the variant's enum are those \<^verbatim>\<open>auto()\<close> gives the main
  notebook's, so the integer kinds are ordered as the main notebook's events.\<close>

lemma reg_event_value_eq: "reg_event_value = event_value"
proof
  fix e show "reg_event_value e = event_value e" by (cases e) simp_all
qed

lemma length_filter_insort:
  "length (filter P (insort x xs)) = length (filter P xs) + (if P x then 1 else 0)"
  by (induction xs) auto

lemma ext_arrivals_put [simp]:
  "ext_arrivals (pq_put x es) = ext_arrivals es + (if ext_arrival x then 1 else 0)"
  by (simp add: ext_arrivals_def pq_put_def length_filter_insort)

lemma ext_arrival_simps [simp]: "ext_arrival (t, e, c, i) \<longleftrightarrow> e = 1 \<and> i = 0"
  by (simp add: ext_arrival_def)

lemma reg_assigned_ext:
  "reg_assigned t c i s = Inr s' \<Longrightarrow> ext_arrivals (reg_events s') = ext_arrivals (reg_events s)"
  by (auto simp: reg_assigned_def Let_def split: if_splits)

lemma reg_arrival_ext:
  "reg_arrival E lw t c i s = Inr s' \<Longrightarrow> ext_arrivals (reg_events s') = ext_arrivals (reg_events s)"
  by (auto simp: reg_arrival_def split: prod.splits)

lemma reg_finish_ext:
  "reg_finish n t c i s = Inr s' \<Longrightarrow> ext_arrivals (reg_events s') = ext_arrivals (reg_events s)"
  by (auto simp: reg_finish_def Let_def split: if_splits)

lemma pq_get_ext:
  "pq_get es = Inr (x, es') \<Longrightarrow> ext_arrivals es = ext_arrivals es' + (if ext_arrival x then 1 else 0)"
  by (auto simp: pq_get_def ext_arrivals_def split: list.splits)


lemma reg_dispatch_ext:
  assumes "(if e = 1 then reg_assigned t c i s1 else if e = 2 then reg_arrival E lw t c i s1
            else if e = 3 then reg_finish n t c i s1 else Inr s1) = Inr s'"
  shows "ext_arrivals (reg_events s') = ext_arrivals (reg_events s1)"
  using assms reg_assigned_ext reg_arrival_ext reg_finish_ext by (auto split: if_splits)

section \<open>Properties of the regression notebook\<close>

text \<open>C19: both generators that call \<^verbatim>\<open>random.uniform()\<close> without arguments
  raise \<^verbatim>\<open>TypeError\<close>, for every rate, probability and generator state.\<close>

theorem generators_type_error:
  "generate_exponential R g lambd = Inl TypeError \<and> generate_bernoulli R g p = Inl TypeError"
  by (simp add: generate_exponential_def generate_bernoulli_def)

text \<open>C20: consequently \<^verbatim>\<open>simulation\<close> raises \<^verbatim>\<open>TypeError\<close> on the first
  iteration of its loop, for every network size and rates: the clock starts at
  \<open>0 < 864\<close> and the first statement of the body draws an inter-arrival time.\<close>

theorem simulation_type_error:
  assumes "0 < k"
  shows "simulation R n la lw k g = Some (Inl TypeError)"
proof -
  obtain k' where k: "k = Suc k'" using assms by (cases k) auto
  show ?thesis
    by (simp add: k simulation_def reg_init_def reg_step_def generate_exponential_def)
qed

text \<open>C21: \<^verbatim>\<open>generate_poisson\<close> is Knuth's method: it returns \<open>k\<close> exactly when
  the product of the first \<open>k + 1\<close> draws of \<^verbatim>\<open>uniform(0, 1)\<close> is at most
  \<open>e\<^sup>-\<^sup>\<lambda>\<close> and the products of the first \<open>1, ..., k\<close> draws are above it, and it
  leaves the generator after those \<open>k + 1\<close> draws.\<close>

theorem generate_poisson_knuth:
  "generate_poisson R g lambd = Some (Inr (k, g')) \<longleftrightarrow> knuth_count R (exp (- lambd)) 1 g k g'"
proof
  assume "generate_poisson R g lambd = Some (Inr (k, g'))"
  from poisson_loop_knuth_count [OF this [unfolded generate_poisson_def]]
  show "knuth_count R (exp (- lambd)) 1 g k g'" by simp
next
  assume "knuth_count R (exp (- lambd)) 1 g k g'"
  from knuth_count_poisson_loop [OF this, of 0] show "generate_poisson R g lambd = Some (Inr (k, g'))"
    by (simp add: generate_poisson_def)
qed

text \<open>C22: \<^verbatim>\<open>generate_poisson\<close> returns, for every rate, whenever the draws of
  \<^verbatim>\<open>random.uniform(0, 1)\<close> stay in \<open>[0, q]\<close> for some \<open>q < 1\<close>: the product
  \<^verbatim>\<open>p\<close> shrinks geometrically below \<open>e\<^sup>-\<^sup>\<lambda> > 0\<close>.\<close>

theorem generate_poisson_returns:
  assumes "\<forall>g. 0 \<le> fst (rand_float R g) \<and> fst (rand_float R g) \<le> q" and "q < 1"
  shows "\<exists>k g'. generate_poisson R g lambd = Some (Inr (k, g'))"
proof -
  have "0 \<le> q" using assms(1) by (meson order_trans)
  obtain N where "q ^ N < exp (- lambd)" using real_arch_pow_inv [OF exp_gt_zero assms(2)] by blast
  then have "1 * q ^ N \<le> exp (- lambd)" by simp
  from poisson_loop_returns [OF assms, of 1 N "exp (- lambd)" 0 g] this show ?thesis
    by (simp add: generate_poisson_def)
qed

text \<open>C23: every iteration of the simulation loop schedules one external arrival,
  whatever event it then processes: the number of pending external arrivals grows by
  one, less the one taken if the processed event is itself an external arrival. So
  arrivals are generated once per event, not at rate \<open>\<lambda>\<close>.\<close>

theorem reg_step_schedules_arrival:
  assumes "reg_step E n la lw s = Inr s'"
    and "E (reg_gen s) la = Inr (x, g1)"
    and "pq_get (pq_put (reg_t s + x, 1, 0, 0) (reg_events s)) = Inr (ev, es)"
  shows "ext_arrivals (reg_events s') + (if ext_arrival ev then 1 else 0) = ext_arrivals (reg_events s) + 1"
proof -
  obtain t e c i where ev: "ev = (t, e, c, i)" by (cases ev) auto
  let ?s1 = "s\<lparr>reg_t := t, reg_events := es, reg_gen := g1\<rparr>"
  from assms ev have "(if e = 1 then reg_assigned t c i ?s1 else if e = 2 then reg_arrival E lw t c i ?s1
            else if e = 3 then reg_finish n t c i ?s1 else Inr ?s1) = Inr s'"
    by (simp add: reg_step_def Let_def)
  from reg_dispatch_ext [OF this] have "ext_arrivals (reg_events s') = ext_arrivals es" by simp
  with pq_get_ext [OF assms(3)] show ?thesis by simp
qed

end
