(* ===== verification/Regression_Invariant.thy ===== *)
theory Regression_Invariant
  imports Regression
begin

text \<open>
  A state invariant of the regression notebook's \<^verbatim>\<open>simulation\<close> loop: the
  per-station lists have one entry per station and every pending event names a station
  that exists. It holds initially and after every iteration, whatever the exponential
  generator; with a generator that never fails and at least one station, no iteration
  raises, so the loop ends only by its guard (or runs out of fuel).
\<close>

definition reg_inv :: "nat \<Rightarrow> 'g reg_state \<Rightarrow> bool" where
  "reg_inv n s \<longleftrightarrow>
     length (reg_queue s) = n \<and> length (reg_a s) = n \<and> length (reg_d s) = n \<and>
     list_all (\<lambda>(t, e, c, i). i < n) (reg_events s)"

section \<open>Preservation by the three branches\<close>

lemma list_all_pq_put [simp]: "list_all P (pq_put x es) \<longleftrightarrow> P x \<and> list_all P es"
  by (auto simp: list_all_iff)

lemma reg_inv_init: "reg_inv n (reg_init n g)"
  by (simp add: reg_inv_def reg_init_def)

lemma reg_assigned_inv:
  "reg_assigned t c i s = Inr s' \<Longrightarrow> reg_inv n s \<Longrightarrow> reg_inv n s'"
  by (auto simp: reg_assigned_def reg_inv_def Let_def split: if_splits)

lemma reg_arrival_inv:
  "reg_arrival E lw t c i s = Inr s' \<Longrightarrow> i < n \<Longrightarrow> reg_inv n s \<Longrightarrow> reg_inv n s'"
  by (auto simp: reg_arrival_def reg_inv_def split: prod.splits)

lemma reg_finish_inv:
  assumes "reg_finish n t c i s = Inr s'" and "i < n" and "reg_inv n s"
  shows "reg_inv n s'"
proof -
  have "int i \<noteq> int n - 1 \<Longrightarrow> i + 1 < n" using assms(2) by linarith
  with assms show ?thesis
    by (auto simp: reg_finish_def reg_inv_def Let_def split: if_splits)
qed

lemma reg_popped_station:
  assumes "reg_inv n s" and "0 < n"
    and "pq_get (pq_put (reg_t s + x, 1, 0, 0) (reg_events s)) = Inr ((t, e, c, i), es)"
  shows "i < n \<and> list_all (\<lambda>(t, e, c, i). i < n) es"
proof -
  from assms(3) have eq: "pq_put (reg_t s + x, 1, 0, 0) (reg_events s) = (t, e, c, i) # es"
    by (simp add: pq_get_Inr_iff)
  have "list_all (\<lambda>(t, e, c, i). i < n) (pq_put (reg_t s + x, 1, 0, 0) (reg_events s))"
    using assms(1,2) by (simp add: reg_inv_def)
  then show ?thesis by (simp only: eq) simp
qed

section \<open>No error with a working generator\<close>

lemma reg_assigned_ok:
  "i < n \<Longrightarrow> reg_inv n s \<Longrightarrow> \<exists>s'. reg_assigned t c i s = Inr s'"
  by (auto simp: reg_assigned_def reg_inv_def Let_def)

lemma reg_arrival_ok:
  "\<forall>g l. \<exists>x g'. E g l = Inr (x, g') \<Longrightarrow> i < n \<Longrightarrow> reg_inv n s \<Longrightarrow>
   \<exists>s'. reg_arrival E lw t c i s = Inr s'"
  by (fastforce simp: reg_arrival_def reg_inv_def)

lemma reg_finish_ok:
  "i < n \<Longrightarrow> reg_inv n s \<Longrightarrow> \<exists>s'. reg_finish n t c i s = Inr s'"
  by (auto simp: reg_finish_def reg_inv_def Let_def)

lemma reg_step_ok:
  assumes E: "\<forall>g l. \<exists>x g'. E g l = Inr (x, g')" and "0 < n" and "reg_inv n s"
  shows "\<exists>s'. reg_step E n la lw s = Inr s'"
proof -
  obtain x g1 where x: "E (reg_gen s) la = Inr (x, g1)" using E by blast
  obtain t e c i es where get: "pq_get (pq_put (reg_t s + x, 1, 0, 0) (reg_events s)) = Inr ((t, e, c, i), es)"
    by (cases "pq_put (reg_t s + x, 1, 0, 0) (reg_events s)") auto
  let ?s1 = "s\<lparr>reg_t := t, reg_events := es, reg_gen := g1\<rparr>"
  have i: "i < n" using reg_popped_station [OF assms(3,2) get] by simp
  have inv1: "reg_inv n ?s1" using assms(3) reg_popped_station [OF assms(3,2) get]
    by (simp add: reg_inv_def)
  have "\<exists>s'. (if e = 1 then reg_assigned t c i ?s1 else if e = 2 then reg_arrival E lw t c i ?s1
            else if e = 3 then reg_finish n t c i ?s1 else Inr ?s1) = Inr s'"
    using reg_assigned_ok [OF i inv1] reg_arrival_ok [OF E i inv1] reg_finish_ok [OF i inv1] by auto
  with x get show ?thesis by (simp add: reg_step_def Let_def)
qed

lemma reg_step_dispatch:
  assumes "0 < n" and "reg_inv n s" and "reg_step E n la lw s = Inr s'"
  obtains t e c i s1 where "i < n" "reg_inv n s1"
    "(if (e::nat) = 1 then reg_assigned t c i s1 else if e = 2 then reg_arrival E lw t c i s1
      else if e = 3 then reg_finish n t c i s1 else Inr s1) = Inr s'"
proof -
  from assms(3) obtain x g1 where x: "E (reg_gen s) la = Inr (x, g1)"
    by (auto simp: reg_step_def split: prod.splits)
  obtain t e c i es where get: "pq_get (pq_put (reg_t s + x, 1, 0, 0) (reg_events s)) = Inr ((t, e, c, i), es)"
    by (cases "pq_put (reg_t s + x, 1, 0, 0) (reg_events s)") auto
  let ?s1 = "s\<lparr>reg_t := t, reg_events := es, reg_gen := g1\<rparr>"
  have i: "i < n" using reg_popped_station [OF assms(2,1) get] by simp
  have inv1: "reg_inv n ?s1" using assms(2) reg_popped_station [OF assms(2,1) get]
    by (simp add: reg_inv_def)
  from assms(3) x get have "(if e = 1 then reg_assigned t c i ?s1 else if e = 2 then reg_arrival E lw t c i ?s1
            else if e = 3 then reg_finish n t c i ?s1 else Inr ?s1) = Inr s'"
    by (simp add: reg_step_def Let_def)
  with i inv1 that show ?thesis by blast
qed

lemma reg_dispatch_inv:
  "i < n \<Longrightarrow> reg_inv n s1 \<Longrightarrow>
   (if (e::nat) = 1 then reg_assigned t c i s1 else if e = 2 then reg_arrival E lw t c i s1
    else if e = 3 then reg_finish n t c i s1 else Inr s1) = Inr s' \<Longrightarrow> reg_inv n s'"
  by (auto split: if_splits dest: reg_assigned_inv reg_arrival_inv reg_finish_inv)

section \<open>Properties\<close>

text \<open>C25: every iteration of the regression loop keeps the invariant: one queue,
  one \<^verbatim>\<open>a\<close> and one \<^verbatim>\<open>d\<close> dictionary per station, and every pending event at a
  station below \<open>n\<close> (for \<open>n \<ge> 1\<close>, whatever the exponential generator).\<close>

theorem reg_step_inv:
  assumes "0 < n" and "reg_inv n s" and "reg_step E n la lw s = Inr s'"
  shows "reg_inv n s'"
proof -
  obtain t e c i s1 where "i < n" "reg_inv n s1"
    and "(if (e::nat) = 1 then reg_assigned t c i s1 else if e = 2 then reg_arrival E lw t c i s1
          else if e = 3 then reg_finish n t c i s1 else Inr s1) = Inr s'"
    by (rule reg_step_dispatch [OF assms])
  then show ?thesis by (rule reg_dispatch_inv)
qed

text \<open>C26: with an exponential generator that never fails (the notebook's own one
  always does, C20) and at least one station, the regression loop never raises: it
  stops at its guard \<^verbatim>\<open>t < 864\<close> or runs out of fuel.\<close>

theorem reg_loop_no_error:
  assumes E: "\<forall>g l. \<exists>x g'. E g l = Inr (x, g')" and n: "0 < n"
  shows "reg_loop E n la lw k (reg_init n g) \<noteq> Some (Inl e)"
proof -
  have "reg_inv n s \<Longrightarrow> reg_loop E n la lw k s \<noteq> Some (Inl e)" for s
  proof (induction k arbitrary: s)
    case 0
    then show ?case by simp
  next
    case (Suc k)
    obtain s' where st: "reg_step E n la lw s = Inr s'" using reg_step_ok [OF E n Suc.prems] by blast
    obtain t' e' c' i' s1 where "i' < n" "reg_inv n s1"
      and "(if (e'::nat) = 1 then reg_assigned t' c' i' s1 else if e' = 2 then reg_arrival E lw t' c' i' s1
            else if e' = 3 then reg_finish n t' c' i' s1 else Inr s1) = Inr s'"
      by (rule reg_step_dispatch [OF n Suc.prems st])
    then have "reg_inv n s'" by (rule reg_dispatch_inv)
    then have "reg_loop E n la lw k s' \<noteq> Some (Inl e)" by (rule Suc.IH)
    with st show ?case by simp
  qed
  from this [OF reg_inv_init] show ?thesis .
qed

end
