(* ===== verification/Regression_Counting.thy ===== *)
theory Regression_Counting
  imports Regression_Invariant
begin

text \<open>
  Client accounting in the regression notebook's \<^verbatim>\<open>simulation\<close> loop. Kind 1 events
  at a station \<open>i > 0\<close> are clients in transit between stations; kind 2 and kind 3
  events are service events. The invariant says that every pending event has one of
  the three kinds, that a station has one service event exactly when its FIFO is not
  empty, and that \<^verbatim>\<open>n_a\<close> counts each client once: as departed (\<^verbatim>\<open>n_d\<close>), queued,
  or in transit. External arrivals (kind 1 at station 0) are not yet counted.
\<close>

definition in_service :: "nat \<Rightarrow> reg_event list \<Rightarrow> nat" where
  "in_service i es = length (filter (\<lambda>(t, e, c, j). j = i \<and> (e = 2 \<or> e = 3)) es)"

definition in_transit :: "reg_event list \<Rightarrow> nat" where
  "in_transit es = length (filter (\<lambda>(t, e, c, j). e = 1 \<and> j \<noteq> 0) es)"

definition reg_count_inv :: "nat \<Rightarrow> 'g reg_state \<Rightarrow> bool" where
  "reg_count_inv n s \<longleftrightarrow> reg_inv n s \<and>
     list_all (\<lambda>(t, e, c, i). e \<in> {1, 2, 3}) (reg_events s) \<and>
     (\<forall>i<n. in_service i (reg_events s) = (if reg_queue s ! i = [] then 0 else 1)) \<and>
     reg_n_a s = reg_n_d s + sum_list (map length (reg_queue s)) + in_transit (reg_events s)"

section \<open>Counting lemmas\<close>

lemma length_filter_pq_put [simp]:
  "length (filter P (pq_put x es)) = (if P x then Suc (length (filter P es)) else length (filter P es))"
proof -
  have "length (filter P (pq_put x es)) = size (filter_mset P (mset (pq_put x es)))"
    by (metis mset_filter size_mset)
  also have "\<dots> = size (filter_mset P (add_mset x (mset es)))" by simp
  also have "\<dots> = (if P x then Suc (length (filter P es)) else length (filter P es))"
    by (simp flip: mset_filter)
  finally show ?thesis .
qed

lemma in_service_Cons [simp]:
  "in_service j ((t, e, c, i) # es) = (if i = j \<and> (e = 2 \<or> e = 3) then Suc (in_service j es) else in_service j es)"
  by (simp add: in_service_def)

lemma in_transit_Cons [simp]:
  "in_transit ((t, e, c, i) # es) = (if e = 1 \<and> i \<noteq> 0 then Suc (in_transit es) else in_transit es)"
  by (simp add: in_transit_def)

lemma in_service_pq_put [simp]:
  "in_service j (pq_put (t, e, c, i) es) = (if i = j \<and> (e = 2 \<or> e = 3) then Suc (in_service j es) else in_service j es)"
  by (simp add: in_service_def)

lemma in_transit_pq_put [simp]:
  "in_transit (pq_put (t, e, c, i) es) = (if e = 1 \<and> i \<noteq> 0 then Suc (in_transit es) else in_transit es)"
  by (simp add: in_transit_def)

lemma reg_count_inv_init: "reg_count_inv n (reg_init n g)"
  by (simp add: reg_count_inv_def reg_inv_def reg_init_def in_service_def in_transit_def)

section \<open>Preservation by the three branches\<close>

text \<open>Each branch is entered with the popped event still counted: the invariant holds
  of the state with the event put back in front of the queue.\<close>

lemma reg_assigned_count_inv:
  assumes inv: "reg_count_inv n (s\<lparr>reg_events := (t, 1, c, i) # reg_events s\<rparr>)"
    and st: "reg_assigned t c i s = Inr s'"
  shows "reg_count_inv n s'"
proof -
  let ?q = "reg_queue s ! i"
  let ?idx = "if i \<noteq> 0 then c else reg_n_a s"
  have i: "i < n" and len: "length (reg_queue s) = n"
    using inv by (simp_all add: reg_count_inv_def reg_inv_def)
  have ev: "reg_events s' = (if ?q = [] then pq_put (t, 2, ?idx, i) (reg_events s) else reg_events s)"
    and qs: "reg_queue s' = (reg_queue s)[i := ?q @ [?idx]]"
    and na: "reg_n_a s' = (if i = 0 then Suc (reg_n_a s) else reg_n_a s)"
    and nd: "reg_n_d s' = reg_n_d s"
    and ad: "reg_a s' = reg_a s" "reg_d s' = reg_d s"
    using st by (auto simp: reg_assigned_def Let_def split: if_splits)
  have sum: "sum_list (map length (reg_queue s')) = Suc (sum_list (map length (reg_queue s)))"
    using sum_list_map_update [of i "reg_queue s" length "?q @ [?idx]"] i len qs by simp
  have lq: "length (reg_queue s') = n" using qs len by simp
  have qn: "j < n \<Longrightarrow> reg_queue s' ! j = (if j = i then ?q @ [?idx] else reg_queue s ! j)" for j
    using qs len by (simp add: nth_list_update_if)
  show ?thesis
    using inv i len unfolding reg_count_inv_def reg_inv_def
    by (simp add: ev lq qn na nd ad sum)
qed

lemma reg_arrival_count_inv:
  assumes inv: "reg_count_inv n (s\<lparr>reg_events := (t, 2, c, i) # reg_events s\<rparr>)"
    and st: "reg_arrival E lw t c i s = Inr s'"
  shows "reg_count_inv n s'"
proof -
  have i: "i < n" using inv by (simp add: reg_count_inv_def reg_inv_def)
  from st obtain dur g' where
    ev: "reg_events s' = pq_put (t + dur, 3, c, i) (reg_events s)"
    and rest: "reg_queue s' = reg_queue s" "reg_n_a s' = reg_n_a s" "reg_n_d s' = reg_n_d s"
      "length (reg_a s') = length (reg_a s)" "reg_d s' = reg_d s"
    by (auto simp: reg_arrival_def split: prod.splits)
  show ?thesis
    using inv i unfolding reg_count_inv_def reg_inv_def
    by (simp add: ev rest)
qed

lemma reg_finish_count_inv:
  assumes inv: "reg_count_inv n (s\<lparr>reg_events := (t, 3, c, i) # reg_events s\<rparr>)"
    and st: "reg_finish n t c i s = Inr s'"
  shows "reg_count_inv n s'"
proof -
  let ?q = "reg_queue s ! i"
  have i: "i < n" and len: "length (reg_queue s) = n"
    using inv by (simp_all add: reg_count_inv_def reg_inv_def)
  have "\<forall>j<n. in_service j ((t, 3, c, i) # reg_events s) = (if reg_queue s ! j = [] then 0 else 1)"
    using inv unfolding reg_count_inv_def by (simp del: in_service_Cons)
  then have "in_service i ((t, 3, c, i) # reg_events s) = (if ?q = [] then 0 else 1)"
    using i by blast
  then have busy: "?q \<noteq> []" "in_service i (reg_events s) = 0"
    by (simp_all split: if_splits)
  let ?es2 = "if tl ?q \<noteq> [] then pq_put (t, 2, hd (tl ?q), i) (reg_events s) else reg_events s"
  have last: "int i = int n - 1 \<Longrightarrow> reg_events s' = ?es2"
      "int i = int n - 1 \<Longrightarrow> reg_n_d s' = Suc (reg_n_d s)"
    and next_: "int i \<noteq> int n - 1 \<Longrightarrow> reg_events s' = pq_put (t, 1, c, i + 1) ?es2"
      "int i \<noteq> int n - 1 \<Longrightarrow> reg_n_d s' = reg_n_d s"
    and qs: "reg_queue s' = (reg_queue s)[i := tl ?q]"
    and rest: "reg_n_a s' = reg_n_a s" "reg_a s' = reg_a s" "length (reg_d s') = length (reg_d s)"
    using st i busy(1) by (auto simp: reg_finish_def Let_def split: if_splits)
  have u: "sum_list (map length ((reg_queue s)[i := tl ?q])) + length ?q =
           sum_list (map length (reg_queue s)) + length (tl ?q)"
    by (rule sum_list_map_update) (simp add: i len)
  have "length (tl ?q) + 1 = length ?q" using busy(1) by (cases ?q) simp_all
  with u have sum: "Suc (sum_list (map length (reg_queue s'))) = sum_list (map length (reg_queue s))"
    by (simp only: qs)
  have lq: "length (reg_queue s') = n" using qs len by simp
  have qn: "j < n \<Longrightarrow> reg_queue s' ! j = (if j = i then tl ?q else reg_queue s ! j)" for j
    using qs len by (simp add: nth_list_update_if)
  show ?thesis
  proof (cases "int i = int n - 1")
    case True
    then show ?thesis
      using inv i busy unfolding reg_count_inv_def reg_inv_def
      by (simp add: last [OF True] lq qn rest sum [symmetric]) (auto split: if_splits)
  next
    case False
    have "i + 1 < n" using False i by linarith
    with inv i busy show ?thesis unfolding reg_count_inv_def reg_inv_def
    by (simp add: next_ [OF False] lq qn rest sum [symmetric]) (auto split: if_splits)
  qed
qed

section \<open>Preservation by an iteration and by the loop\<close>

lemma reg_count_inv_ext_arrival:
  "reg_count_inv n s \<Longrightarrow> 0 < n \<Longrightarrow>
   reg_count_inv n (s\<lparr>reg_t := t', reg_gen := g1, reg_events := pq_put (x, 1, 0, 0) (reg_events s)\<rparr>)"
  by (simp add: reg_count_inv_def reg_inv_def)

lemma reg_step_count_inv:
  assumes inv: "reg_count_inv n s" and n: "0 < n" and st: "reg_step E n la lw s = Inr s'"
  shows "reg_count_inv n s'"
proof -
  from st obtain x g1 where x: "E (reg_gen s) la = Inr (x, g1)"
    by (auto simp: reg_step_def split: prod.splits)
  obtain t e c i es where get: "pq_put (reg_t s + x, 1, 0, 0) (reg_events s) = (t, e, c, i) # es"
    by (cases "pq_put (reg_t s + x, 1, 0, 0) (reg_events s)") auto
  let ?s1 = "s\<lparr>reg_t := t, reg_events := es, reg_gen := g1\<rparr>"
  have "reg_count_inv n (s\<lparr>reg_t := t, reg_gen := g1, reg_events := pq_put (reg_t s + x, 1, 0, 0) (reg_events s)\<rparr>)"
    by (rule reg_count_inv_ext_arrival [OF inv n])
  then have inv1: "reg_count_inv n (?s1\<lparr>reg_events := (t, e, c, i) # reg_events ?s1\<rparr>)"
    by (simp only: get) simp
  then have e: "e = 1 \<or> e = 2 \<or> e = 3" by (simp add: reg_count_inv_def)
  from st x get have br: "(if e = 1 then reg_assigned t c i ?s1 else if e = 2 then reg_arrival E lw t c i ?s1
            else if e = 3 then reg_finish n t c i ?s1 else Inr ?s1) = Inr s'"
    by (simp add: reg_step_def Let_def)
  from e show ?thesis
  proof (elim disjE)
    assume e1: "e = 1"
    with br have "reg_assigned t c i ?s1 = Inr s'" by simp
    from reg_assigned_count_inv [OF inv1 [unfolded e1] this] show ?thesis .
  next
    assume e2: "e = 2"
    with br have "reg_arrival E lw t c i ?s1 = Inr s'" by simp
    from reg_arrival_count_inv [OF inv1 [unfolded e2] this] show ?thesis .
  next
    assume e3: "e = 3"
    with br have "reg_finish n t c i ?s1 = Inr s'" by simp
    from reg_finish_count_inv [OF inv1 [unfolded e3] this] show ?thesis .
  qed
qed

lemma reg_loop_count_inv:
  "reg_count_inv n s \<Longrightarrow> 0 < n \<Longrightarrow> reg_loop E n la lw k s = Some (Inr s') \<Longrightarrow> reg_count_inv n s'"
proof (induction k arbitrary: s)
  case 0
  then show ?case by (simp split: if_splits)
next
  case (Suc k)
  show ?case
  proof (cases "reg_t s < 864")
    case True
    with Suc.prems(3) obtain s1 where st: "reg_step E n la lw s = Inr s1"
      and lp: "reg_loop E n la lw k s1 = Some (Inr s')"
      by (auto split: sum.splits)
    have "reg_count_inv n s1" by (rule reg_step_count_inv [OF Suc.prems(1,2) st])
    from Suc.IH [OF this Suc.prems(2) lp] show ?thesis .
  next
    case False
    with Suc.prems show ?thesis by simp
  qed
qed

section \<open>Properties\<close>

text \<open>C28: in the regression loop (run with an exponential generator that returns, the
  notebook's own one raising, C20) every client counted by \<^verbatim>\<open>n_a\<close> at station 0 is,
  when the loop ends, either departed (\<^verbatim>\<open>n_d\<close>), in one of the FIFOs, or in transit
  to its next station as a pending kind 1 event: no client is lost or counted twice.\<close>

theorem reg_loop_client_accounting:
  assumes "0 < n" and "reg_loop E n la lw k (reg_init n g) = Some (Inr s)"
  shows "reg_n_a s = reg_n_d s + sum_list (map length (reg_queue s)) + in_transit (reg_events s)"
proof -
  have "reg_count_inv n s" by (rule reg_loop_count_inv [OF reg_count_inv_init assms])
  then show ?thesis by (simp add: reg_count_inv_def)
qed

text \<open>C29: when the regression loop ends, each station has exactly one pending service
  event (kind 2 or 3) if its FIFO is not empty and none if it is: the station serves
  one client at a time, the head of its queue.\<close>

theorem reg_loop_single_service:
  assumes "0 < n" and "reg_loop E n la lw k (reg_init n g) = Some (Inr s)"
  shows "\<forall>i<n. in_service i (reg_events s) = (if reg_queue s ! i = [] then 0 else 1)"
proof -
  have "reg_count_inv n s" by (rule reg_loop_count_inv [OF reg_count_inv_init assms])
  then show ?thesis by (simp add: reg_count_inv_def)
qed

end
