(* ===== verification/Spec2Isabelle.thy ===== *)
theory Spec2Isabelle
  imports Experiments Trace_Recorder Regression_Counting
begin

text \<open>
  \<^bold>\<open>A verification development for the tandem-queue simulator of
  \<^verbatim>\<open>src/sim.ipynb\<close> (and its earlier variant \<^verbatim>\<open>src/servers_regression.ipynb\<close>).\<close>

  \<^bold>\<open>The program.\<close> \<^verbatim>\<open>servers_simulation(time, n, lambda_arrival_time,
  mu_wait_time, p, finish)\<close> is a discrete-event simulation of \<open>n\<close> stations in series
  with feedback. Its parts: an event clock (a \<^verbatim>\<open>queue.PriorityQueue\<close> of tuples
  \<^verbatim>\<open>(t, (e, c, i))\<close> ordered by time, then by \<^verbatim>\<open>EventType\<close>); per-station FIFO
  lists \<^verbatim>\<open>queue\<close>; per-station timestamp dictionaries \<^verbatim>\<open>q\<close> (queue entry),
  \<^verbatim>\<open>a\<close> (service start) and \<^verbatim>\<open>d\<close> (departure); counters \<^verbatim>\<open>n_a\<close>,
  \<^verbatim>\<open>n_d\<close>; and three handlers, for \<^verbatim>\<open>ASIGNED\<close> (a client joins a station),
  \<^verbatim>\<open>ARRIVAL\<close> (its service starts) and \<^verbatim>\<open>FINISH\<close> (it leaves and is routed).
  All randomness comes from Python's global \<^verbatim>\<open>random\<close> generator.
  \<^verbatim>\<open>metrics_by_simulation\<close> reduces one run to per-station means and
  \<^verbatim>\<open>run_simulation\<close> repeats runs until a convergence rule stops it.

  \<^bold>\<open>Theories.\<close>
  \<^item> \<open>Prelude\<close>: Python exceptions as the datatype \<open>py_error\<close>, the error monad
    \<open>bindE\<close> on \<open>py_error + 'a\<close>, checked list indexing (\<open>py_index\<close>,
    \<open>py_modify\<close>) and the \<^verbatim>\<open>d.get(k, list())\<close>/append idiom (\<open>dict_get_list\<close>,
    \<open>dict_append\<close>) on \<open>trace = nat \<rightharpoonup> real list\<close>.
  \<^item> \<open>Random_Source\<close>: the generator as an explicit state \<open>'g\<close> with the primitives
    \<^verbatim>\<open>random()\<close> and \<^verbatim>\<open>_randbelow(m)\<close> (record \<open>'g rng\<close>);
    \<open>expovariate\<close>, \<open>uniform\<close> and \<open>choice\<close> written as CPython 3.12 defines them
    (library code, modelled from its definition); the contract \<open>rng_ok\<close>; and
    \<open>replay_rng\<close>, a generator replaying fixed draws, used for concrete runs.
  \<^item> \<open>Event_Queue\<close>: \<^verbatim>\<open>EventType\<close> as the datatype \<open>event_type\<close> with a
    \<open>linorder\<close> instance following \<^verbatim>\<open>__lt__\<close> (\<open>event_lt\<close>); events as
    \<open>real \<times> event_type \<times> nat \<times> nat\<close> under \<open>Product_Lexorder\<close>; the
    priority queue as a sorted list (\<open>pq_put\<close> = \<open>insort\<close>, \<open>pq_get\<close> = head); the
    dispatch order of events due at the same time (\<open>pq_dispatch_order\<close>).
  \<^item> \<open>Simulation\<close>: arguments as the record \<open>sim_config\<close>, local state as the record
    \<open>'g sim_state\<close>; \<open>sim_init\<close>, \<open>handle_asigned\<close>, \<open>handle_arrival\<close>,
    \<open>next_server\<close> (the routing expression), \<open>handle_finish\<close>, \<open>sim_step\<close> (one
    loop iteration), \<open>loop_guard\<close>, \<open>sim_loop\<close> (the \<^verbatim>\<open>while\<close> loop, with
    fuel), \<open>run_servers\<close> and \<open>servers_simulation\<close> (the whole function, returning
    the tuple \<^verbatim>\<open>(t, n, n_a, n_d, q, a, d)\<close> and the final generator state).
    Every \<^verbatim>\<open>IndexError\<close>, \<^verbatim>\<open>ZeroDivisionError\<close> and \<^verbatim>\<open>ValueError\<close>
    the code can raise is an \<open>Inl\<close> value.
  \<^item> \<open>Sim_Invariants\<close>: the state invariant \<open>sim_inv\<close> (list shapes, station bounds,
    one client in service per station, timestamp-list lengths, counters), its
    preservation by each handler, the reachable states \<open>reachable\<close> (an inductive
    relation: the initial state and every state one loop iteration leads to), the clock
    invariant, the valid configurations \<open>cfg_ok\<close>, and the run-level properties.
  \<^item> \<open>Trace_Recorder\<close>: what each handler writes into \<^verbatim>\<open>q\<close>, \<^verbatim>\<open>a\<close> and
    \<^verbatim>\<open>d\<close>, and the round trip of one iteration: the time it records reads back at
    exactly one (station, client) entry.
  \<^item> \<open>Metrics\<close>: \<^verbatim>\<open>class Metrics\<close> as the record \<open>metrics\<close> and
    \<^verbatim>\<open>metrics_by_simulation\<close>: the two nested \<^verbatim>\<open>for\<close> loops as folds
    (\<open>station_update\<close>, \<open>client_update\<close> with its three \<^verbatim>\<open>continue\<close>s),
    \<^verbatim>\<open>np.mean\<close> with \<^verbatim>\<open>nan\<close> as \<open>None\<close> (\<open>np_mean\<close>, \<open>np_mean_nan\<close>). Its lemmas
    give the shape of the result and the closed form of each system-time entry
    (\<open>served\<close>, \<open>sys_delta\<close>).
  \<^item> \<open>Replication\<close>: \<^verbatim>\<open>run_simulation\<close>: \<^verbatim>\<open>np.var\<close>, \<^verbatim>\<open>np.std\<close>, the test
    \<open>converged\<close>, the \<^verbatim>\<open>while True\<close> loop \<open>conv_loop\<close> over any run function
    (a terminating \<open>function\<close>, measure \<open>max_iterations - iterations\<close>) and
    \<open>run_simulation\<close> with the constants 1000, 5000 and 0.001. Its lemmas: the
    stopping rule (\<open>conv_loop_spec\<close>), totality, absence of errors, the specification's
    stop-at-minimum test, the effect of one \<^verbatim>\<open>nan\<close> sample, and the bounds of the
    reported system-time mean and variance when every run's mean lies in an interval
    (\<open>np_var_bound\<close>).
  \<^item> \<open>Experiments\<close>: the six experiment cells (\<open>experiment1\<close> ... \<open>experiment6\<close>,
    \<open>cell1\<close> ... \<open>cell6\<close>, \<open>result_rows\<close>) and the fact that none of them raises.
  \<^item> \<open>Regression\<close>: \<^verbatim>\<open>src/servers_regression.ipynb\<close>: \<open>generate_exponential\<close>,
    \<open>generate_bernoulli\<close> (both call \<^verbatim>\<open>random.uniform()\<close>, \<open>py_uniform_call\<close>
    checks its arity), \<open>generate_poisson\<close> (Knuth's loop \<open>poisson_loop\<close>, a
    \<open>partial_function (option)\<close>, proved equal to the reference \<open>knuth_count\<close> over
    the draws \<open>draws\<close>, and proved to return when the draws stay below some
    \<open>q < 1\<close>), and \<open>simulation\<close>: the state \<open>'g reg_state\<close>, the three
    branches \<open>reg_assigned\<close>, \<open>reg_arrival\<close>, \<open>reg_finish\<close>, the iteration
    \<open>reg_step\<close> over any exponential generator, and \<open>reg_loop\<close> with fuel.
  \<^item> \<open>Regression_Invariant\<close>: the invariant \<open>reg_inv\<close> of the regression loop (one list
    entry per station, every pending event at an existing station), its preservation,
    and the absence of errors when the exponential generator is replaced by one that
    never fails.
  \<^item> \<open>Regression_Counting\<close>: client accounting in the regression loop
    (\<open>reg_count_inv\<close>): every pending event has kind 1, 2 or 3; a station has one
    pending service event (\<open>in_service\<close>, kinds 2 and 3) exactly when its FIFO is not
    empty; and \<^verbatim>\<open>n_a\<close> equals \<^verbatim>\<open>n_d\<close> plus the queued clients plus the clients in
    transit (\<open>in_transit\<close>, kind 1 events at a station \<open>> 0\<close>). Each branch preserves
    it when entered with the popped event still counted, hence every iteration and the
    loop.
  \<^item> This theory: concrete scenarios, the witnesses, and the properties that show where
    the code departs from its specification (no validation of the rates, renumbering at
    station 0), with two concrete runs that show the size of two of these effects
    (\<open>feedback_inflates_arrivals\<close>, \<open>drained_negative_system_time\<close>).

  \<^bold>\<open>How the parts interact.\<close> \<open>servers_simulation\<close> runs \<open>sim_step\<close>
  (dispatching to the three handlers, which draw from \<open>Random_Source\<close> and use the
  queue of \<open>Event_Queue\<close>); \<open>metrics_by_simulation\<close> reduces its output;
  \<open>conv_loop\<close> is applied to \<open>metrics_by_simulation\<close> with the generator state
  threaded from one replication to the next; each experiment cell calls
  \<open>run_simulation\<close>. The composed property \<open>run_simulation_no_error\<close> rests on
  \<open>run_servers_no_error\<close> of \<open>Sim_Invariants\<close>.

  \<^bold>\<open>Fuel.\<close> The \<^verbatim>\<open>while\<close> loop need not end (a generator may keep drawing
  gaps of 0, or feedback may loop for ever), so \<open>sim_loop\<close> takes fuel and answers
  \<open>None\<close> when it runs out with the guard still true. The properties are stated for
  every fuel (\<open>sim_loop_more_fuel\<close> of \<open>Simulation\<close> shows that more fuel never
  changes a returned result), and \<open>servers_simulation_zero_horizon\<close> shows a case where
  the loop returns for every fuel. Each replication of \<open>run_simulation\<close> gets the same fuel; the
  replication loop itself needs none, it always ends. \<open>poisson_loop\<close> may not return
  for a stream of draws whose products stay above \<open>e\<^sup>-\<^sup>\<lambda>\<close>; it returns whenever
  every draw lies in \<open>[0, q]\<close> with \<open>q < 1\<close> (\<open>generate_poisson_returns\<close>). The
  regression \<open>reg_loop\<close> takes fuel like \<open>sim_loop\<close>.
  The concrete runs use fuel 40 (they need fewer iterations).

  \<^bold>\<open>Abstractions.\<close> Python floats are reals (no rounding); numpy's \<^verbatim>\<open>nan\<close> is
  \<open>None\<close> of \<open>real option\<close> where the code can produce it. Python integers
  are \<open>nat\<close>/\<open>int\<close>. The heap of \<^verbatim>\<open>PriorityQueue\<close> is modelled by its observable
  behaviour, a sorted list, which is exact because the tuple order is total.
  \<^verbatim>\<open>PriorityQueue.get()\<close> on an empty queue (it would block) is \<open>EmptyQueue\<close>; the
  loop guard prevents it.

  \<^bold>\<open>Not modelled.\<close> The \<^verbatim>\<open>tabulate\<close> printing of the experiment cells and the
  markdown cells (output only); the \<^verbatim>\<open>import\<close> lines; the statement
  \<^verbatim>\<open>processing[s] + 1\<close> of \<^verbatim>\<open>metrics_by_simulation\<close>, which has no effect.
\<close>

section \<open>Concrete scenarios\<close>

text \<open>Two stations, drained, every draw \<open>1 - e\<^sup>-\<^sup>1\<close> (so every gap and every
  service takes one time unit); two clients arrive before the horizon 3.\<close>

definition cfgA :: sim_config where
  "cfgA = \<lparr>time = 3, n_srv = 2, lambda_arrival_time = 1, mu_wait_time = [1, 1],
           p_back = [0, 1/2], finish = True\<rparr>"

definition gA :: replay where
  "gA = (replicate 12 (1 - exp (-1)), [])"

text \<open>The same network with a horizon of 1.5 and no draining: the loop stops with a
  client in service.\<close>

definition cfgB :: sim_config where
  "cfgB = cfgA\<lparr>time := 1.5, finish := False\<rparr>"

definition cfg_none :: sim_config where
  "cfg_none = cfgA\<lparr>n_srv := 0, mu_wait_time := [], p_back := []\<rparr>"

definition cfg_horizon0 :: sim_config where
  "cfg_horizon0 = cfgA\<lparr>time := 0, finish := False\<rparr>"

text \<open>Three stations, no feedback probability anywhere.\<close>

definition cfg_nofb :: sim_config where
  "cfg_nofb = \<lparr>time = 7, n_srv = 3, lambda_arrival_time = 1, mu_wait_time = [1, 1, 1],
               p_back = [0, 0, 0], finish = False\<rparr>"

text \<open>The same with every client leaving station 1 sent back to station 0.\<close>

definition cfg_fb :: sim_config where
  "cfg_fb = cfg_nofb\<lparr>p_back := [0, 1, 0]\<rparr>"

definition g_fb :: replay where
  "g_fb = (replicate 60 (1 - exp (-1)), replicate 20 0)"

text \<open>A negative arrival rate, which the code does not reject.\<close>

definition cfg_neg :: sim_config where
  "cfg_neg = cfgA\<lparr>lambda_arrival_time := -1\<rparr>"

text \<open>Three stations, drained, horizon 2, and a feedback probability of one half at
  station 1: the only client is sent back once (its fifth draw is 0) and leaves the
  network at time 6 under a new number.\<close>

definition cfgM :: sim_config where
  "cfgM = \<lparr>time = 2, n_srv = 3, lambda_arrival_time = 1, mu_wait_time = [1, 1, 1],
           p_back = [0, 1/2, 0], finish = True\<rparr>"

definition gM :: replay where
  "gM = ([1 - exp (-1), 1 - exp (-1), 1 - exp (-1), 1 - exp (-1), 0] @ replicate 30 (1 - exp (-1)), [])"

text \<open>The trace of that run, written out.\<close>

definition outM :: sim_output where
  "outM = (6, 3, 2, 1, [[0 \<mapsto> [1], 1 \<mapsto> [3]], [0 \<mapsto> [2], 1 \<mapsto> [4]], [1 \<mapsto> [5]]],
                       [[0 \<mapsto> [1], 1 \<mapsto> [3]], [0 \<mapsto> [2], 1 \<mapsto> [4]], [1 \<mapsto> [5]]],
                       [[0 \<mapsto> [2], 1 \<mapsto> [4]], [0 \<mapsto> [3], 1 \<mapsto> [5]], [1 \<mapsto> [6]]])"

text \<open>A replication that always returns the same metrics: mean system time 2.\<close>

definition m_const :: metrics where
  "m_const = \<lparr>m_time = 3, m_n_d = 1, wait_time = [Some 1], use_time = [Some 1], system_time = [2]\<rparr>"

definition sim_const :: "nat \<Rightarrow> (metrics \<times> nat) result option" where
  "sim_const g = Some (Inr (m_const, g + 1))"

text \<open>A state of the regression notebook's loop with one pending service start, and
  an exponential generator that always returns 1.\<close>

definition reg_s0 :: "unit reg_state" where
  "reg_s0 = (reg_init 2 ())\<lparr>reg_events := [(0, 2, 0, 0)], reg_queue := [[0], []]\<rparr>"

definition exp_one :: "unit \<Rightarrow> real \<Rightarrow> (real \<times> unit) result" where
  "exp_one g l = Inr (1, g)"

text \<open>An exponential generator that always returns 1000: the first iteration of the
  regression loop admits one client at time 1000, past the guard \<open>t < 864\<close>.\<close>

definition exp_big :: "unit \<Rightarrow> real \<Rightarrow> (real \<times> unit) result" where
  "exp_big g l = Inr (1000, g)"

definition reg_end :: "unit reg_state" where
  "reg_end = (reg_init 1 ())\<lparr>reg_t := 1000, reg_events := [(1000, 2, 0, 0)], reg_n_a := 1,
                             reg_queue := [[0]]\<rparr>"

text \<open>A generator whose \<^verbatim>\<open>random()\<close> always returns 1/2.\<close>

definition half_rng :: "unit rng" where
  "half_rng = \<lparr>rand_float = (\<lambda>g. (1 / 2, g)), rand_below = (\<lambda>g m. (0, g))\<rparr>"

text \<open>Network \<open>cfgA\<close> with a service rate of 0 at station 0.\<close>

definition cfg_mu0 :: sim_config where
  "cfg_mu0 = cfgA\<lparr>mu_wait_time := [0, 1]\<rparr>"

section \<open>Witnesses of the simulator's properties\<close>

lemma runA:
  "\<exists>t n na nd q a d g'. servers_simulation replay_rng cfgA 40 gA = Some (Inr ((t, n, na, nd, q, a, d), g'))
     \<and> n = 2 \<and> na = 2 \<and> nd = 2"
  by (simp add: sim_eval_simps cfgA_def gA_def numeral_eq_Suc)

lemma cfgA_ok: "cfg_ok cfgA"
  by (simp add: cfg_ok_def cfgA_def)

theorem servers_simulation_trace_lengths_witness:
  "\<exists>t n na nd q a d g'. servers_simulation replay_rng cfgA 40 gA = Some (Inr ((t, n, na, nd, q, a, d), g'))
     \<and> 0 < n_srv cfgA \<and> 1 < n \<and>
     length (dict_get_list (d ! 1) 1) \<le> length (dict_get_list (a ! 1) 1) \<and>
     length (dict_get_list (a ! 1) 1) \<le> length (dict_get_list (q ! 1) 1)"
proof -
  obtain t n na nd q a d g' where r: "servers_simulation replay_rng cfgA 40 gA = Some (Inr ((t, n, na, nd, q, a, d), g'))"
    and n: "n = 2" using runA by blast
  have pos: "0 < n_srv cfgA" by (simp add: cfgA_def)
  from servers_simulation_trace_lengths [OF pos r, of 1 1] r n pos show ?thesis by auto
qed

theorem servers_simulation_no_error_witness:
  "rng_ok replay_rng \<and> cfg_ok cfgA \<and> servers_simulation replay_rng cfgA 40 gA \<noteq> Some (Inl IndexError)"
  using servers_simulation_no_error [OF replay_rng_ok cfgA_ok] replay_rng_ok cfgA_ok by blast

theorem servers_simulation_departures_le_arrivals_witness:
  "\<exists>t n na nd q a d g'. servers_simulation replay_rng cfgA 40 gA = Some (Inr ((t, n, na, nd, q, a, d), g'))
     \<and> 0 < n_srv cfgA \<and> nd \<le> na"
proof -
  obtain t n na nd q a d g' where r: "servers_simulation replay_rng cfgA 40 gA = Some (Inr ((t, n, na, nd, q, a, d), g'))"
    using runA by blast
  have pos: "0 < n_srv cfgA" by (simp add: cfgA_def)
  from servers_simulation_departures_le_arrivals [OF pos r] r pos show ?thesis by blast
qed

theorem servers_simulation_drained_witness:
  "\<exists>t n na nd q a d g'. servers_simulation replay_rng cfgA 40 gA = Some (Inr ((t, n, na, nd, q, a, d), g'))
     \<and> finish cfgA \<and> 0 < n_srv cfgA \<and> 0 < n \<and>
     length (dict_get_list (q ! 0) 1) = length (dict_get_list (d ! 0) 1) \<and>
     length (dict_get_list (a ! 0) 1) = length (dict_get_list (d ! 0) 1)"
proof -
  obtain t n na nd q a d g' where r: "servers_simulation replay_rng cfgA 40 gA = Some (Inr ((t, n, na, nd, q, a, d), g'))"
    and n: "n = 2" using runA by blast
  have pos: "0 < n_srv cfgA" and fin: "finish cfgA" by (simp_all add: cfgA_def)
  from servers_simulation_drained [OF fin pos r, of 0 1] r n pos fin show ?thesis by auto
qed

lemma runB:
  "\<exists>s s'. run_servers replay_rng cfgB 10 gA = Some (Inr s) \<and> events s \<noteq> [] \<and>
          sim_step replay_rng cfgB s = Inr s'"
  by (simp add: sim_eval_simps cfgB_def cfgA_def gA_def numeral_eq_Suc)

theorem reachable_single_service_witness:
  "\<exists>s. reachable replay_rng cfgB gA s \<and> events s \<noteq> [] \<and> 0 < n_srv cfgB \<and>
       size (filter_mset (\<lambda>e. ev_station e = 0 \<and> ev_kind e \<noteq> ASIGNED) (mset (events s))) \<le> 1 \<and>
       (\<forall>e \<in> set (events s). ev_station e = 0 \<and> ev_kind e \<noteq> ASIGNED \<longrightarrow>
           queue s ! 0 \<noteq> [] \<and> ev_client e = hd (queue s ! 0))"
proof -
  obtain s s' where r: "run_servers replay_rng cfgB 10 gA = Some (Inr s)" and ne: "events s \<noteq> []"
    using runB by blast
  from r have reach: "reachable replay_rng cfgB gA s" by (simp add: run_servers_reachable)
  have pos: "0 < n_srv cfgB" by (simp add: cfgB_def cfgA_def)
  from reachable_single_service [OF reach pos pos] reach ne pos show ?thesis by blast
qed

theorem reachable_clock_monotone_witness:
  "\<exists>s s'. reachable replay_rng cfgB gA s \<and> rng_ok replay_rng \<and> cfg_ok cfgB \<and>
          sim_step replay_rng cfgB s = Inr s' \<and>
          sim_t s \<le> sim_t s' \<and> (\<forall>e \<in> set (events s'). sim_t s' \<le> ev_time e)"
proof -
  obtain s s' where r: "run_servers replay_rng cfgB 10 gA = Some (Inr s)"
    and st: "sim_step replay_rng cfgB s = Inr s'"
    using runB by blast
  from r have reach: "reachable replay_rng cfgB gA s" by (simp add: run_servers_reachable)
  have ok: "cfg_ok cfgB" by (simp add: cfg_ok_def cfgB_def cfgA_def)
  from reachable_clock_monotone [OF reach replay_rng_ok ok st] reach replay_rng_ok ok st
  show ?thesis by blast
qed

theorem next_server_destination_witness:
  "next_server replay_rng cfgA 1 ([3/4], []) = Inr (2, ([], [])) \<and> 0 < (1::nat) \<and>
   (if p_back cfgA ! 1 < fst (uniform replay_rng ([3/4], []) 0 1)
    then (2::nat) = Suc 1 else 2 < (1::nat))"
proof -
  have ns: "next_server replay_rng cfgA 1 ([3/4], []) = Inr (2, ([], []))"
    by (simp add: next_server_def uniform_def cfgA_def)
  from next_server_destination [OF ns] ns show ?thesis by simp
qed

theorem servers_simulation_no_station_witness:
  "n_srv cfg_none = 0 \<and> rng_ok replay_rng \<and> lambda_arrival_time cfg_none \<noteq> 0 \<and>
   (finish cfg_none \<or> 0 < time cfg_none) \<and>
   servers_simulation replay_rng cfg_none (Suc 0) gA = Some (Inl IndexError)"
proof -
  have h: "n_srv cfg_none = 0" "lambda_arrival_time cfg_none \<noteq> 0" "finish cfg_none \<or> 0 < time cfg_none"
    by (simp_all add: cfg_none_def cfgA_def)
  from servers_simulation_no_station [OF h(1) replay_rng_ok h(2,3), of 0 gA] h replay_rng_ok
  show ?thesis by blast
qed

theorem servers_simulation_zero_horizon_witness:
  "\<not> finish cfg_horizon0 \<and> time cfg_horizon0 \<le> 0 \<and> rng_ok replay_rng \<and>
   lambda_arrival_time cfg_horizon0 \<noteq> 0 \<and>
   (\<exists>g'. servers_simulation replay_rng cfg_horizon0 5 gA =
      Some (Inr ((0, 2, 0, 0, replicate 2 Map.empty, replicate 2 Map.empty, replicate 2 Map.empty), g')))"
proof -
  have h: "\<not> finish cfg_horizon0" "time cfg_horizon0 \<le> 0" "lambda_arrival_time cfg_horizon0 \<noteq> 0"
    and n: "n_srv cfg_horizon0 = 2"
    by (simp_all add: cfg_horizon0_def cfgA_def)
  from servers_simulation_zero_horizon [OF h(1,2) replay_rng_ok h(3), of 5 gA] h n replay_rng_ok
  show ?thesis by simp
qed

theorem pq_dispatch_order_witness:
  "sorted [(2::real, ASIGNED, 0::nat, 0::nat)] \<and> (1::real) < ev_time (2::real, ASIGNED, 0::nat, 0::nat) \<and>
   mset [(1::real, FINISH, 0::nat, 1::nat), (1, ASIGNED, 7, 0), (1, ARRIVAL, 3, 2)] =
     {#(1, ASIGNED, 7, 0), (1, ARRIVAL, 3, 2), (1, FINISH, 0, 1)#} \<and>
   fold pq_put [(1::real, FINISH, 0::nat, 1::nat), (1, ASIGNED, 7, 0), (1, ARRIVAL, 3, 2)] [(2, ASIGNED, 0, 0)] =
     [(1, ASIGNED, 7, 0), (1, ARRIVAL, 3, 2), (1, FINISH, 0, 1), (2, ASIGNED, 0, 0)]"
proof -
  have h: "sorted [(2::real, ASIGNED, 0::nat, 0::nat)]"
    "\<forall>ev\<in>set [(2::real, ASIGNED, 0::nat, 0::nat)]. 1 < ev_time ev"
    "mset [(1::real, FINISH, 0::nat, 1::nat), (1, ASIGNED, 7, 0), (1, ARRIVAL, 3, 2)] =
       {#(1, ASIGNED, 7, 0), (1, ARRIVAL, 3, 2), (1, FINISH, 0, 1)#}"
    by (simp_all add: ev_time_def)
  from Event_Queue.pq_dispatch_order [OF h] h show ?thesis by simp
qed

section \<open>Witnesses of the metrics' properties\<close>

lemma runM:
  "\<exists>t n na nd q a d g'. servers_simulation replay_rng cfgM 40 gM = Some (Inr ((t, n, na, nd, q, a, d), g'))
     \<and> n = 3 \<and> na = 2 \<and> nd = 1 \<and> q ! 0 = [0 \<mapsto> [1], 1 \<mapsto> [3]] \<and> a ! 0 = [0 \<mapsto> [1], 1 \<mapsto> [3]]
     \<and> d ! 0 = [0 \<mapsto> [2], 1 \<mapsto> [4]] \<and> q ! 2 = [1 \<mapsto> [5]] \<and> a ! 2 = [1 \<mapsto> [5]] \<and> d ! 2 = [1 \<mapsto> [6]]"
  by (simp add: sim_eval_simps cfgM_def gM_def numeral_eq_Suc exp_minus_one_lt_half
                dict_append_def dict_get_list_def)

theorem metrics_by_simulation_shape_witness:
  "\<exists>m g'. metrics_by_simulation replay_rng cfgM 40 gM = Some (Inr (m, g')) \<and> 0 < n_srv cfgM \<and>
     length (wait_time m) = 3 \<and> length (use_time m) = 3 \<and> m_n_d m \<le> length (system_time m)"
proof -
  obtain t n na nd q a d g' where r: "servers_simulation replay_rng cfgM 40 gM = Some (Inr ((t, n, na, nd, q, a, d), g'))"
    using runM by blast
  then have m: "metrics_by_simulation replay_rng cfgM 40 gM = Some (Inr (metrics_of_output (t, n, na, nd, q, a, d), g'))"
    by (simp add: Metrics.metrics_by_simulation_Inr)
  have pos: "0 < n_srv cfgM" and n3: "n_srv cfgM = 3" by (simp_all add: cfgM_def)
  from Metrics.metrics_by_simulation_shape [OF pos m] m pos n3 show ?thesis by auto
qed

theorem metrics_system_time_witness:
  "0 < (2::nat) \<and> 0 < (3::nat) \<and> system_time (metrics_of_output outM) ! 0 = -1"
  using Metrics.metrics_system_time [of 0 2 3 6 1 "[[0 \<mapsto> [1], 1 \<mapsto> [3]], [0 \<mapsto> [2], 1 \<mapsto> [4]], [1 \<mapsto> [5]]]"
      "[[0 \<mapsto> [1], 1 \<mapsto> [3]], [0 \<mapsto> [2], 1 \<mapsto> [4]], [1 \<mapsto> [5]]]"
      "[[0 \<mapsto> [2], 1 \<mapsto> [4]], [0 \<mapsto> [3], 1 \<mapsto> [5]], [1 \<mapsto> [6]]]"]
  by (simp add: outM_def served_def dict_get_list_def)

section \<open>Witnesses of the controller's properties\<close>

text \<open>With a horizon of 0 every replication returns at once, with no client and hence
  no system time to average.\<close>

lemma horizon0_metrics:
  "\<forall>g. \<exists>m g'. metrics_by_simulation replay_rng cfg_horizon0 5 g = Some (Inr (m, g')) \<and>
             system_time m = []"
proof
  fix g
  obtain x g1 where e: "expovariate replay_rng g (lambda_arrival_time cfg_horizon0) = Inr (x, g1)"
    using expovariate_ok [OF replay_rng_ok, of "lambda_arrival_time cfg_horizon0" g]
    by (auto simp: cfg_horizon0_def cfgA_def)
  let ?out = "(0::real, 2::nat, 0::nat, 0::nat, replicate 2 Map.empty, replicate 2 Map.empty,
               replicate 2 Map.empty)"
  have "servers_simulation replay_rng cfg_horizon0 5 g = Some (Inr (?out, g1))"
    using e by (simp add: servers_simulation_def run_servers_def sim_init_def loop_guard_def
                          sim_output_def cfg_horizon0_def cfgA_def numeral_eq_Suc)
  then have "metrics_by_simulation replay_rng cfg_horizon0 5 g = Some (Inr (metrics_of_output ?out, g1))"
    by (simp add: metrics_by_simulation_def)
  moreover have "system_time (metrics_of_output ?out) = []"
    using Metrics.metrics_of_output_fields [of 0 2 0 0] by simp
  ultimately show "\<exists>m g'. metrics_by_simulation replay_rng cfg_horizon0 5 g = Some (Inr (m, g')) \<and>
             system_time m = []" by blast
qed

lemma horizon0_servers_total:
  "\<forall>g. \<exists>out g'. servers_simulation replay_rng cfg_horizon0 5 g = Some (Inr (out, g'))"
proof
  fix g
  from horizon0_metrics obtain m g' where "metrics_by_simulation replay_rng cfg_horizon0 5 g = Some (Inr (m, g'))"
    by blast
  then show "\<exists>out g'. servers_simulation replay_rng cfg_horizon0 5 g = Some (Inr (out, g'))"
    by (auto simp: Metrics.metrics_by_simulation_Inr)
qed

lemma horizon0_loop:
  "\<exists>st wt ut g'. conv_loop (metrics_by_simulation replay_rng cfg_horizon0 5) 1000 5000 (1 / 1000) 0
      ([], [], []) gA = Some (Inr ((st, wt, ut), g')) \<and> None \<in> set st"
proof -
  have tot: "\<forall>g. \<exists>m g'. metrics_by_simulation replay_rng cfg_horizon0 5 g = Some (Inr (m, g'))"
    using horizon0_metrics by blast
  from Replication.conv_loop_total [OF tot, of 1000 5000 "1 / 1000" 0 "([], [], [])" gA]
  obtain st wt ut g' where r: "conv_loop (metrics_by_simulation replay_rng cfg_horizon0 5) 1000 5000 (1 / 1000) 0
      ([], [], []) gA = Some (Inr ((st, wt, ut), g'))" by (metis prod_cases3)
  have "\<forall>g m g'. metrics_by_simulation replay_rng cfg_horizon0 5 g = Some (Inr (m, g')) \<longrightarrow>
          np_mean (system_time m) = None"
  proof (intro allI impI)
    fix g m g'
    assume a: "metrics_by_simulation replay_rng cfg_horizon0 5 g = Some (Inr (m, g'))"
    from horizon0_metrics obtain m1 g1 where
      "metrics_by_simulation replay_rng cfg_horizon0 5 g = Some (Inr (m1, g1))" "system_time m1 = []"
      by blast
    with a show "np_mean (system_time m) = None" by (simp add: np_mean_def)
  qed
  from Replication.conv_loop_samples [OF r this] have "\<forall>x\<in>set st. x = None" by simp
  moreover have "st \<noteq> []" using Replication.conv_loop_spec [OF r] by auto
  ultimately have "None \<in> set st" by (cases st) auto
  with r show ?thesis by blast
qed

theorem run_simulation_returns_witness:
  "(\<forall>g. \<exists>out g'. servers_simulation replay_rng cfg_horizon0 5 g = Some (Inr (out, g'))) \<and>
   (\<exists>res g'. run_simulation replay_rng cfg_horizon0 5 gA = Some (Inr (res, g')))"
  using Replication.run_simulation_returns [OF horizon0_servers_total] horizon0_servers_total by blast

lemma const_loop:
  "conv_loop sim_const 2 4 1 0 ([], [], []) 0 =
     Some (Inr (([Some 2, Some 2], [Some 1, Some 1], [Some 1, Some 1]), 2))"
  by (simp add: conv_loop.simps sim_const_def m_const_def converged_def np_std_def np_var_def
                np_mean_nan_def np_mean_def Let_def)

theorem conv_loop_stopping_rule_witness:
  "conv_loop sim_const 2 4 1 0 ([], [], []) 0 =
     Some (Inr (([Some 2, Some 2], [Some 1, Some 1], [Some 1, Some 1]), 2)) \<and>
   1 \<le> length [Some (2::real), Some 2] \<and> length [Some (2::real), Some 2] \<le> max 1 4 \<and>
   converged 1 [Some (2::real), Some 2]"
proof -
  note r = Replication.conv_loop_stopping_rule [OF const_loop]
  then have "converged 1 [Some (2::real), Some 2]" by simp
  with r const_loop show ?thesis by simp
qed

theorem conv_loop_stops_at_min_witness:
  "1 \<le> (2::nat) \<and> (2::nat) < 4 \<and> (2 - 2) / real (2::nat) < (1::real) \<and>
   conv_loop sim_const 2 4 1 0 ([], [], []) 0 =
     Some (Inr (([Some 2, Some 2], [Some 1, Some 1], [Some 1, Some 1]), 2)) \<and>
   length [Some (2::real), Some 2] = 2"
proof -
  have h: "\<forall>g m g'. sim_const g = Some (Inr (m, g')) \<longrightarrow>
             (\<exists>v. np_mean (system_time m) = Some v \<and> 2 \<le> v \<and> v \<le> 2)"
    by (simp add: sim_const_def m_const_def np_mean_def)
  have a: "1 \<le> (2::nat)" "(2::nat) < 4" "(2 - 2) / real (2::nat) < (1::real)" by simp_all
  from Replication.conv_loop_stops_at_min [OF a(1,2) h a(3) const_loop] const_loop a
  show ?thesis by simp
qed

theorem conv_loop_nan_runs_to_max_witness:
  "\<exists>st wt ut g'. conv_loop (metrics_by_simulation replay_rng cfg_horizon0 5) 1000 5000 (1 / 1000) 0
      ([], [], []) gA = Some (Inr ((st, wt, ut), g')) \<and> None \<in> set st \<and> length st = 5000"
proof -
  from horizon0_loop obtain st wt ut g' where
    r: "conv_loop (metrics_by_simulation replay_rng cfg_horizon0 5) 1000 5000 (1 / 1000) 0
      ([], [], []) gA = Some (Inr ((st, wt, ut), g'))" and n: "None \<in> set st" by blast
  from Replication.conv_loop_nan_runs_to_max [OF r n] r n show ?thesis by auto
qed

section \<open>Witnesses of the regression notebook's properties\<close>

theorem simulation_type_error_witness:
  "0 < (1::nat) \<and> simulation replay_rng 3 (1/7) 1 1 gA = Some (Inl TypeError)"
  using Regression.simulation_type_error [of 1 replay_rng 3 "1/7" 1 gA] by simp

theorem generate_poisson_returns_witness:
  "(\<forall>g. 0 \<le> fst (rand_float half_rng g) \<and> fst (rand_float half_rng g) \<le> 1 / 2) \<and> (1 / 2 :: real) < 1 \<and>
   (\<exists>k g'. generate_poisson half_rng () 1 = Some (Inr (k, g')))"
proof -
  have h: "\<forall>g. 0 \<le> fst (rand_float half_rng g) \<and> fst (rand_float half_rng g) \<le> 1 / 2" "(1 / 2 :: real) < 1"
    by (simp_all add: half_rng_def)
  from Regression.generate_poisson_returns [OF h, of "()" 1] h show ?thesis by blast
qed

theorem reg_step_schedules_arrival_witness:
  "reg_step exp_one 2 1 1 reg_s0 = Inr (reg_s0\<lparr>reg_t := 0, reg_events := [(1, 1, 0, 0), (1, 3, 0, 0)],
      reg_a := [[0 \<mapsto> 0], Map.empty]\<rparr>) \<and>
   exp_one (reg_gen reg_s0) 1 = Inr (1, ()) \<and>
   pq_get (pq_put (reg_t reg_s0 + 1, 1, 0, 0) (reg_events reg_s0)) = Inr ((0, 2, 0, 0), [(1, 1, 0, 0)]) \<and>
   ext_arrivals [(1, 1, 0, 0), (1, 3, 0, 0)] = ext_arrivals (reg_events reg_s0) + 1"
proof -
  have st: "reg_step exp_one 2 1 1 reg_s0 = Inr (reg_s0\<lparr>reg_t := 0, reg_events := [(1, 1, 0, 0), (1, 3, 0, 0)],
      reg_a := [[0 \<mapsto> 0], Map.empty]\<rparr>)"
    by (simp add: reg_step_def reg_arrival_def reg_s0_def reg_init_def exp_one_def pq_put_def pq_get_def
                  numeral_2_eq_2)
  have e: "exp_one (reg_gen reg_s0) 1 = Inr (1, ())" by (simp add: exp_one_def)
  have g: "pq_get (pq_put (reg_t reg_s0 + 1, 1, 0, 0) (reg_events reg_s0)) = Inr ((0, 2, 0, 0), [(1, 1, 0, 0)])"
    by (simp add: reg_s0_def reg_init_def pq_put_def pq_get_def)
  from Regression.reg_step_schedules_arrival [OF st e g] st e g show ?thesis by simp
qed

section \<open>Witnesses of the trace round trip and of the regression invariant\<close>

theorem sim_step_records_roundtrip_witness:
  "\<exists>s s' t e c i es. sim_step replay_rng cfgB s = Inr s' \<and> events s = (t, e, c, i) # es \<and>
     dict_get_list (sim_d s' ! i) c = dict_get_list (sim_d s ! i) c @ (if e = FINISH then [t] else [])"
proof -
  obtain s s' where r: "run_servers replay_rng cfgB 10 gA = Some (Inr s)" and ne: "events s \<noteq> []"
    and st: "sim_step replay_rng cfgB s = Inr s'"
    using runB by blast
  obtain t e c i es where ev: "events s = (t, e, c, i) # es" using ne by (metis list.exhaust prod_cases4)
  from Trace_Recorder.sim_step_records_roundtrip [OF st ev]
  have "dict_get_list (sim_d s' ! i) c = dict_get_list (sim_d s ! i) c @ (if e = FINISH then [t] else [])"
    by simp
  with st ev show ?thesis by blast
qed

theorem reg_step_inv_witness:
  "\<exists>s'. 0 < (2::nat) \<and> reg_inv 2 reg_s0 \<and> reg_step exp_one 2 1 1 reg_s0 = Inr s' \<and> reg_inv 2 s'"
proof -
  have pos: "0 < (2::nat)" by simp
  have inv: "reg_inv 2 reg_s0" by (simp add: reg_inv_def reg_s0_def reg_init_def numeral_2_eq_2)
  have st: "reg_step exp_one 2 1 1 reg_s0 = Inr (reg_s0\<lparr>reg_t := 0, reg_events := [(1, 1, 0, 0), (1, 3, 0, 0)],
      reg_a := [[0 \<mapsto> 0], Map.empty]\<rparr>)"
    by (simp add: reg_step_def reg_arrival_def reg_s0_def reg_init_def exp_one_def pq_put_def pq_get_def
                  numeral_2_eq_2)
  from Regression_Invariant.reg_step_inv [OF pos inv st] pos inv st show ?thesis by blast
qed

theorem reg_loop_no_error_witness:
  "(\<forall>g l. \<exists>x g'. exp_one g l = Inr (x, g')) \<and> 0 < (2::nat) \<and>
   reg_loop exp_one 2 1 1 10 (reg_init 2 ()) \<noteq> Some (Inl IndexError)"
proof -
  have E: "\<forall>g l. \<exists>x g'. exp_one g l = Inr (x, g')" by (simp add: exp_one_def)
  have pos: "0 < (2::nat)" by simp
  from Regression_Invariant.reg_loop_no_error [OF E pos] E pos show ?thesis by blast
qed

theorem metrics_station_wait_nan_witness:
  "1 < (3::nat) \<and> wait_time (metrics_of_output outM) ! 1 \<noteq> None"
proof -
  have "dict_get_list ([[0 \<mapsto> [1], 1 \<mapsto> [3]], [0 \<mapsto> [2], 1 \<mapsto> [4]], [1 \<mapsto> [5]]] ! 1) 0 \<noteq> []"
    by (simp add: dict_get_list_def)
  with Metrics.metrics_station_wait_nan [of 1 3 6 2 1 "[[0 \<mapsto> [1], 1 \<mapsto> [3]], [0 \<mapsto> [2], 1 \<mapsto> [4]], [1 \<mapsto> [5]]]"
      "[[0 \<mapsto> [1], 1 \<mapsto> [3]], [0 \<mapsto> [2], 1 \<mapsto> [4]], [1 \<mapsto> [5]]]"
      "[[0 \<mapsto> [2], 1 \<mapsto> [4]], [0 \<mapsto> [3], 1 \<mapsto> [5]], [1 \<mapsto> [6]]]"]
  show ?thesis by (auto simp: outM_def)
qed

section \<open>Witnesses of the client accounting and of the summary bounds\<close>

lemma reg_run_big:
  "reg_loop exp_big 1 1 1 1 (reg_init 1 ()) = Some (Inr reg_end)"
  by (simp add: reg_step_def reg_assigned_def reg_init_def reg_end_def exp_big_def pq_put_def Let_def)

theorem reg_loop_client_accounting_witness:
  "0 < (1::nat) \<and> reg_loop exp_big 1 1 1 1 (reg_init 1 ()) = Some (Inr reg_end) \<and>
   reg_n_a reg_end = reg_n_d reg_end + sum_list (map length (reg_queue reg_end)) + in_transit (reg_events reg_end) \<and>
   reg_n_a reg_end = 1"
proof -
  have pos: "0 < (1::nat)" by simp
  from Regression_Counting.reg_loop_client_accounting [OF pos reg_run_big] reg_run_big
  show ?thesis by (simp add: reg_end_def reg_init_def)
qed

theorem reg_loop_single_service_witness:
  "0 < (1::nat) \<and> reg_loop exp_big 1 1 1 1 (reg_init 1 ()) = Some (Inr reg_end) \<and>
   in_service 0 (reg_events reg_end) = 1 \<and> reg_queue reg_end ! 0 = [0]"
proof -
  have pos: "0 < (1::nat)" by simp
  from Regression_Counting.reg_loop_single_service [OF pos reg_run_big] reg_run_big
  show ?thesis by (simp add: reg_end_def reg_init_def)
qed

theorem conv_loop_summary_bounds_witness:
  "np_mean (system_time m_const) = Some 2 \<and>
   conv_loop sim_const 2 4 1 0 ([], [], []) 0 =
     Some (Inr (([Some 2, Some 2], [Some 1, Some 1], [Some 1, Some 1]), 2)) \<and>
   system_stat (summarise ([Some 2, Some 2], [Some 1, Some 1], [Some 1, Some 1])) = (Some 0, Some 2)"
proof -
  have h: "\<forall>g m g'. sim_const g = Some (Inr (m, g')) \<longrightarrow>
             (\<exists>v. np_mean (system_time m) = Some v \<and> 2 \<le> v \<and> v \<le> 2)"
    by (simp add: sim_const_def m_const_def np_mean_def)
  have m: "np_mean (system_time m_const) = Some 2" by (simp add: m_const_def np_mean_def)
  from Replication.conv_loop_summary_bounds [OF h const_loop] m const_loop
  show ?thesis by auto
qed

section \<open>Where the code departs from the specification\<close>

text \<open>C11: an \<^verbatim>\<open>ASIGNED\<close> event at station 0 ignores the client number it carries: a
  client sent back to station 0 is renumbered \<^verbatim>\<open>n_a\<close>, counted as a new arrival and,
  like an external arrival, draws and schedules one more external arrival.\<close>

theorem asigned_station0_renumbers:
  "handle_asigned R cfg t c 0 s = handle_asigned R cfg t c' 0 s \<and>
   (\<forall>s'. handle_asigned R cfg t c 0 s = Inr s' \<longrightarrow>
      n_a s' = Suc (n_a s) \<and>
      (\<exists>x g'. expovariate R (gen s) (lambda_arrival_time cfg) = Inr (x, g') \<and>
         (t + x < time cfg \<longrightarrow> (t + x, ASIGNED, 0, 0) \<in> set (events s'))))"
proof -
  have same: "handle_asigned R cfg t c 0 s = handle_asigned R cfg t c' 0 s"
    by (simp add: handle_asigned_def)
  have "n_a s' = Suc (n_a s) \<and>
      (\<exists>x g'. expovariate R (gen s) (lambda_arrival_time cfg) = Inr (x, g') \<and>
         (t + x < time cfg \<longrightarrow> (t + x, ASIGNED, 0, 0) \<in> set (events s')))"
    if h: "handle_asigned R cfg t c 0 s = Inr s'" for s'
  proof -
    obtain x g' where e: "expovariate R (gen s) (lambda_arrival_time cfg) = Inr (x, g')"
      using h by (cases "expovariate R (gen s) (lambda_arrival_time cfg)")
                  (auto simp: handle_asigned_def Let_def split: if_splits)
    from h e have "n_a s' = Suc (n_a s) \<and> (t + x < time cfg \<longrightarrow> (t + x, ASIGNED, 0, 0) \<in> set (events s'))"
      by (auto simp: handle_asigned_def Let_def split: if_splits)
    with e show ?thesis by blast
  qed
  with same show ?thesis by blast
qed

theorem asigned_station0_renumbers_witness:
  "\<exists>s'. handle_asigned replay_rng cfg_fb 2 7 0 \<lparr>sim_t = 2, events = [], n_a = 3, n_d = 0,
        sim_a = [Map.empty, Map.empty, Map.empty], sim_q = [Map.empty, Map.empty, Map.empty],
        sim_d = [Map.empty, Map.empty, Map.empty], queue = [[], [], []], gen = g_fb\<rparr> = Inr s' \<and>
     n_a s' = 4 \<and> (3, ASIGNED, 0, 0) \<in> set (events s')"
proof -
  let ?s = "\<lparr>sim_t = 2, events = [], n_a = 3, n_d = 0,
        sim_a = [Map.empty, Map.empty, Map.empty], sim_q = [Map.empty, Map.empty, Map.empty],
        sim_d = [Map.empty, Map.empty, Map.empty], queue = [[], [], []], gen = g_fb\<rparr> :: replay sim_state"
  have e: "expovariate replay_rng g_fb (lambda_arrival_time cfg_fb) = Inr (1, (replicate 59 (1 - exp (-1)), replicate 20 0))"
    by (simp add: expovariate_def g_fb_def cfg_fb_def cfg_nofb_def numeral_eq_Suc)
  have "\<exists>s'. handle_asigned replay_rng cfg_fb 2 7 0 ?s = Inr s'"
    by (simp add: handle_asigned_def Let_def e)
  then obtain s' where h: "handle_asigned replay_rng cfg_fb 2 7 0 ?s = Inr s'" by blast
  have t: "(2::real) + 1 < time cfg_fb" by (simp add: cfg_fb_def cfg_nofb_def)
  from asigned_station0_renumbers [of replay_rng cfg_fb 2 7 ?s 7] h e t
  show ?thesis by auto
qed

text \<open>Consequently the arrival counter counts re-entries. With the same draws,
  the three-station network without feedback admits 6 clients before the horizon 7,
  and with every client leaving station 1 sent back it reports 16 arrivals.\<close>

theorem feedback_inflates_arrivals:
  "\<exists>s s'. run_servers replay_rng cfg_nofb 60 g_fb = Some (Inr s) \<and>
          run_servers replay_rng cfg_fb 60 g_fb = Some (Inr s') \<and>
          n_a s = 6 \<and> n_a s' = 16"
  by (simp add: sim_eval_simps cfg_fb_def cfg_nofb_def g_fb_def numeral_eq_Suc)

text \<open>C12: a negative arrival rate is not rejected (the specification requires a
  configuration error): whenever the first draw of \<^verbatim>\<open>random()\<close> is in \<open>(0, 1)\<close>,
  the first external arrival is scheduled before time 0, and the first loop iteration
  moves the clock back to it.\<close>

theorem negative_rate_clock_goes_back:
  assumes "lambda_arrival_time cfg < 0" and "rand_float R g = (u, g1)" and "0 < u" and "u < 1"
  shows "\<exists>s t0. sim_init R cfg g = Inr s \<and> sim_t s = 0 \<and> events s = [(t0, ASIGNED, 0, 0)] \<and>
           t0 < 0 \<and> (\<forall>s'. sim_step R cfg s = Inr s' \<longrightarrow> sim_t s' = t0)"
proof -
  let ?t0 = "- ln (1 - u) / lambda_arrival_time cfg"
  have "ln (1 - u) < 0" using assms(3,4) by simp
  then have neg: "?t0 < 0" using assms(1) by (simp add: divide_neg_neg)
  have x: "expovariate R g (lambda_arrival_time cfg) = Inr (?t0, g1)"
    using assms by (simp add: expovariate_def)
  let ?s = "\<lparr>sim_t = 0, events = [(?t0, ASIGNED, 0, 0)], n_a = 0, n_d = 0,
            sim_a = replicate (n_srv cfg) Map.empty, sim_q = replicate (n_srv cfg) Map.empty,
            sim_d = replicate (n_srv cfg) Map.empty, queue = replicate (n_srv cfg) [], gen = g1\<rparr>"
  have init: "sim_init R cfg g = Inr ?s" by (simp add: sim_init_def x pq_put_def)
  have "sim_t s' = ?t0" if st: "sim_step R cfg ?s = Inr s'" for s'
  proof -
    from st have "handle_asigned R cfg ?t0 0 0 (?s\<lparr>sim_t := ?t0, events := []\<rparr>) = Inr s'"
      by (simp add: sim_step_def)
    then show ?thesis by (auto simp: handle_asigned_def Let_def split: if_splits prod.splits)
  qed
  with init neg show ?thesis by auto
qed

theorem negative_rate_clock_goes_back_witness:
  "lambda_arrival_time cfg_neg < 0 \<and> rand_float replay_rng gA = (1 - exp (- 1), (replicate 11 (1 - exp (- 1)), [])) \<and>
   0 < 1 - exp (- 1 :: real) \<and> 1 - exp (- 1) < (1::real) \<and>
   (\<exists>s s'. sim_init replay_rng cfg_neg gA = Inr s \<and> sim_step replay_rng cfg_neg s = Inr s' \<and>
      sim_t s' < sim_t s)"
proof -
  have "exp (- 1 :: real) < exp 0" by (subst exp_less_cancel_iff) simp
  then have h: "lambda_arrival_time cfg_neg < 0"
    "rand_float replay_rng gA = (1 - exp (- 1), (replicate 11 (1 - exp (- 1)), []))"
    "0 < 1 - exp (- 1 :: real)" "1 - exp (- 1) < (1::real)"
    by (simp_all add: cfg_neg_def cfgA_def gA_def numeral_eq_Suc)
  obtain s t0 where s: "sim_init replay_rng cfg_neg gA = Inr s" "sim_t s = 0" "t0 < 0"
    and goes_back: "\<forall>s'. sim_step replay_rng cfg_neg s = Inr s' \<longrightarrow> sim_t s' = t0"
    using negative_rate_clock_goes_back [OF h] by blast
  have "\<exists>s1 s'. sim_init replay_rng cfg_neg gA = Inr s1 \<and> sim_step replay_rng cfg_neg s1 = Inr s'"
    by (simp add: sim_eval_simps cfg_neg_def cfgA_def gA_def numeral_eq_Suc)
  then have "\<exists>s'. sim_step replay_rng cfg_neg s = Inr s'" using s(1) by auto
  with s goes_back h show ?thesis by force
qed

text \<open>\<^verbatim>\<open>metrics_by_simulation\<close> credits a system time to the clients
  numbered below \<^verbatim>\<open>n_d\<close>, not to the clients that departed. In the drained run
  of \<open>cfgM\<close> the only client is sent back from station 1, re-enters as client 1 and
  leaves at time 6; client 0 is credited instead, with minus its entry time, and the
  reported system times are \<open>[-1, 0]\<close>, of mean \<open>-1/2\<close>.\<close>

theorem drained_negative_system_time:
  "\<exists>m g'. metrics_by_simulation replay_rng cfgM 40 gM = Some (Inr (m, g')) \<and>
     finish cfgM \<and> m_n_d m = 1 \<and> system_time m = [-1, 0] \<and> np_mean (system_time m) = Some (- 1 / 2)"
proof -
  obtain t n na nd q a d g' where r: "servers_simulation replay_rng cfgM 40 gM = Some (Inr ((t, n, na, nd, q, a, d), g'))"
    and v: "n = 3" "na = 2" "nd = 1" "q ! 0 = [0 \<mapsto> [1], 1 \<mapsto> [3]]" "a ! 0 = [0 \<mapsto> [1], 1 \<mapsto> [3]]"
      "d ! 0 = [0 \<mapsto> [2], 1 \<mapsto> [4]]" "q ! 2 = [1 \<mapsto> [5]]" "a ! 2 = [1 \<mapsto> [5]]" "d ! 2 = [1 \<mapsto> [6]]"
    using runM by blast
  let ?m = "metrics_of_output (t, n, na, nd, q, a, d)"
  have m: "metrics_by_simulation replay_rng cfgM 40 gM = Some (Inr (?m, g'))"
    using r by (simp add: Metrics.metrics_by_simulation_Inr)
  have len: "length (system_time ?m) = 2" "m_n_d ?m = 1"
    using v by (simp_all add: Metrics.metrics_of_output_fields)
  have s0: "system_time ?m ! 0 = -1"
    using Metrics.system_time_sum [of 0 na t n nd q a d] v
    by (simp add: sys_delta_def served_def dict_get_list_def numeral_eq_Suc upt_rec)
  have s1: "system_time ?m ! 1 = 0"
    using Metrics.system_time_sum [of 1 na t n nd q a d] v
    by (simp add: sys_delta_def numeral_eq_Suc upt_rec)
  have "system_time ?m = [-1, 0]"
    using len s0 s1 by (intro nth_equalityI) (auto simp: less_Suc_eq numeral_eq_Suc)
  with m len show ?thesis by (auto simp: cfgM_def np_mean_def)
qed

text \<open>C31: a service rate of 0 is not rejected (the specification requires a
  configuration error before any event is scheduled): with any working generator and
  any non-zero arrival rate the first external arrival is scheduled, and every service
  start at a station of rate 0 raises \<^verbatim>\<open>ZeroDivisionError\<close> in
  \<^verbatim>\<open>random.expovariate(mu_wait_time[i])\<close>.\<close>

theorem zero_service_rate_raises:
  assumes "rng_ok R" and "lambda_arrival_time cfg \<noteq> 0"
    and "i < length (sim_a s)" and "i < length (mu_wait_time cfg)" and "mu_wait_time cfg ! i = 0"
  shows "(\<exists>s0. sim_init R cfg g = Inr s0 \<and> events s0 \<noteq> []) \<and>
         handle_arrival R cfg t c i s = Inl ZeroDivisionError"
proof
  obtain x g' where "expovariate R g (lambda_arrival_time cfg) = Inr (x, g')"
    using expovariate_ok [OF assms(1,2)] by blast
  then show "\<exists>s0. sim_init R cfg g = Inr s0 \<and> events s0 \<noteq> []" by (simp add: sim_init_def)
  show "handle_arrival R cfg t c i s = Inl ZeroDivisionError"
    using assms by (simp add: handle_arrival_def expovariate_zero_rate)
qed

theorem zero_service_rate_raises_witness:
  "rng_ok replay_rng \<and> lambda_arrival_time cfg_mu0 \<noteq> 0 \<and> 0 < length (mu_wait_time cfg_mu0) \<and>
   mu_wait_time cfg_mu0 ! 0 = 0 \<and>
   (\<exists>s0. sim_init replay_rng cfg_mu0 gA = Inr s0 \<and> events s0 \<noteq> [] \<and>
      handle_arrival replay_rng cfg_mu0 1 0 0 s0 = Inl ZeroDivisionError) \<and>
   servers_simulation replay_rng cfg_mu0 40 gA = Some (Inl ZeroDivisionError)"
proof -
  have h: "lambda_arrival_time cfg_mu0 \<noteq> 0" "0 < length (mu_wait_time cfg_mu0)" "mu_wait_time cfg_mu0 ! 0 = 0"
    by (simp_all add: cfg_mu0_def cfgA_def)
  obtain x g' where "expovariate replay_rng gA (lambda_arrival_time cfg_mu0) = Inr (x, g')"
    using expovariate_ok [OF replay_rng_ok h(1)] by blast
  then have "\<exists>s0. sim_init replay_rng cfg_mu0 gA = Inr s0 \<and> events s0 \<noteq> [] \<and> 0 < length (sim_a s0)"
    by (auto simp: sim_init_def cfg_mu0_def cfgA_def)
  then obtain s0 where i: "sim_init replay_rng cfg_mu0 gA = Inr s0" "events s0 \<noteq> []"
    and len: "0 < length (sim_a s0)" by blast
  have run: "servers_simulation replay_rng cfg_mu0 40 gA = Some (Inl ZeroDivisionError)"
    by (simp add: sim_eval_simps cfg_mu0_def cfgA_def gA_def numeral_eq_Suc)
  from zero_service_rate_raises [OF replay_rng_ok h(1) len h(2,3), of gA 1 0] i h run replay_rng_ok
  show ?thesis by auto
qed

end
